theory Spec2Isabelle
  imports Complex_Main
begin

section \<open>Data model\<close>

text \<open>
  The engine works on GeoJSON features held in \<^verbatim>\<open>state.allPolities\<close> and
  \<^verbatim>\<open>state.allCities\<close>. JavaScript numbers are modelled exactly: years and
  population counts as \<^typ>\<open>int\<close>, coordinates and areas as \<^typ>\<open>real\<close>
  in exact arithmetic. Where a result depends on the rounding of the source's
  double-precision operations (the crossing abscissa of the ray-casting test, the sum of
  the areas), the operations are given a second time with every result rounded to a
  double (\<open>toDouble\<close>), and the theorems say what holds of the rounded ones. A JavaScript
  object used as a dictionary is a map or an association list of its own properties,
  together with the property names that every object inherits from
  \<^verbatim>\<open>Object.prototype\<close>. A property that the source
  itself tests for absence (\<^verbatim>\<open>Area || 0\<close>, \<^verbatim>\<open>if (!pops)\<close>,
  \<^verbatim>\<open>if (!geom)\<close>) is an \<^typ>\<open>'a option\<close>, and reading a property of
  \<^verbatim>\<open>null\<close> or \<^verbatim>\<open>undefined\<close> is the error \<open>TypeError\<close>.
\<close>

datatype js_error = TypeError

type_synonym point = "real \<times> real"

type_synonym ring = "point list"

text \<open>
  A geometry object \<^verbatim>\<open>{type, coordinates}\<close>: a polygon is a list of rings (the outer
  ring first), a multipolygon a list of polygons. Every other \<^verbatim>\<open>type\<close> string is
  \<open>OtherGeometry\<close>.
\<close>

datatype geometry =
    Polygon "ring list"
  | MultiPolygon "ring list list"
  | OtherGeometry string

text \<open>A polity feature: \<^verbatim>\<open>properties.Name\<close>, \<^verbatim>\<open>FromYear\<close>,
  \<^verbatim>\<open>ToYear\<close>, \<^verbatim>\<open>Area\<close> and the feature's \<^verbatim>\<open>geometry\<close>.\<close>

record polity =
  Name :: string
  FromYear :: int
  ToYear :: int
  Area :: "real option"
  geometry :: "geometry option"

text \<open>A city feature: \<^verbatim>\<open>properties.name\<close>, \<^verbatim>\<open>geometry.coordinates\<close>,
  \<^verbatim>\<open>properties.populations\<close> (keyed by year) and \<^verbatim>\<open>properties.minYear\<close>.\<close>

record city =
  cityName :: string
  coordinates :: point
  populations :: "(int \<times> int) list option"
  minYear :: int

text \<open>A sample of \<^verbatim>\<open>state.worldStats\<close>: \<^verbatim>\<open>{year, population, gdp_per_capita}\<close>.\<close>

record worldStat =
  ws_year :: int
  ws_population :: real
  ws_gdp_per_capita :: real

section \<open>Entity visibility filter\<close>

text \<open>\<^verbatim>\<open>name.startsWith('(')\<close> and \<^verbatim>\<open>name.endsWith(')')\<close> on a string.\<close>

definition startsWith :: "string \<Rightarrow> char \<Rightarrow> bool" where
  "startsWith s c = (case s of [] \<Rightarrow> False | x # _ \<Rightarrow> x = c)"

definition endsWith :: "string \<Rightarrow> char \<Rightarrow> bool" where
  "endsWith s c = (case rev s of [] \<Rightarrow> False | x # _ \<Rightarrow> x = c)"

definition isParenthetical :: "string \<Rightarrow> bool" where
  "isParenthetical name = (startsWith name CHR ''('' \<and> endsWith name CHR '')'')"

text \<open>The filter of \<^verbatim>\<open>updateMap\<close> (js/map.js, lines 125-132).\<close>

definition updateMap_visiblePolities :: "int \<Rightarrow> polity list \<Rightarrow> polity list" where
  "updateMap_visiblePolities yr allPolities =
     filter (\<lambda>f. if isParenthetical (Name f) then False
                 else FromYear f \<le> yr \<and> yr \<le> ToYear f) allPolities"

text \<open>The filter inside \<^verbatim>\<open>processChunk\<close> of \<^verbatim>\<open>preloadGraphData\<close>
  (graph panel, lines 320-324).\<close>

definition preloadGraphData_visiblePolities :: "int \<Rightarrow> polity list \<Rightarrow> polity list" where
  "preloadGraphData_visiblePolities yr allPolities =
     filter (\<lambda>f. FromYear f \<le> yr \<and> yr \<le> ToYear f) allPolities"

section \<open>Objects used as dictionaries\<close>

text \<open>
  \<^verbatim>\<open>state.polityFoundingYears\<close> and \<^verbatim>\<open>civData\<close> are created as \<^verbatim>\<open>{}\<close>, so
  they inherit the properties of \<^verbatim>\<open>Object.prototype\<close>; these are its property
  names. \<^verbatim>\<open>name in obj\<close> holds for them, and \<^verbatim>\<open>obj[name]\<close> is then a function
  (for \<^verbatim>\<open>__proto__\<close> the prototype object itself): a value that is truthy and that
  compares as \<^verbatim>\<open>NaN\<close> with a number.
\<close>

definition objectPrototypeNames :: "string list" where
  "objectPrototypeNames =
     [''constructor'', ''__defineGetter__'', ''__defineSetter__'', ''hasOwnProperty'',
      ''__lookupGetter__'', ''__lookupSetter__'', ''isPrototypeOf'', ''propertyIsEnumerable'',
      ''toString'', ''valueOf'', ''__proto__'', ''toLocaleString'']"

definition inheritedName :: "string \<Rightarrow> bool" where
  "inheritedName name = (name \<in> set objectPrototypeNames)"

section \<open>Founding-year index\<close>

text \<open>The loop of \<^verbatim>\<open>loadAllData\<close> that builds \<^verbatim>\<open>state.polityFoundingYears\<close>
  (js/map.js, lines 616-625), one step per polity; the map holds the own properties.
  For a name without an own property, \<^verbatim>\<open>name in state.polityFoundingYears\<close> is still
  true when the name is inherited; \<^verbatim>\<open>fromYear < state.polityFoundingYears[name]\<close> then
  compares a number with the inherited value and is false, so nothing is stored.\<close>

definition foundingStep :: "polity \<Rightarrow> (string \<rightharpoonup> int) \<Rightarrow> (string \<rightharpoonup> int)" where
  "foundingStep p fy =
     (if isParenthetical (Name p) then fy
      else (case fy (Name p) of
              None \<Rightarrow> if inheritedName (Name p) then fy else fy(Name p \<mapsto> FromYear p)
            | Some y \<Rightarrow> if FromYear p < y then fy(Name p \<mapsto> FromYear p) else fy))"

definition polityFoundingYears :: "polity list \<Rightarrow> (string \<rightharpoonup> int)" where
  "polityFoundingYears allPolities = fold foundingStep allPolities Map.empty"

section \<open>Temporal attribute resolver\<close>

datatype confidence = Recorded | Interpolated | Estimated | Projected | Prehistoric

text \<open>The object returned by \<^verbatim>\<open>getPopulationForYear\<close>:
  \<^verbatim>\<open>{pop, year, status, gap}\<close> (\<open>popYear\<close> is the field \<^verbatim>\<open>year\<close>; the
  \<^verbatim>\<open>recorded\<close> result has no \<^verbatim>\<open>gap\<close>).\<close>

record popData =
  pop :: int
  popYear :: int
  status :: confidence
  gap :: "int option"

text \<open>One iteration of the loop over the sorted years (js/utils.js, lines 352-355);
  the accumulator is \<open>(pastYear, futureYear)\<close>, \<open>None\<close> for \<^verbatim>\<open>null\<close>.\<close>

definition scanStep :: "int \<Rightarrow> int \<Rightarrow> int option \<times> int option \<Rightarrow> int option \<times> int option" where
  "scanStep yr y acc =
     (let pastYear = (if y < yr then Some y else fst acc);
          futureYear = (if yr < y \<and> snd acc = None then Some y else snd acc)
      in (pastYear, futureYear))"

text \<open>
  \<^verbatim>\<open>getPopulationForYear(city, year)\<close> (js/utils.js, lines 335-376).
  \<^verbatim>\<open>Object.keys(pops)\<close> throws when \<^verbatim>\<open>populations\<close> is missing, before any
  other test. The reads \<^verbatim>\<open>pops[pastYear]\<close> and \<^verbatim>\<open>pops[futureYear]\<close> are
  reads at a key of the series (lemma \<open>scan_keys\<close> below), written with \<open>the\<close>.
  \<^verbatim>\<open>Math.pow(0.999, gap - 500)\<close> is the exact power.
\<close>

definition getPopulationForYear :: "city \<Rightarrow> int \<Rightarrow> js_error + popData option" where
  "getPopulationForYear c yr =
     (case populations c of
        None \<Rightarrow> Inl TypeError
      | Some pops \<Rightarrow>
          (let years = sort (map fst pops) in
           if yr < minYear c then Inr None
           else
             (case map_of pops yr of
                Some exactMatch \<Rightarrow>
                  Inr (Some \<lparr>pop = exactMatch, popYear = yr, status = Recorded, gap = None\<rparr>)
              | None \<Rightarrow>
                  (case fold (scanStep yr) years (None, None) of
                     (Some pastYear, _) \<Rightarrow>
                       (let g = yr - pastYear;
                            st = (if g \<le> 50 then Interpolated
                                  else if g \<le> 200 then Estimated else Projected);
                            p = the (map_of pops pastYear);
                            p' = (if 500 < g
                                  then max 1000 \<lfloor>real_of_int p * (999 / 1000) ^ nat (g - 500)\<rfloor>
                                  else p)
                        in Inr (Some \<lparr>pop = p', popYear = pastYear, status = st, gap = Some g\<rparr>))
                   | (None, Some futureYear) \<Rightarrow>
                       (let g = futureYear - yr;
                            p = \<lfloor>real_of_int (the (map_of pops futureYear)) * (1 / 2)\<rfloor>
                        in Inr (Some \<lparr>pop = max 500 p, popYear = futureYear,
                                       status = Prehistoric, gap = Some g\<rparr>))
                   | (None, None) \<Rightarrow> Inr None))))"

section \<open>Dataset load: the city collection\<close>

text \<open>The filter of \<^verbatim>\<open>loadAllData\<close> (js/map.js, lines 645-650).
  \<^verbatim>\<open>Math.max(...[])\<close> is \<^verbatim>\<open>-Infinity\<close>, which is below 100000.\<close>

definition reaches100k :: "city \<Rightarrow> bool" where
  "reaches100k c =
     (case populations c of
        None \<Rightarrow> False
      | Some pops \<Rightarrow>
          (case map snd pops of
             [] \<Rightarrow> False
           | v # vs \<Rightarrow> 100000 \<le> fold max vs v))"

definition loadCities :: "city list \<Rightarrow> city list" where
  "loadCities features = filter reaches100k features"

section \<open>Aggregate metrics engine\<close>

text \<open>\<^verbatim>\<open>getWorldStatsForYear(year)\<close> (js/utils.js, lines 386-406);
  \<^verbatim>\<open>Math.round(x)\<close> is \<open>\<lfloor>x + 1/2\<rfloor>\<close>.\<close>

definition statsStep :: "int \<Rightarrow> worldStat \<Rightarrow> worldStat option \<times> worldStat option
    \<Rightarrow> worldStat option \<times> worldStat option" where
  "statsStep yr s acc =
     (let before = (if ws_year s \<le> yr then Some s else fst acc);
          after = (if yr \<le> ws_year s \<and> snd acc = None then Some s else snd acc)
      in (before, after))"

definition getWorldStatsForYear :: "worldStat list \<Rightarrow> int \<Rightarrow> worldStat option" where
  "getWorldStatsForYear worldStats yr =
     (if worldStats = [] then None
      else
        (case fold (statsStep yr) worldStats (None, None) of
           (None, None) \<Rightarrow> None
         | (None, Some after) \<Rightarrow> Some after
         | (Some before, None) \<Rightarrow> Some before
         | (Some before, Some after) \<Rightarrow>
             if ws_year before = ws_year after then Some before
             else
               (let t = real_of_int (yr - ws_year before)
                          / real_of_int (ws_year after - ws_year before)
                in Some \<lparr>ws_year = yr,
                     ws_population = of_int \<lfloor>ws_population before
                        + t * (ws_population after - ws_population before) + 1 / 2\<rfloor>,
                     ws_gdp_per_capita = of_int \<lfloor>ws_gdp_per_capita before
                        + t * (ws_gdp_per_capita after - ws_gdp_per_capita before) + 1 / 2\<rfloor>\<rparr>)))"

text \<open>An entry of \<^verbatim>\<open>civData\<close>: \<^verbatim>\<open>{area, fromYear, color}\<close>. The colour is a hash
  of the name under the current palette and takes no part in any total; it is left out.\<close>

record civ =
  area :: real
  fromYear :: int

text \<open>\<^verbatim>\<open>p.properties.Area || 0\<close>.\<close>

definition areaOr0 :: "polity \<Rightarrow> real" where
  "areaOr0 p = (case Area p of None \<Rightarrow> 0 | Some a \<Rightarrow> a)"

text \<open>The sums of areas are written here in exact arithmetic; the source adds in double
  precision, grouped by name (\<open>landAreaD\<close> below). The two agree when every partial sum
  is a number that a double holds exactly, as it is when the areas are integers whose
  absolute values add up to at most \<open>2\<^sup>5\<^sup>3\<close>.\<close>

definition exactAreas :: "polity list \<Rightarrow> bool" where
  "exactAreas ps =
     (list_all (\<lambda>p. real_of_int \<lfloor>areaOr0 p\<rfloor> = areaOr0 p) ps
      \<and> sum_list (map (\<lambda>p. \<bar>areaOr0 p\<bar>) ps) \<le> 2 ^ 53)"

text \<open>One iteration of the loop over \<^verbatim>\<open>visiblePolities\<close> (graph panel, lines 16-27).
  \<^verbatim>\<open>civData\<close> is the list of its own entries in insertion order, the order in which
  \<^verbatim>\<open>Object.entries\<close> lists them (a name that is a canonical array index, such as
  \<^verbatim>\<open>'7'\<close>, is listed before the others; no total depends on the order). For a
  name without an own entry that is inherited, \<^verbatim>\<open>civData[name]\<close> is the inherited
  value, which is truthy: no entry is created, and the two assignments that follow set
  properties of the inherited value, which \<^verbatim>\<open>Object.entries(civData)\<close> does not
  list and nothing else reads.\<close>

definition civDataStep :: "polity \<Rightarrow> (string \<times> civ) list \<Rightarrow> (string \<times> civ) list" where
  "civDataStep p civData =
     (let name = Name p
      in if map_of civData name = None \<and> inheritedName name then civData
         else
           (let civData1 = (if map_of civData name = None
                            then civData @ [(name, \<lparr>area = 0, fromYear = FromYear p\<rparr>)]
                            else civData)
            in map (\<lambda>(k, c). if k = name
                               then (k, c\<lparr>area := area c + areaOr0 p,
                                          fromYear := min (fromYear c) (FromYear p)\<rparr>)
                               else (k, c)) civData1))"

text \<open>The loop over \<^verbatim>\<open>state.allCities\<close> (graph panel, lines 36-44); the accumulator
  is \<open>(totalCities, totalUrbanPop)\<close>.\<close>

fun cityTotals :: "int \<Rightarrow> city list \<Rightarrow> nat \<times> int \<Rightarrow> js_error + nat \<times> int" where
  "cityTotals yr [] acc = Inr acc"
| "cityTotals yr (c # cs) (n, u) =
     (case getPopulationForYear c yr of
        Inl e \<Rightarrow> Inl e
      | Inr None \<Rightarrow> cityTotals yr cs (n, u)
      | Inr (Some popData) \<Rightarrow> cityTotals yr cs (n + 1, u + pop popData))"

record metric_totals =
  population :: real
  civilizations :: nat
  landArea :: real
  cities :: nat
  urbanPop :: int
  gdpPerCapita :: real
  largestEmpire :: real
  avgAge :: real

record metrics =
  totals :: metric_totals
  civs :: "(string \<times> civ) list"

text \<open>\<^verbatim>\<open>calculateMetricsFast(year, visiblePolities)\<close> (graph panel, lines 12-59), with
  \<^verbatim>\<open>state.worldStats\<close> and \<^verbatim>\<open>state.allCities\<close> as arguments.\<close>

definition calculateMetricsFast ::
    "worldStat list \<Rightarrow> city list \<Rightarrow> int \<Rightarrow> polity list \<Rightarrow> js_error + metrics" where
  "calculateMetricsFast worldStats allCities yr visiblePolities =
     (let stats = getWorldStatsForYear worldStats yr;
          civData = fold civDataStep visiblePolities [];
          civList = civData;
          totalArea = fold (\<lambda>(_, c) s. s + area c) civList 0;
          largestArea = (case map (\<lambda>(_, c). area c) civList of
                           [] \<Rightarrow> 0
                         | a # as \<Rightarrow> fold max as a);
          avgAge = (if 0 < length civList
                    then real_of_int (fold (\<lambda>(_, c) s. s + (yr - fromYear c)) civList 0)
                           / real (length civList)
                    else 0)
      in case cityTotals yr allCities (0, 0) of
           Inl e \<Rightarrow> Inl e
         | Inr (totalCities, totalUrbanPop) \<Rightarrow>
             Inr \<lparr>totals =
                    \<lparr>population = (case stats of None \<Rightarrow> 0 | Some s \<Rightarrow> ws_population s),
                     civilizations = length civList,
                     landArea = totalArea,
                     cities = totalCities,
                     urbanPop = totalUrbanPop,
                     gdpPerCapita = (case stats of None \<Rightarrow> 0 | Some s \<Rightarrow> ws_gdp_per_capita s),
                     largestEmpire = largestArea,
                     avgAge = avgAge\<rparr>,
                  civs = civData\<rparr>)"

text \<open>The years of the precompute pass (graph panel, lines 307-311):
  \<^verbatim>\<open>for (let year = -3700; year <= 2024; year += 50)\<close>.\<close>

function yearsFrom :: "int \<Rightarrow> int list" where
  "yearsFrom y = (if y \<le> 2024 then y # yearsFrom (y + 50) else [])"
  by pat_completeness auto
termination
  by (relation "measure (\<lambda>y. nat (2025 - y))") auto

declare yearsFrom.simps [simp del]

definition preloadYears :: "int list" where
  "preloadYears = yearsFrom (- 3700)"

text \<open>\<^verbatim>\<open>processChunk\<close> (graph panel, lines 316-327) over the years still to do. The
  chunks of 20 years run one per animation frame and together visit every year in order;
  an exception ends the pass. \<^verbatim>\<open>state.graphData\<close> is a map keyed by year.
  \<open>preloadGraphData\<close> is the pass from a state whose \<^verbatim>\<open>graphDataLoaded\<close> is still
  false; once it is true the function changes nothing.\<close>

fun processYears :: "worldStat list \<Rightarrow> city list \<Rightarrow> polity list \<Rightarrow> int list
    \<Rightarrow> (int \<rightharpoonup> metrics) \<Rightarrow> js_error + (int \<rightharpoonup> metrics)" where
  "processYears worldStats allCities allPolities [] graphData = Inr graphData"
| "processYears worldStats allCities allPolities (yr # yrs) graphData =
     (case calculateMetricsFast worldStats allCities yr
             (preloadGraphData_visiblePolities yr allPolities) of
        Inl e \<Rightarrow> Inl e
      | Inr data \<Rightarrow>
          processYears worldStats allCities allPolities yrs (graphData(yr \<mapsto> data)))"

definition preloadGraphData :: "worldStat list \<Rightarrow> city list \<Rightarrow> polity list
    \<Rightarrow> (int \<rightharpoonup> metrics) \<Rightarrow> js_error + (int \<rightharpoonup> metrics)" where
  "preloadGraphData worldStats allCities allPolities graphData =
     processYears worldStats allCities allPolities preloadYears graphData"

text \<open>\<^verbatim>\<open>updateGraph(year, visiblePolities)\<close> as \<^verbatim>\<open>updateMap\<close> calls it: the metrics
  of the year over the polities that \<^verbatim>\<open>updateMap\<close> shows, stored under the year.\<close>

definition updateGraph :: "worldStat list \<Rightarrow> city list \<Rightarrow> polity list \<Rightarrow> int
    \<Rightarrow> (int \<rightharpoonup> metrics) \<Rightarrow> js_error + (int \<rightharpoonup> metrics)" where
  "updateGraph worldStats allCities allPolities yr graphData =
     (case calculateMetricsFast worldStats allCities yr
             (updateMap_visiblePolities yr allPolities) of
        Inl e \<Rightarrow> Inl e
      | Inr data \<Rightarrow> Inr (graphData(yr \<mapsto> data)))"

section \<open>Geometry kernel\<close>

text \<open>The test of one edge in \<^verbatim>\<open>pointInPolygon\<close> (js/utils.js, line 125), for the
  vertices \<^verbatim>\<open>polygon[i]\<close> and \<^verbatim>\<open>polygon[j]\<close>. The division is evaluated only when
  the first conjunct holds, and then \<open>yi \<noteq> yj\<close>. The comparisons of the first
  conjunct are the source's own; the crossing abscissa of the second is written in exact
  arithmetic, where the source rounds each of its four operations to a double, so the
  two can differ for a point within rounding error of an edge (the test with the
  rounding is \<open>edgeCrossedD\<close> below).\<close>

definition edgeCrossed :: "point \<Rightarrow> point \<Rightarrow> point \<Rightarrow> bool" where
  "edgeCrossed pt vi vj =
     (let x = fst pt; y = snd pt; xi = fst vi; yi = snd vi; xj = fst vj; yj = snd vj
      in ((y < yi) \<noteq> (y < yj)) \<and> x < (xj - xi) * (y - yi) / (yj - yi) + xi)"

text \<open>The loop of \<^verbatim>\<open>pointInPolygon\<close>: \<open>vj\<close> is \<^verbatim>\<open>polygon[j]\<close>, the vertex before
  the head of the list; it starts as the last vertex.\<close>

fun pipLoop :: "point \<Rightarrow> ring \<Rightarrow> point \<Rightarrow> bool \<Rightarrow> bool" where
  "pipLoop pt [] vj inside = inside"
| "pipLoop pt (vi # rest) vj inside =
     pipLoop pt rest vi (if edgeCrossed pt vi vj then \<not> inside else inside)"

definition pointInPolygon :: "point \<Rightarrow> ring \<Rightarrow> bool" where
  "pointInPolygon pt polygon =
     (case polygon of [] \<Rightarrow> False | _ # _ \<Rightarrow> pipLoop pt polygon (last polygon) False)"

text \<open>The distance from a point to the segment between \<^verbatim>\<open>polygon[i]\<close> and
  \<^verbatim>\<open>polygon[(i + 1) % polygon.length]\<close> (js/utils.js, lines 141-156).\<close>

definition edgeDistance :: "point \<Rightarrow> point \<Rightarrow> point \<Rightarrow> real" where
  "edgeDistance pt v1 v2 =
     (let px = fst pt; py = snd pt; x1 = fst v1; y1 = snd v1; x2 = fst v2; y2 = snd v2;
          dx = x2 - x1; dy = y2 - y1
      in if dx = 0 \<and> dy = 0 then sqrt ((px - x1)\<^sup>2 + (py - y1)\<^sup>2)
         else
           (let t = max 0 (min 1 (((px - x1) * dx + (py - y1) * dy) / (dx * dx + dy * dy)));
                projX = x1 + t * dx;
                projY = y1 + t * dy
            in sqrt ((px - projX)\<^sup>2 + (py - projY)\<^sup>2)))"

text \<open>A distance that starts as \<^verbatim>\<open>Infinity\<close>: \<open>None\<close> is \<^verbatim>\<open>Infinity\<close>.\<close>

definition minDistance :: "real option \<Rightarrow> real option \<Rightarrow> real option" where
  "minDistance a b =
     (case a of None \<Rightarrow> b | Some x \<Rightarrow> (case b of None \<Rightarrow> Some x | Some y \<Rightarrow> Some (min x y)))"

definition distanceToPolygonEdge :: "point \<Rightarrow> ring \<Rightarrow> real option" where
  "distanceToPolygonEdge pt polygon =
     fold (\<lambda>(v1, v2) minDist. minDistance minDist (Some (edgeDistance pt v1 v2)))
       (zip polygon (rotate1 polygon)) None"

text \<open>\<^verbatim>\<open>poly[0]\<close> and \<^verbatim>\<open>geometry.coordinates[0]\<close>: \<^verbatim>\<open>undefined\<close> on an empty array,
  and then reading its \<^verbatim>\<open>length\<close> throws.\<close>

definition outerRing :: "ring list \<Rightarrow> js_error + ring" where
  "outerRing rings = (case rings of [] \<Rightarrow> Inl TypeError | r # _ \<Rightarrow> Inr r)"

fun multiDistance :: "point \<Rightarrow> ring list list \<Rightarrow> real option \<Rightarrow> js_error + real option" where
  "multiDistance pt [] minDist = Inr minDist"
| "multiDistance pt (poly # polys) minDist =
     (case outerRing poly of
        Inl e \<Rightarrow> Inl e
      | Inr r \<Rightarrow> multiDistance pt polys (minDistance minDist (distanceToPolygonEdge pt r)))"

definition distanceToGeometryEdge :: "real \<Rightarrow> real \<Rightarrow> geometry \<Rightarrow> js_error + real option" where
  "distanceToGeometryEdge lon lat g =
     (case g of
        Polygon rings \<Rightarrow>
          (case outerRing rings of
             Inl e \<Rightarrow> Inl e
           | Inr r \<Rightarrow> Inr (distanceToPolygonEdge (lon, lat) r))
      | MultiPolygon polys \<Rightarrow> multiDistance (lon, lat) polys None
      | OtherGeometry t \<Rightarrow> Inr None)"

text \<open>The loop over the parts of a multipolygon in \<^verbatim>\<open>pointInGeometry\<close>
  (js/utils.js, lines 186-190).\<close>

fun multiContains :: "point \<Rightarrow> ring list list \<Rightarrow> js_error + bool" where
  "multiContains pt [] = Inr False"
| "multiContains pt (poly # polys) =
     (case outerRing poly of
        Inl e \<Rightarrow> Inl e
      | Inr r \<Rightarrow> if pointInPolygon pt r then Inr True else multiContains pt polys)"

text \<open>\<^verbatim>\<open>pointInGeometry(lon, lat, geometry, tolerance = 0)\<close> (js/utils.js,
  lines 177-203). The argument is \<open>None\<close> for a \<^verbatim>\<open>null\<close> or \<^verbatim>\<open>undefined\<close>
  geometry, whose \<^verbatim>\<open>type\<close> cannot be read.\<close>

definition pointInGeometry :: "real \<Rightarrow> real \<Rightarrow> geometry option \<Rightarrow> real \<Rightarrow> js_error + bool" where
  "pointInGeometry lon lat geom tolerance =
     (case geom of
        None \<Rightarrow> Inl TypeError
      | Some g \<Rightarrow>
          (case (case g of
                   Polygon rings \<Rightarrow>
                     (case outerRing rings of
                        Inl e \<Rightarrow> Inl e
                      | Inr r \<Rightarrow> Inr (pointInPolygon (lon, lat) r))
                 | MultiPolygon polys \<Rightarrow> multiContains (lon, lat) polys
                 | OtherGeometry t \<Rightarrow> Inr False) of
             Inl e \<Rightarrow> Inl e
           | Inr True \<Rightarrow> Inr True
           | Inr False \<Rightarrow>
               if 0 < tolerance
               then (case distanceToGeometryEdge lon lat g of
                       Inl e \<Rightarrow> Inl e
                     | Inr None \<Rightarrow> Inr False
                     | Inr (Some d) \<Rightarrow> Inr (d \<le> tolerance))
               else Inr False))"

text \<open>\<^verbatim>\<open>polygonArea(coords)\<close> (js/utils.js, lines 206-212).\<close>

fun areaLoop :: "ring \<Rightarrow> point \<Rightarrow> real \<Rightarrow> real" where
  "areaLoop [] vj a = a"
| "areaLoop (vi # rest) vj a = areaLoop rest vi (a + (fst vj + fst vi) * (snd vj - snd vi))"

definition polygonArea :: "ring \<Rightarrow> real" where
  "polygonArea coords =
     (case coords of [] \<Rightarrow> 0 | _ # _ \<Rightarrow> areaLoop coords (last coords) 0) / 2"

text \<open>The search for the largest part in \<^verbatim>\<open>getCentroid\<close> (js/utils.js, lines
  221-228); the accumulator is \<open>(maxArea, coords)\<close>, \<open>None\<close> for a \<^verbatim>\<open>coords\<close>
  that is still \<^verbatim>\<open>undefined\<close>.\<close>

fun largestPart :: "ring list list \<Rightarrow> real \<times> ring option \<Rightarrow> js_error + (real \<times> ring option)" where
  "largestPart [] acc = Inr acc"
| "largestPart (poly # polys) (maxArea, coords) =
     (case outerRing poly of
        Inl e \<Rightarrow> Inl e
      | Inr r \<Rightarrow>
          (let a = \<bar>polygonArea r\<bar>
           in if maxArea < a then largestPart polys (a, Some r)
              else largestPart polys (maxArea, coords)))"

text \<open>The object \<^verbatim>\<open>{lat, lng}\<close> that \<^verbatim>\<open>getCentroid\<close> returns.\<close>

record centroid =
  centroid_lat :: real
  centroid_lng :: real

text \<open>\<^verbatim>\<open>getCentroid(geometry)\<close> (js/utils.js, lines 215-242).\<close>

definition getCentroid :: "geometry option \<Rightarrow> js_error + centroid option" where
  "getCentroid geom =
     (case geom of
        None \<Rightarrow> Inl TypeError
      | Some g \<Rightarrow>
          (case (case g of
                   Polygon rings \<Rightarrow> Inr (case rings of [] \<Rightarrow> None | r # _ \<Rightarrow> Some r)
                 | MultiPolygon polys \<Rightarrow>
                     (case largestPart polys (0, None) of
                        Inl e \<Rightarrow> Inl e
                      | Inr (maxArea, coords) \<Rightarrow> Inr coords)
                 | OtherGeometry t \<Rightarrow> Inr None) of
             Inl e \<Rightarrow> Inl e
           | Inr None \<Rightarrow> Inr None
           | Inr (Some coords) \<Rightarrow>
               if coords = [] then Inr None
               else Inr (Some \<lparr>centroid_lat = sum_list (map snd coords) / real (length coords),
                                centroid_lng = sum_list (map fst coords) / real (length coords)\<rparr>)))"









section \<open>The ray-casting test in double precision\<close>

text \<open>
  A JavaScript number is an IEEE 754 binary64 value: a finite double, an infinity or
  \<^verbatim>\<open>NaN\<close>. The sign of a zero is left out; it shows only in a division by zero.
\<close>

datatype jsnum = Num real | PosInf | NegInf | NaN

text \<open>Rounding to the nearest integer, ties to the even one.\<close>

definition roundHalfEven :: "real \<Rightarrow> int" where
  "roundHalfEven q =
     (let f = \<lfloor>q\<rfloor>; d = q - of_int f
      in if d < 1 / 2 then f else if 1 / 2 < d then f + 1 else if even f then f else f + 1)"

text \<open>The double nearest to a real number, ties to even: a multiple of \<open>2\<^sup>e\<close> with a
  significand of 53 bits, where \<open>e\<close> is at least \<open>-1074\<close> (the subnormal numbers);
  a result of magnitude \<open>2\<^sup>1\<^sup>0\<^sup>2\<^sup>4\<close> or more is an infinity.\<close>

definition toDouble :: "real \<Rightarrow> jsnum" where
  "toDouble x =
     (if x = 0 then Num 0
      else
        (let e = max (- 1074) (\<lfloor>log 2 \<bar>x\<bar>\<rfloor> - 52);
             v = of_int (roundHalfEven (x / 2 powi e)) * 2 powi e
         in if 2 ^ 1024 \<le> v then PosInf else if v \<le> - (2 ^ 1024) then NegInf else Num v))"




fun fadd :: "jsnum \<Rightarrow> real \<Rightarrow> jsnum" where
  "fadd (Num a) b = toDouble (a + b)"
| "fadd PosInf b = PosInf"
| "fadd NegInf b = NegInf"
| "fadd NaN b = NaN"







section \<open>The land area in double precision\<close>

text \<open>The addition of two numbers.\<close>

fun jsAdd :: "jsnum \<Rightarrow> jsnum \<Rightarrow> jsnum" where
  "jsAdd (Num a) (Num b) = toDouble (a + b)"
| "jsAdd NaN _ = NaN"
| "jsAdd _ NaN = NaN"
| "jsAdd PosInf NegInf = NaN"
| "jsAdd NegInf PosInf = NaN"
| "jsAdd PosInf _ = PosInf"
| "jsAdd _ PosInf = PosInf"
| "jsAdd NegInf _ = NegInf"
| "jsAdd _ NegInf = NegInf"

text \<open>The two loops of \<^verbatim>\<open>calculateMetricsFast\<close> that make \<^verbatim>\<open>totals.landArea\<close>
  (graph panel, lines 15-27 and 30), on the areas alone and with every addition rounded
  as the source rounds it: \<open>areaStepD\<close> is \<open>civDataStep\<close> on the field \<^verbatim>\<open>area\<close>, and
  \<open>landAreaD\<close> is the \<^verbatim>\<open>reduce\<close> over the entries, from 0.\<close>

definition areaStepD :: "polity \<Rightarrow> (string \<times> jsnum) list \<Rightarrow> (string \<times> jsnum) list" where
  "areaStepD p civData =
     (let name = Name p
      in if map_of civData name = None \<and> inheritedName name then civData
         else
           (let civData1 = (if map_of civData name = None
                            then civData @ [(name, Num 0)]
                            else civData)
            in map (\<lambda>(k, a). if k = name then (k, jsAdd a (Num (areaOr0 p))) else (k, a))
                 civData1))"

definition landAreaD :: "polity list \<Rightarrow> jsnum" where
  "landAreaD visiblePolities =
     fold (\<lambda>(_, a) s. jsAdd s a) (fold areaStepD visiblePolities []) (Num 0)"

text \<open>The entries of \<^verbatim>\<open>civData\<close> with their areas read as doubles.\<close>

definition asDoubles :: "(string \<times> civ) list \<Rightarrow> (string \<times> jsnum) list" where
  "asDoubles cd = map (\<lambda>(k, c). (k, Num (area c))) cd"

section \<open>Malformed geometry\<close>

text \<open>The malformed inputs that are still objects: a geometry of an unknown type, a
  polygon whose outer ring is empty, and a multipolygon whose parts all have an empty
  outer ring (among them the multipolygon with no part).\<close>

definition emptyOuterRing :: "ring list \<Rightarrow> bool" where
  "emptyOuterRing rings = (case rings of [] \<Rightarrow> False | r # _ \<Rightarrow> r = [])"

definition emptyOrUnknown :: "geometry \<Rightarrow> bool" where
  "emptyOrUnknown g =
     (case g of
        Polygon rings \<Rightarrow> emptyOuterRing rings
      | MultiPolygon polys \<Rightarrow> list_all emptyOuterRing polys
      | OtherGeometry t \<Rightarrow> True)"

section \<open>Per-polity city count\<close>

definition CITY_TERRITORY_TOLERANCE :: real where
  "CITY_TERRITORY_TOLERANCE = 15 / 100"

text \<open>\<^verbatim>\<open>countCitiesInPolity(polity, cities, year)\<close> (js/utils.js, lines 438-449).\<close>

fun countCitiesInPolity :: "polity \<Rightarrow> city list \<Rightarrow> int \<Rightarrow> nat \<Rightarrow> js_error + nat" where
  "countCitiesInPolity p [] yr n = Inr n"
| "countCitiesInPolity p (c # cs) yr n =
     (case getPopulationForYear c yr of
        Inl e \<Rightarrow> Inl e
      | Inr None \<Rightarrow> countCitiesInPolity p cs yr n
      | Inr (Some popData) \<Rightarrow>
          (case pointInGeometry (fst (coordinates c)) (snd (coordinates c)) (geometry p)
                  CITY_TERRITORY_TOLERANCE of
             Inl e \<Rightarrow> Inl e
           | Inr True \<Rightarrow> countCitiesInPolity p cs yr (n + 1)
           | Inr False \<Rightarrow> countCitiesInPolity p cs yr n))"

section \<open>Location history\<close>

text \<open>An entry of the history: \<^verbatim>\<open>{name, fromYear, toYear, area, polity}\<close>. The display
  name and the colour are functions of the fragment's properties; they take no part in the
  collection, the sort or the merge, and are left out.\<close>

record historyEntry =
  hName :: string
  hFromYear :: int
  hToYear :: int
  hArea :: "real option"
  hPolity :: polity

definition entryOf :: "polity \<Rightarrow> historyEntry" where
  "entryOf p = \<lparr>hName = Name p, hFromYear = FromYear p, hToYear = ToYear p,
                hArea = Area p, hPolity = p\<rparr>"

text \<open>The collecting loop of \<^verbatim>\<open>getLocationHistory\<close> (js/utils.js, lines 1166-1188).
  The key \<^verbatim>\<open>Name_FromYear_ToYear\<close> of the set \<^verbatim>\<open>seen\<close> determines the three values
  (the two numbers hold no underscore), so it is the triple. The test on the name is
  \<^verbatim>\<open>startsWith('(')\<close> alone.\<close>

fun collectHistory :: "real \<Rightarrow> real \<Rightarrow> polity list \<Rightarrow> (string \<times> int \<times> int) list
    \<Rightarrow> historyEntry list \<Rightarrow> js_error + historyEntry list" where
  "collectHistory lon lat [] seen history = Inr history"
| "collectHistory lon lat (p # ps) seen history =
     (if startsWith (Name p) CHR ''('' then collectHistory lon lat ps seen history
      else
        (case pointInGeometry lon lat (geometry p) 0 of
           Inl e \<Rightarrow> Inl e
         | Inr False \<Rightarrow> collectHistory lon lat ps seen history
         | Inr True \<Rightarrow>
             (let key = (Name p, FromYear p, ToYear p)
              in if key \<in> set seen then collectHistory lon lat ps seen history
                 else collectHistory lon lat ps (key # seen) (history @ [entryOf p]))))"

text \<open>One iteration of the merging loop (js/utils.js, lines 1196-1205).\<close>

definition mergeStep :: "historyEntry \<Rightarrow> historyEntry list \<Rightarrow> historyEntry list" where
  "mergeStep entry merged =
     (case rev merged of
        [] \<Rightarrow> merged @ [entry]
      | l # _ \<Rightarrow>
          if hName l = hName entry \<and> hFromYear entry \<le> hToYear l + 5
          then butlast merged @ [l\<lparr>hToYear := max (hToYear l) (hToYear entry)\<rparr>]
          else merged @ [entry])"

text \<open>\<^verbatim>\<open>getLocationHistory(lon, lat)\<close> (js/utils.js, lines 1157-1208), with
  \<^verbatim>\<open>state.allPolities\<close> as an argument. \<^verbatim>\<open>Array.prototype.sort\<close> is stable, as
  \<open>sort_key\<close> is.\<close>

definition getLocationHistory :: "real \<Rightarrow> real \<Rightarrow> polity list \<Rightarrow> js_error + historyEntry list" where
  "getLocationHistory lon lat allPolities =
     (let sortedPolities = sort_key FromYear allPolities
      in case collectHistory lon lat sortedPolities [] [] of
           Inl e \<Rightarrow> Inl e
         | Inr history \<Rightarrow> Inr (fold mergeStep (sort_key hFromYear history) []))"

text \<open>The fragments that the collecting loop of \<^verbatim>\<open>getLocationHistory\<close> keeps: the
  name does not start with a parenthesis and the geometry contains the point.\<close>

definition inHistory :: "real \<Rightarrow> real \<Rightarrow> polity \<Rightarrow> bool" where
  "inHistory lon lat f =
     (\<not> startsWith (Name f) CHR ''('' \<and> pointInGeometry lon lat (geometry f) 0 = Inr True)"

text \<open>What a city contributes to the totals of a year: the \<^verbatim>\<open>pop\<close> of a result that is
  not \<^verbatim>\<open>null\<close>; and the test of \<^verbatim>\<open>countCitiesInPolity\<close> on a city's position.\<close>

definition resolvedPop :: "city \<Rightarrow> int \<Rightarrow> int option" where
  "resolvedPop c yr =
     (case getPopulationForYear c yr of Inr (Some popData) \<Rightarrow> Some (pop popData) | _ \<Rightarrow> None)"

definition withinTolerance :: "polity \<Rightarrow> city \<Rightarrow> bool" where
  "withinTolerance p c =
     (pointInGeometry (fst (coordinates c)) (snd (coordinates c)) (geometry p)
        CITY_TERRITORY_TOLERANCE = Inr True)"

section \<open>Example data\<close>

text \<open>A small dataset: two fragments of one polity and its composite wrapper.\<close>

definition ex_dataset :: "polity list" where
  "ex_dataset =
     [\<lparr>Name = ''Rome'', FromYear = - 27, ToYear = 395, Area = Some 5000000, geometry = None\<rparr>,
      \<lparr>Name = ''Rome'', FromYear = - 509, ToYear = - 28, Area = Some 1000000, geometry = None\<rparr>,
      \<lparr>Name = ''(Rome)'', FromYear = - 753, ToYear = 476, Area = Some 5000000, geometry = None\<rparr>]"

text \<open>Scenario A of the specification: one region, valid from 500 BCE to 100 CE.\<close>

definition ex_scenarioA :: polity where
  "ex_scenarioA =
     \<lparr>Name = ''Empire A'', FromYear = - 500, ToYear = 100, Area = Some 2000000, geometry = None\<rparr>"

text \<open>Scenario B of the specification: a city attested in 100 BCE and in 200 CE.\<close>

definition ex_city :: city where
  "ex_city = \<lparr>cityName = ''Scenario B'', coordinates = (0, 0),
              populations = Some [(- 100, 5000), (200, 20000)], minYear = - 100\<rparr>"

text \<open>A square of side 10 with its closing vertex.\<close>

definition ex_square :: geometry where
  "ex_square = Polygon [[(0, 0), (10, 0), (10, 10), (0, 10), (0, 0)]]"


text \<open>A triangle whose vertices are the doubles nearest to \<open>(3.9, 3.6)\<close>,
  \<open>(0.2, 0.5)\<close> and \<open>(0.8, 1.3)\<close>, and the double just below the one nearest to
  \<open>0.2\<close>, which JavaScript prints as \<^verbatim>\<open>0.19999999999999998\<close>.\<close>

definition ex_apex :: point where
  "ex_apex = (8782019273372467 / 2251799813685248, 8106479329266893 / 2251799813685248)"

definition ex_west :: point where
  "ex_west = (3602879701896397 / 18014398509481984, 1 / 2)"

definition ex_mid :: point where
  "ex_mid = (3602879701896397 / 4503599627370496, 5854679515581645 / 4503599627370496)"

definition ex_triangle :: ring where
  "ex_triangle = [ex_apex, ex_west, ex_mid]"

definition ex_left_of_triangle :: real where
  "ex_left_of_triangle = 7205759403792793 / 36028797018963968"

text \<open>Scenario D of the specification: two fragments of Kingdom X three years apart, and
  a third one six years after the first; with them a polity before and a polity after
  them on the same ground, a composite wrapper without geometry and a polity elsewhere.\<close>

definition ex_kingdom_early :: polity where
  "ex_kingdom_early = \<lparr>Name = ''Kingdom X'', FromYear = 100, ToYear = 150,
                         Area = Some 1000, geometry = Some ex_square\<rparr>"

definition ex_kingdom_late :: polity where
  "ex_kingdom_late = \<lparr>Name = ''Kingdom X'', FromYear = 153, ToYear = 200,
                        Area = Some 1200, geometry = Some ex_square\<rparr>"

definition ex_kingdom_restored :: polity where
  "ex_kingdom_restored = \<lparr>Name = ''Kingdom X'', FromYear = 156, ToYear = 200,
                            Area = Some 1200, geometry = Some ex_square\<rparr>"

definition ex_tribe :: polity where
  "ex_tribe = \<lparr>Name = ''Tribe'', FromYear = 50, ToYear = 99,
                 Area = Some 400, geometry = Some ex_square\<rparr>"

definition ex_republic :: polity where
  "ex_republic = \<lparr>Name = ''Republic'', FromYear = 300, ToYear = 400,
                    Area = Some 1500, geometry = Some ex_square\<rparr>"

definition ex_wrapper :: polity where
  "ex_wrapper = \<lparr>Name = ''(Kingdom X)'', FromYear = 100, ToYear = 200,
                   Area = Some 1200, geometry = None\<rparr>"

definition ex_elsewhere :: polity where
  "ex_elsewhere = \<lparr>Name = ''Elsewhere'', FromYear = 120, ToYear = 160, Area = None,
       geometry = Some (Polygon [[(20, 20), (30, 20), (30, 30), (20, 20)]])\<rparr>"

text \<open>Three fragments of one name that hold the same point: a long one, one within its
  years, and one that starts three years after the long one ends.\<close>

definition ex_dynasty_long :: polity where
  "ex_dynasty_long = \<lparr>Name = ''Dynasty K'', FromYear = 100, ToYear = 200,
                        Area = Some 900, geometry = Some ex_square\<rparr>"

definition ex_dynasty_inner :: polity where
  "ex_dynasty_inner = \<lparr>Name = ''Dynasty K'', FromYear = 120, ToYear = 150,
                         Area = Some 600, geometry = Some ex_square\<rparr>"

definition ex_dynasty_after :: polity where
  "ex_dynasty_after = \<lparr>Name = ''Dynasty K'', FromYear = 203, ToYear = 250,
                         Area = Some 950, geometry = Some ex_square\<rparr>"

text \<open>Three city features inside the square: one that reaches 150000, one that stays
  below 100000 and one without a \<^verbatim>\<open>populations\<close> object.\<close>

definition ex_metropolis :: city where
  "ex_metropolis = \<lparr>cityName = ''Metropolis'', coordinates = (5, 5),
       populations = Some [(1900, 50000), (2000, 150000)], minYear = 1900\<rparr>"

definition ex_town :: city where
  "ex_town = \<lparr>cityName = ''Town'', coordinates = (2, 3),
       populations = Some [(1900, 20000), (2000, 90000)], minYear = 1900\<rparr>"

definition ex_unrecorded :: city where
  "ex_unrecorded = \<lparr>cityName = ''Unrecorded'', coordinates = (7, 7),
       populations = None, minYear = 1900\<rparr>"

text \<open>A city whose \<^verbatim>\<open>minYear\<close> lies before its first sample.\<close>

definition ex_outpost :: city where
  "ex_outpost = \<lparr>cityName = ''Outpost'', coordinates = (1, 1),
       populations = Some [(800, 900), (500, 3000)], minYear = 300\<rparr>"

text \<open>Two polities valid from year 0 to 200, one of them called
  \<^verbatim>\<open>constructor\<close>, a name that every object inherits.\<close>

definition ex_constructor :: polity where
  "ex_constructor = \<lparr>Name = ''constructor'', FromYear = 0, ToYear = 200,
                      Area = Some 700, geometry = None\<rparr>"

definition ex_gaul :: polity where
  "ex_gaul = \<lparr>Name = ''Gaul'', FromYear = 0, ToYear = 200, Area = Some 300, geometry = None\<rparr>"

text \<open>Three regions valid from year 0 to 200 whose areas are the doubles nearest to
  \<open>0.1\<close>, \<open>0.2\<close> and \<open>0.3\<close>.\<close>

definition ex_north :: polity where
  "ex_north = \<lparr>Name = ''North'', FromYear = 0, ToYear = 200,
                 Area = Some (3602879701896397 / 36028797018963968), geometry = None\<rparr>"

definition ex_centre :: polity where
  "ex_centre = \<lparr>Name = ''Centre'', FromYear = 0, ToYear = 200,
                  Area = Some (3602879701896397 / 18014398509481984), geometry = None\<rparr>"

definition ex_south :: polity where
  "ex_south = \<lparr>Name = ''South'', FromYear = 0, ToYear = 200,
                 Area = Some (5404319552844595 / 18014398509481984), geometry = None\<rparr>"

text \<open>A dataset with three fragments visible in year 100, two of them of one name, a
  composite wrapper, and a polity of a later time.\<close>

definition ex_world :: "polity list" where
  "ex_world =
     [\<lparr>Name = ''Rome'', FromYear = - 27, ToYear = 395, Area = Some 5000000, geometry = None\<rparr>,
      \<lparr>Name = ''Rome'', FromYear = 50, ToYear = 150, Area = Some 300000, geometry = None\<rparr>,
      \<lparr>Name = ''Parthia'', FromYear = - 247, ToYear = 224, Area = Some 2800000, geometry = None\<rparr>,
      \<lparr>Name = ''(Rome)'', FromYear = - 753, ToYear = 476, Area = Some 5300000, geometry = None\<rparr>,
      \<lparr>Name = ''Tang'', FromYear = 618, ToYear = 907, Area = Some 5400000, geometry = None\<rparr>]"

section \<open>Theorems\<close>

subsection \<open>Rounding to a double\<close>

text \<open>How \<open>toDouble\<close> is evaluated: \<open>k\<close> is the binary exponent of the number, \<open>e\<close> the
  exponent of its last bit, \<open>q\<close> the number in units of the last bit and \<open>m\<close> the
  rounded significand.\<close>

lemma toDouble_eval:
  assumes lo: "2 powi k \<le> \<bar>x\<bar>" and hi: "\<bar>x\<bar> < 2 powi (k + 1)"
    and e: "e = max (- 1074) (k - 52)"
    and q: "x / 2 powi e = q"
    and m: "roundHalfEven q = m"
    and fin: "\<bar>of_int m * 2 powi e\<bar> < (2 :: real) ^ 1024"
  shows "toDouble x = Num (of_int m * 2 powi e)"
proof -
  have pos: "0 < \<bar>x\<bar>"
  proof -
    have "(0 :: real) < 2 powi k" by simp
    with lo show ?thesis by linarith
  qed
  then have nz: "x \<noteq> 0" by simp
  have a: "(2::real) powr real_of_int k = 2 powi k"
    by (rule powr_real_of_int') simp_all
  have b: "(2::real) powr real_of_int (k + 1) = 2 powi (k + 1)"
    by (rule powr_real_of_int') simp_all
  have "(\<lfloor>log 2 \<bar>x\<bar>\<rfloor> = k)
          = (2 powr real_of_int k \<le> \<bar>x\<bar> \<and> \<bar>x\<bar> < 2 powr real_of_int (k + 1))"
    by (rule floor_log_eq_powr_iff) (use pos in simp_all)
  then have "\<lfloor>log 2 \<bar>x\<bar>\<rfloor> = k" using lo hi by (simp only: a b)
  with e have "max (- 1074) (\<lfloor>log 2 \<bar>x\<bar>\<rfloor> - 52) = e" by simp
  with nz q m fin show ?thesis
    by (simp add: toDouble_def Let_def abs_less_iff)
qed

lemma toDouble_0: "toDouble 0 = Num 0"
  by (simp add: toDouble_def)

lemma powi_neg: "(2::real) powi (- int n) = 1 / 2 ^ n"
  by (simp add: power_int_def field_simps)

lemma p_m56: "(2::real) powi (- 56) = 1 / 72057594037927936"
  using powi_neg[of 56] by simp

lemma p_m55: "(2::real) powi (- 55) = 1 / 36028797018963968"
  using powi_neg[of 55] by simp

lemma p_m54: "(2::real) powi (- 54) = 1 / 18014398509481984"
  using powi_neg[of 54] by simp

lemma p_m53: "(2::real) powi (- 53) = 1 / 9007199254740992"
  using powi_neg[of 53] by simp

lemma p_m52: "(2::real) powi (- 52) = 1 / 4503599627370496"
  using powi_neg[of 52] by simp

lemma p_m51: "(2::real) powi (- 51) = 1 / 2251799813685248"
  using powi_neg[of 51] by simp



lemma p_m4: "(2::real) powi (- 4) = 1 / 16"
  using powi_neg[of 4] by simp

lemma p_m3: "(2::real) powi (- 3) = 1 / 8"
  using powi_neg[of 3] by simp

lemma p_m2: "(2::real) powi (- 2) = 1 / 4"
  using powi_neg[of 2] by simp

lemma p_m1: "(2::real) powi (- 1) = 1 / 2"
  using powi_neg[of 1] by simp

lemma p_0: "(2::real) powi 0 = 1"
  by (simp add: power_int_def)

lemma p_1: "(2::real) powi 1 = 2"
  by (simp add: power_int_def)

lemma p_2: "(2::real) powi 2 = 4"
  by (simp add: power_int_def)



text \<open>An integer of magnitude at most \<open>2\<^sup>5\<^sup>3\<close> is a double, so an operation
  whose exact result is such an integer is not rounded.\<close>

lemma roundHalfEven_of_int: "roundHalfEven (of_int z) = z"
  by (simp add: roundHalfEven_def)

lemma toDouble_safe_integer:
  assumes "\<bar>n\<bar> \<le> 2 ^ 53"
  shows "toDouble (of_int n) = Num (of_int n)"
proof (cases "n = 0")
  case True then show ?thesis by (simp add: toDouble_0)
next
  case False
  define k where "k = \<lfloor>log 2 \<bar>real_of_int n\<bar>\<rfloor>"
  have pos: "0 < \<bar>real_of_int n\<bar>" using False by simp
  have one: "1 \<le> \<bar>real_of_int n\<bar>" using False by (simp flip: of_int_abs)
  have a: "(2::real) powr real_of_int k = 2 powi k"
    by (rule powr_real_of_int') simp_all
  have b: "(2::real) powr real_of_int (k + 1) = 2 powi (k + 1)"
    by (rule powr_real_of_int') simp_all
  have "(\<lfloor>log 2 \<bar>real_of_int n\<bar>\<rfloor> = k)
          = (2 powr real_of_int k \<le> \<bar>real_of_int n\<bar> \<and> \<bar>real_of_int n\<bar> < 2 powr real_of_int (k + 1))"
    by (rule floor_log_eq_powr_iff) (use pos in simp_all)
  then have lo: "2 powi k \<le> \<bar>real_of_int n\<bar>" and hi: "\<bar>real_of_int n\<bar> < 2 powi (k + 1)"
    unfolding a b by (simp_all add: k_def)
  have k0: "0 \<le> k" unfolding k_def using one by simp
  have bound: "\<bar>real_of_int n\<bar> \<le> 2 ^ 53"
    using assms by (metis of_int_abs of_int_le_iff of_int_numeral of_int_power)
  have k53: "k \<le> 53"
  proof (rule ccontr)
    assume "\<not> k \<le> 53"
    then have "54 \<le> k" by simp
    then have "(2::real) powi 54 \<le> 2 powi k" by (intro power_int_increasing) simp_all
    with lo bound show False by (simp add: power_int_def)
  qed
  have fin: "\<bar>real_of_int n\<bar> < 2 ^ 1024"
  proof -
    have "(2::real) ^ 53 < 2 ^ 1024" by simp
    with bound show ?thesis by linarith
  qed
  show ?thesis
  proof (cases "k \<le> 52")
    case True
    define j where "j = nat (52 - k)"
    have e: "k - 52 = - int j" using True by (simp add: j_def)
    have p: "(2::real) powi (k - 52) = 1 / 2 ^ j" unfolding e by (simp add: power_int_def field_simps)
    have "toDouble (of_int n) = Num (of_int (n * 2 ^ j) * 2 powi (k - 52))"
    proof (rule toDouble_eval[where k = k and q = "of_int (n * 2 ^ j)"])
      show "2 powi k \<le> \<bar>real_of_int n\<bar>" by (rule lo)
      show "\<bar>real_of_int n\<bar> < 2 powi (k + 1)" by (rule hi)
      show "k - 52 = max (- 1074) (k - 52)" using k0 by simp
      show "real_of_int n / 2 powi (k - 52) = real_of_int (n * 2 ^ j)" by (simp add: p)
      show "roundHalfEven (real_of_int (n * 2 ^ j)) = n * 2 ^ j" by (rule roundHalfEven_of_int)
      show "\<bar>real_of_int (n * 2 ^ j) * 2 powi (k - 52)\<bar> < 2 ^ 1024" using fin by (simp add: p)
    qed
    then show ?thesis by (simp add: p)
  next
    case False
    with k53 have k: "k = 53" by simp
    from lo have "2 ^ 53 \<le> \<bar>real_of_int n\<bar>" by (simp add: k power_int_def)
    with bound have eq: "\<bar>real_of_int n\<bar> = 2 ^ 53" by simp
    then have "\<bar>n\<bar> = 2 ^ 53"
      by (metis of_int_abs of_int_eq_iff of_int_numeral of_int_power)
    then have n: "n = 2 ^ 53 \<or> n = - (2 ^ 53)" by (auto simp: abs_if split: if_splits)
    have "toDouble (of_int n) = Num (of_int (n div 2) * 2 powi 1)"
    proof (rule toDouble_eval[where k = 53 and q = "of_int (n div 2)"])
      show "2 powi 53 \<le> \<bar>real_of_int n\<bar>" using lo by (simp add: k)
      show "\<bar>real_of_int n\<bar> < 2 powi (53 + 1)" using hi by (simp add: k)
      show "(1::int) = max (- 1074) (53 - 52)" by simp
      show "real_of_int n / 2 powi 1 = real_of_int (n div 2)" using n by (auto simp: power_int_def)
      show "roundHalfEven (real_of_int (n div 2)) = n div 2" by (rule roundHalfEven_of_int)
      show "\<bar>real_of_int (n div 2) * 2 powi 1\<bar> < 2 ^ 1024" using n by (auto simp: power_int_def)
    qed
    then show ?thesis using n by (auto simp: power_int_def)
  qed
qed

lemma fadd_exact_on_integers:
  assumes "\<bar>a + b\<bar> \<le> 2 ^ 53"
  shows "fadd (Num (of_int a)) (of_int b) = Num (of_int a + of_int b)"
  using toDouble_safe_integer[OF assms] by simp

lemma toDouble_exact:
  assumes "a \<in> \<int>" and "\<bar>a\<bar> \<le> 2 ^ 53"
  shows "toDouble a = Num a"
proof -
  from assms(1) obtain z where z: "a = of_int z" by (rule Ints_cases)
  with assms(2) have "real_of_int \<bar>z\<bar> \<le> real_of_int (2 ^ 53)" by simp
  then have "\<bar>z\<bar> \<le> 2 ^ 53" by (simp only: of_int_le_iff)
  from toDouble_safe_integer[OF this] z show ?thesis by simp
qed

subsection \<open>Founding years\<close>

lemma fold_foundingStep_Some:
  "fy n = Some z \<Longrightarrow> \<exists>y. fold foundingStep ps fy n = Some y \<and> y \<le> z"
proof (induction ps arbitrary: fy z)
  case Nil then show ?case by simp
next
  case (Cons p ps)
  show ?case
  proof (cases "foundingStep p fy n")
    case None
    with Cons.prems show ?thesis by (auto simp: foundingStep_def split: option.splits if_splits)
  next
    case (Some w)
    with Cons.prems have "w \<le> z" by (auto simp: foundingStep_def split: option.splits if_splits)
    moreover from Cons.IH[of "foundingStep p fy" w] Some
    obtain y where "fold foundingStep ps (foundingStep p fy) n = Some y" "y \<le> w" by blast
    ultimately show ?thesis by auto
  qed
qed

lemma fold_foundingStep_lower:
  "fold foundingStep ps fy n = Some y \<Longrightarrow> q \<in> set ps \<Longrightarrow> Name q = n
     \<Longrightarrow> \<not> isParenthetical n \<Longrightarrow> \<not> inheritedName n \<Longrightarrow> y \<le> FromYear q"
proof (induction ps arbitrary: fy)
  case Nil then show ?case by simp
next
  case (Cons p ps)
  show ?case
  proof (cases "q = p")
    case True
    with Cons.prems obtain w where w: "foundingStep p fy n = Some w" "w \<le> FromYear q"
      by (auto simp: foundingStep_def split: option.splits if_splits)
    from fold_foundingStep_Some[of "foundingStep p fy" n w ps] w(1) Cons.prems(1) have "y \<le> w" by auto
    with w show ?thesis by simp
  next
    case False
    with Cons.prems have "q \<in> set ps" by simp
    with Cons.IH[of "foundingStep p fy"] Cons.prems show ?thesis by simp
  qed
qed

lemma fold_foundingStep_attained:
  "fold foundingStep ps fy n = Some y \<Longrightarrow> fy n = Some y \<or> (\<exists>q\<in>set ps. Name q = n \<and> FromYear q = y)"
proof (induction ps arbitrary: fy)
  case Nil then show ?case by simp
next
  case (Cons p ps)
  from Cons.IH[OF Cons.prems[simplified]]
  show ?case by (auto simp: foundingStep_def split: option.splits if_splits)
qed

lemma fold_foundingStep_defined:
  "q \<in> set ps \<Longrightarrow> \<not> isParenthetical (Name q) \<Longrightarrow> \<not> inheritedName (Name q)
     \<Longrightarrow> \<exists>y. fold foundingStep ps fy (Name q) = Some y"
proof (induction ps arbitrary: fy)
  case Nil then show ?case by simp
next
  case (Cons p ps)
  show ?case
  proof (cases "q = p")
    case True
    with Cons.prems have "\<exists>w. foundingStep p fy (Name q) = Some w"
      by (cases "fy (Name p)") (simp_all add: foundingStep_def)
    then obtain w where "foundingStep p fy (Name q) = Some w" ..
    with fold_foundingStep_Some[of "foundingStep p fy" "Name q" w ps] show ?thesis by auto
  next
    case False
    with Cons.prems Cons.IH[of "foundingStep p fy"] show ?thesis by simp
  qed
qed

lemma fold_foundingStep_inherited:
  "inheritedName n \<Longrightarrow> fy n = None \<Longrightarrow> fold foundingStep ps fy n = None"
proof (induction ps arbitrary: fy)
  case Nil then show ?case by simp
next
  case (Cons p ps)
  from Cons.prems have "foundingStep p fy n = None"
    by (auto simp: foundingStep_def split: option.splits)
  from Cons.IH[of "foundingStep p fy", OF Cons.prems(1) this] show ?case by simp
qed

text \<open>
  Claim C7, as first stated, at a name that objects inherit. A dataset whose only polity
  is called \<^verbatim>\<open>constructor\<close>, valid from year 0: the name is not a parenthesised
  wrapper and the minimum \<^verbatim>\<open>FromYear\<close> of its fragments is 0, but
  \<^verbatim>\<open>'constructor' in state.polityFoundingYears\<close> holds from the start, the
  comparison with the inherited function fails, and no founding year is ever stored.
\<close>

theorem inherited_name_has_no_founding_year:
  "ex_constructor \<in> set [ex_constructor, ex_gaul]
   \<and> \<not> isParenthetical (Name ex_constructor)
   \<and> Min (FromYear ` {q \<in> set [ex_constructor, ex_gaul]. Name q = Name ex_constructor}) = 0
   \<and> polityFoundingYears [ex_constructor, ex_gaul] (Name ex_constructor) = None
   \<and> polityFoundingYears [ex_constructor, ex_gaul] (Name ex_gaul) = Some 0"
proof -
  have s: "{q \<in> set [ex_constructor, ex_gaul]. Name q = Name ex_constructor} = {ex_constructor}"
    by (auto simp: ex_constructor_def ex_gaul_def)
  have "Min (FromYear ` {q \<in> set [ex_constructor, ex_gaul]. Name q = Name ex_constructor}) = 0"
    unfolding s by (simp add: ex_constructor_def)
  moreover have "\<not> isParenthetical (Name ex_constructor)"
    by (simp add: ex_constructor_def isParenthetical_def startsWith_def)
  moreover have "polityFoundingYears [ex_constructor, ex_gaul] (Name ex_constructor) = None"
    by (simp add: polityFoundingYears_def foundingStep_def ex_constructor_def ex_gaul_def
        isParenthetical_def startsWith_def inheritedName_def objectPrototypeNames_def)
  moreover have "polityFoundingYears [ex_constructor, ex_gaul] (Name ex_gaul) = Some 0"
    by (simp add: polityFoundingYears_def foundingStep_def ex_constructor_def ex_gaul_def
        isParenthetical_def startsWith_def inheritedName_def objectPrototypeNames_def)
  ultimately show ?thesis by simp
qed

text \<open>
  Claim C7, amended. For every polity name of the dataset that is neither a parenthesised
  composite wrapper nor a property name inherited from \<^verbatim>\<open>Object.prototype\<close>, the
  founding year cached in \<^verbatim>\<open>state.polityFoundingYears\<close> is the minimum
  \<^verbatim>\<open>FromYear\<close> over all fragments of that name, and so it is less than or equal to
  the \<^verbatim>\<open>FromYear\<close> of each of them.
\<close>

theorem polityFoundingYears_is_minimum_for_own_names:
  assumes "p \<in> set allPolities" and "\<not> isParenthetical (Name p)"
    and "\<not> inheritedName (Name p)"
  shows "polityFoundingYears allPolities (Name p)
           = Some (Min (FromYear ` {q \<in> set allPolities. Name q = Name p}))
       \<and> (\<forall>q \<in> set allPolities. Name q = Name p \<longrightarrow>
             the (polityFoundingYears allPolities (Name p)) \<le> FromYear q)"
proof -
  let ?S = "FromYear ` {q \<in> set allPolities. Name q = Name p}"
  from fold_foundingStep_defined[OF assms, of Map.empty]
  obtain y where y: "polityFoundingYears allPolities (Name p) = Some y"
    by (auto simp: polityFoundingYears_def)
  have lower: "\<And>q. q \<in> set allPolities \<Longrightarrow> Name q = Name p \<Longrightarrow> y \<le> FromYear q"
    using fold_foundingStep_lower[OF y[unfolded polityFoundingYears_def] _ _ assms(2) assms(3)]
    by blast
  from fold_foundingStep_attained[OF y[unfolded polityFoundingYears_def]]
  have mem: "y \<in> ?S" by auto
  have fin: "finite ?S" by simp
  have "Min ?S = y"
    by (rule Min_eqI[OF fin]) (use lower mem in auto)
  with y lower show ?thesis by auto
qed

theorem polityFoundingYears_is_minimum_for_own_names_witness:
  "hd ex_dataset \<in> set ex_dataset
   \<and> \<not> isParenthetical (Name (hd ex_dataset))
   \<and> \<not> inheritedName (Name (hd ex_dataset))
   \<and> polityFoundingYears ex_dataset (Name (hd ex_dataset)) = Some (- 509)
   \<and> Min (FromYear ` {q \<in> set ex_dataset. Name q = Name (hd ex_dataset)}) = - 509"
proof -
  have h1: "hd ex_dataset \<in> set ex_dataset" by (simp add: ex_dataset_def)
  have h2: "\<not> isParenthetical (Name (hd ex_dataset))"
    by (simp add: ex_dataset_def isParenthetical_def startsWith_def)
  have h3: "\<not> inheritedName (Name (hd ex_dataset))"
    by (simp add: ex_dataset_def inheritedName_def objectPrototypeNames_def)
  have v: "polityFoundingYears ex_dataset (Name (hd ex_dataset)) = Some (- 509)"
    by (simp add: ex_dataset_def polityFoundingYears_def foundingStep_def
        isParenthetical_def startsWith_def endsWith_def inheritedName_def
        objectPrototypeNames_def)
  from polityFoundingYears_is_minimum_for_own_names[OF h1 h2 h3] v h1 h2 h3
  show ?thesis by simp
qed

subsection \<open>Aggregate metrics\<close>

lemma getWorldStatsForYear_empty: "getWorldStatsForYear [] yr = None"
  by (simp add: getWorldStatsForYear_def)

lemma fold_area_sum:
  "fold (\<lambda>(_, c) s. s + area c) cd a = a + sum_list (map (\<lambda>(_, c). area c) cd)"
  by (induction cd arbitrary: a) (auto split: prod.splits)

lemma bump_absent:
  "k \<notin> fst ` set cd \<Longrightarrow>
   map (\<lambda>(k', c). if k' = k then (k', f c) else (k', c)) cd = cd"
  by (induction cd) auto

lemma bump_keys:
  "map fst (map (\<lambda>(k', c). if k' = k then (k', f c) else (k', c)) cd) = map fst cd"
  by (induction cd) auto

lemma bump_area:
  "distinct (map fst cd) \<Longrightarrow> map_of cd k = Some c0 \<Longrightarrow>
   sum_list (map (\<lambda>(_, c). area c)
      (map (\<lambda>(k', c). if k' = k then (k', c\<lparr>area := area c + a, fromYear := g c\<rparr>) else (k', c)) cd))
   = sum_list (map (\<lambda>(_, c). area c) cd) + a"
proof (induction cd)
  case Nil then show ?case by simp
next
  case (Cons x cd)
  obtain k' c' where x: "x = (k', c')" by (cases x)
  show ?case
  proof (cases "k' = k")
    case True
    with Cons.prems x have "k \<notin> fst ` set cd" by auto
    from bump_absent[OF this] True x show ?thesis by simp
  next
    case False
    with Cons x show ?thesis by simp
  qed
qed

text \<open>For a name that is not inherited, the step is the one on own entries alone.\<close>

lemma civDataStep_own:
  "\<not> inheritedName (Name p) \<Longrightarrow>
   civDataStep p cd =
     map (\<lambda>(k, c). if k = Name p
                      then (k, c\<lparr>area := area c + areaOr0 p,
                                 fromYear := min (fromYear c) (FromYear p)\<rparr>)
                      else (k, c))
       (if map_of cd (Name p) = None
        then cd @ [(Name p, \<lparr>area = 0, fromYear = FromYear p\<rparr>)] else cd)"
  by (simp add: civDataStep_def Let_def)

lemma civDataStep_inherited:
  "inheritedName (Name p) \<Longrightarrow> map_of cd (Name p) = None \<Longrightarrow> civDataStep p cd = cd"
  by (simp add: civDataStep_def Let_def)

lemma civDataStep_keys:
  "\<not> inheritedName (Name p) \<Longrightarrow>
   map fst (civDataStep p cd) =
     (if Name p \<in> fst ` set cd then map fst cd else map fst cd @ [Name p])"
  by (auto simp: civDataStep_own bump_keys map_of_eq_None_iff)

lemma civDataStep_distinct:
  "\<not> inheritedName (Name p) \<Longrightarrow> distinct (map fst cd)
     \<Longrightarrow> distinct (map fst (civDataStep p cd))"
  by (simp add: civDataStep_keys)

lemma civDataStep_area:
  assumes own: "\<not> inheritedName (Name p)" and "distinct (map fst cd)"
  shows "sum_list (map (\<lambda>(_, c). area c) (civDataStep p cd))
         = sum_list (map (\<lambda>(_, c). area c) cd) + areaOr0 p"
proof (cases "map_of cd (Name p)")
  case None
  let ?cd1 = "cd @ [(Name p, \<lparr>area = 0, fromYear = FromYear p\<rparr>)]"
  from None have "Name p \<notin> fst ` set cd" by (simp add: map_of_eq_None_iff)
  with assms have d: "distinct (map fst ?cd1)" by simp
  from None have m: "map_of ?cd1 (Name p) = Some \<lparr>area = 0, fromYear = FromYear p\<rparr>"
    by (simp add: map_add_def)
  from bump_area[OF d m, where a="areaOr0 p" and g="\<lambda>c. min (fromYear c) (FromYear p)"] None
  show ?thesis by (simp add: civDataStep_own[OF own])
next
  case (Some c0)
  from bump_area[OF assms(2) Some, where a="areaOr0 p" and g="\<lambda>c. min (fromYear c) (FromYear p)"] Some
  show ?thesis by (simp add: civDataStep_own[OF own])
qed

lemma fold_civDataStep:
  "\<forall>p \<in> set ps. \<not> inheritedName (Name p) \<Longrightarrow> distinct (map fst cd) \<Longrightarrow>
     distinct (map fst (fold civDataStep ps cd))
   \<and> sum_list (map (\<lambda>(_, c). area c) (fold civDataStep ps cd))
       = sum_list (map (\<lambda>(_, c). area c) cd) + sum_list (map areaOr0 ps)"
proof (induction ps arbitrary: cd)
  case Nil then show ?case by simp
next
  case (Cons p ps)
  from Cons.prems have own: "\<not> inheritedName (Name p)"
    and rest: "\<forall>p \<in> set ps. \<not> inheritedName (Name p)" by simp_all
  from Cons.IH[OF rest civDataStep_distinct[OF own Cons.prems(2)]]
  show ?case by (simp add: civDataStep_area[OF own Cons.prems(2)])
qed

lemma civDataStep_key_set:
  "\<not> inheritedName (Name p) \<Longrightarrow>
   set (map fst (civDataStep p cd)) = insert (Name p) (set (map fst cd))"
  by (auto simp: civDataStep_keys)

lemma fold_civDataStep_keys:
  "\<forall>p \<in> set ps. \<not> inheritedName (Name p) \<Longrightarrow>
   set (map fst (fold civDataStep ps cd)) = set (map fst cd) \<union> Name ` set ps"
proof (induction ps arbitrary: cd)
  case Nil then show ?case by simp
next
  case (Cons p ps)
  from Cons.prems have own: "\<not> inheritedName (Name p)"
    and rest: "\<forall>p \<in> set ps. \<not> inheritedName (Name p)" by simp_all
  have "set (map fst (fold civDataStep (p # ps) cd))
        = set (map fst (civDataStep p cd)) \<union> Name ` set ps"
    using Cons.IH[OF rest, of "civDataStep p cd"] by simp
  then show ?case by (simp only: civDataStep_key_set[OF own]) auto
qed

lemma getPopulationForYear_returns:
  "populations c = Some pops \<Longrightarrow> \<exists>r. getPopulationForYear c yr = Inr r"
  by (simp add: getPopulationForYear_def Let_def split: option.split prod.split)

lemma cityTotals_ok:
  "(\<And>c. c \<in> set cs \<Longrightarrow> populations c \<noteq> None) \<Longrightarrow> \<exists>r. cityTotals yr cs acc = Inr r"
proof (induction cs arbitrary: acc)
  case Nil then show ?case by simp
next
  case (Cons c cs)
  obtain n u where acc: "acc = (n, u)" by (cases acc)
  from Cons.prems[of c] obtain pops where "populations c = Some pops" by auto
  from getPopulationForYear_returns[OF this]
  obtain r where r: "getPopulationForYear c yr = Inr r" by blast
  from Cons.IH Cons.prems have "\<And>acc'. \<exists>r. cityTotals yr cs acc' = Inr r" by simp
  with r acc show ?case by (cases r) auto
qed

lemma updateMap_visiblePolities_set:
  "set (updateMap_visiblePolities yr allPolities)
     = {f \<in> set allPolities. \<not> isParenthetical (Name f) \<and> FromYear f \<le> yr \<and> yr \<le> ToYear f}"
  by (auto simp: updateMap_visiblePolities_def)

lemma calculateMetricsFast_landArea:
  assumes cities: "\<forall>c \<in> set allCities. populations c \<noteq> None"
    and names: "\<forall>p \<in> set visiblePolities. \<not> inheritedName (Name p)"
  shows "\<exists>m. calculateMetricsFast worldStats allCities yr visiblePolities = Inr m
           \<and> landArea (totals m) = sum_list (map areaOr0 visiblePolities)
           \<and> civilizations (totals m) = card (Name ` set visiblePolities)"
proof -
  from cityTotals_ok[of allCities yr "(0, 0)"] cities
  obtain n u where r: "cityTotals yr allCities (0, 0) = Inr (n, u)" by fastforce
  have d: "distinct (map fst (fold civDataStep visiblePolities []))"
    and s: "sum_list (map (\<lambda>(_, c). area c) (fold civDataStep visiblePolities []))
            = sum_list (map areaOr0 visiblePolities)"
    using fold_civDataStep[OF names, of "[]"] by simp_all
  have "length (fold civDataStep visiblePolities []) = length (map fst (fold civDataStep visiblePolities []))"
    by simp
  also have "\<dots> = card (set (map fst (fold civDataStep visiblePolities [])))"
    using distinct_card[OF d] by simp
  also have "\<dots> = card (Name ` set visiblePolities)"
    by (simp only: fold_civDataStep_keys[OF names]) simp
  finally have l: "length (fold civDataStep visiblePolities []) = card (Name ` set visiblePolities)" .
  show ?thesis
    using r s l by (simp add: calculateMetricsFast_def Let_def fold_area_sum)
qed

lemma map_of_asDoubles_None: "map_of (asDoubles cd) k = None \<longleftrightarrow> map_of cd k = None"
  by (auto simp: asDoubles_def map_of_eq_None_iff image_iff split: prod.splits)

lemma abs_area_le_sum:
  "(k, c) \<in> set cd \<Longrightarrow> \<bar>area c\<bar> \<le> sum_list (map (\<lambda>(_, c). \<bar>area c\<bar>) cd)"
proof (induction cd)
  case Nil then show ?case by simp
next
  case (Cons x cd)
  have nn: "0 \<le> sum_list (map (\<lambda>(_, c). \<bar>area c\<bar>) cd)"
    by (rule sum_list_nonneg) auto
  show ?case
  proof (cases "(k, c) = x")
    case True
    then show ?thesis using nn by auto
  next
    case False
    with Cons.prems have "(k, c) \<in> set cd" by simp
    from Cons.IH[OF this] show ?thesis by (cases x) simp
  qed
qed

lemma bump_abs_area:
  "distinct (map fst cd) \<Longrightarrow>
   sum_list (map (\<lambda>(_, c). \<bar>area c\<bar>)
      (map (\<lambda>(k', c). if k' = k then (k', c\<lparr>area := area c + a, fromYear := g c\<rparr>) else (k', c)) cd))
   \<le> sum_list (map (\<lambda>(_, c). \<bar>area c\<bar>) cd) + \<bar>a\<bar>"
proof (induction cd)
  case Nil then show ?case by simp
next
  case (Cons x cd)
  obtain k' c' where x: "x = (k', c')" by (cases x)
  show ?case
  proof (cases "k' = k")
    case True
    with Cons.prems x have "k \<notin> fst ` set cd" by auto
    from bump_absent[OF this] True x show ?thesis by simp
  next
    case False
    with Cons x show ?thesis by simp
  qed
qed

lemma areaStepD_exact:
  assumes own: "\<not> inheritedName (Name p)"
    and d: "distinct (map fst cd)"
    and ints: "\<forall>(k, c) \<in> set cd. area c \<in> \<int>"
    and x: "areaOr0 p \<in> \<int>"
    and bound: "sum_list (map (\<lambda>(_, c). \<bar>area c\<bar>) cd) + \<bar>areaOr0 p\<bar> \<le> 2 ^ 53"
  shows "areaStepD p (asDoubles cd) = asDoubles (civDataStep p cd)
       \<and> (\<forall>(k, c) \<in> set (civDataStep p cd). area c \<in> \<int>)
       \<and> sum_list (map (\<lambda>(_, c). \<bar>area c\<bar>) (civDataStep p cd))
           \<le> sum_list (map (\<lambda>(_, c). \<bar>area c\<bar>) cd) + \<bar>areaOr0 p\<bar>"
proof -
  define cd1 where "cd1 = (if map_of cd (Name p) = None
                      then cd @ [(Name p, \<lparr>area = 0, fromYear = FromYear p\<rparr>)] else cd)"
  define F :: "string \<times> civ \<Rightarrow> string \<times> civ" where
    "F = (\<lambda>(k, c). if k = Name p
                      then (k, c\<lparr>area := area c + areaOr0 p,
                                 fromYear := min (fromYear c) (FromYear p)\<rparr>)
                      else (k, c))"
  have step: "civDataStep p cd = map F cd1"
    by (simp add: civDataStep_own[OF own] F_def cd1_def)
  have d1: "distinct (map fst cd1)"
    using d by (auto simp: cd1_def map_of_eq_None_iff)
  have ints1: "\<forall>(k, c) \<in> set cd1. area c \<in> \<int>"
    using ints by (auto simp: cd1_def)
  have sum1: "sum_list (map (\<lambda>(_, c). \<bar>area c\<bar>) cd1) = sum_list (map (\<lambda>(_, c). \<bar>area c\<bar>) cd)"
    by (simp add: cd1_def)
  have D1: "(if map_of (asDoubles cd) (Name p) = None
             then asDoubles cd @ [(Name p, Num 0)] else asDoubles cd) = asDoubles cd1"
    by (simp add: map_of_asDoubles_None cd1_def) (simp add: asDoubles_def)
  have each: "toDouble (area c + areaOr0 p) = Num (area c + areaOr0 p)"
    if "(k, c) \<in> set cd1" for k c
  proof -
    from that ints1 have i: "area c \<in> \<int>" by auto
    from abs_area_le_sum[OF that] sum1 bound
    have "\<bar>area c\<bar> + \<bar>areaOr0 p\<bar> \<le> 2 ^ 53" by simp
    then have "\<bar>area c + areaOr0 p\<bar> \<le> 2 ^ 53" by linarith
    from toDouble_exact[OF Ints_add[OF i x] this] show ?thesis .
  qed
  have "areaStepD p (asDoubles cd)
        = map (\<lambda>(k, a). if k = Name p then (k, jsAdd a (Num (areaOr0 p))) else (k, a))
            (asDoubles cd1)"
    using own by (simp add: areaStepD_def Let_def D1)
  also have "\<dots> = asDoubles (map F cd1)"
    unfolding asDoubles_def map_map
    by (rule map_cong[OF refl]) (auto simp: F_def each)
  finally have 1: "areaStepD p (asDoubles cd) = asDoubles (civDataStep p cd)"
    by (simp only: step)
  have 2: "\<forall>(k, c) \<in> set (civDataStep p cd). area c \<in> \<int>"
    unfolding step using ints1 x by (auto simp: F_def split: if_splits)
  have "sum_list (map (\<lambda>(_, c). \<bar>area c\<bar>) (map F cd1))
          \<le> sum_list (map (\<lambda>(_, c). \<bar>area c\<bar>) cd1) + \<bar>areaOr0 p\<bar>"
    unfolding F_def by (rule bump_abs_area[OF d1])
  then have 3: "sum_list (map (\<lambda>(_, c). \<bar>area c\<bar>) (civDataStep p cd))
           \<le> sum_list (map (\<lambda>(_, c). \<bar>area c\<bar>) cd) + \<bar>areaOr0 p\<bar>"
    by (simp only: step sum1)
  from 1 2 3 show ?thesis by blast
qed

lemma fold_areaStepD_exact:
  assumes "\<forall>p \<in> set ps. \<not> inheritedName (Name p)"
    and "distinct (map fst cd)"
    and "\<forall>(k, c) \<in> set cd. area c \<in> \<int>"
    and "\<forall>p \<in> set ps. areaOr0 p \<in> \<int>"
    and "sum_list (map (\<lambda>(_, c). \<bar>area c\<bar>) cd) + sum_list (map (\<lambda>p. \<bar>areaOr0 p\<bar>) ps) \<le> 2 ^ 53"
  shows "fold areaStepD ps (asDoubles cd) = asDoubles (fold civDataStep ps cd)
       \<and> (\<forall>(k, c) \<in> set (fold civDataStep ps cd). area c \<in> \<int>)
       \<and> sum_list (map (\<lambda>(_, c). \<bar>area c\<bar>) (fold civDataStep ps cd))
           \<le> sum_list (map (\<lambda>(_, c). \<bar>area c\<bar>) cd) + sum_list (map (\<lambda>p. \<bar>areaOr0 p\<bar>) ps)"
  using assms
proof (induction ps arbitrary: cd)
  case Nil then show ?case by simp
next
  case (Cons p ps)
  from Cons.prems have own: "\<not> inheritedName (Name p)"
    and rest: "\<forall>p \<in> set ps. \<not> inheritedName (Name p)"
    and x: "areaOr0 p \<in> \<int>" and xs: "\<forall>p \<in> set ps. areaOr0 p \<in> \<int>" by simp_all
  have nn: "0 \<le> sum_list (map (\<lambda>p. \<bar>areaOr0 p\<bar>) ps)" by (rule sum_list_nonneg) auto
  from Cons.prems(5) nn
  have b1: "sum_list (map (\<lambda>(_, c). \<bar>area c\<bar>) cd) + \<bar>areaOr0 p\<bar> \<le> 2 ^ 53" by simp
  note st = areaStepD_exact[OF own Cons.prems(2) Cons.prems(3) x b1]
  note st1 = st[THEN conjunct1] and st2 = st[THEN conjunct2, THEN conjunct1]
    and st3 = st[THEN conjunct2, THEN conjunct2]
  from st3 Cons.prems(5)
  have b2: "sum_list (map (\<lambda>(_, c). \<bar>area c\<bar>) (civDataStep p cd))
              + sum_list (map (\<lambda>p. \<bar>areaOr0 p\<bar>) ps) \<le> 2 ^ 53" by simp
  note ih = Cons.IH[OF rest civDataStep_distinct[OF own Cons.prems(2)] st2 xs b2]
  from ih st1 st3 show ?case by simp
qed

lemma fold_jsAdd_exact:
  assumes "\<forall>(k, c) \<in> set cd. area c \<in> \<int>" and "s \<in> \<int>"
    and "\<bar>s\<bar> + sum_list (map (\<lambda>(_, c). \<bar>area c\<bar>) cd) \<le> 2 ^ 53"
  shows "fold (\<lambda>(_, a) s. jsAdd s a) (asDoubles cd) (Num s)
           = Num (s + sum_list (map (\<lambda>(_, c). area c) cd))"
  using assms
proof (induction cd arbitrary: s)
  case Nil then show ?case by (simp add: asDoubles_def)
next
  case (Cons x cd)
  obtain k c where x: "x = (k, c)" by (cases x)
  from Cons.prems x have i: "area c \<in> \<int>" and rest: "\<forall>(k, c) \<in> set cd. area c \<in> \<int>" by auto
  have nn: "0 \<le> sum_list (map (\<lambda>(_, c). \<bar>area c\<bar>) cd)" by (rule sum_list_nonneg) auto
  from Cons.prems(3) x nn have "\<bar>s + area c\<bar> \<le> 2 ^ 53" by simp
  from toDouble_exact[OF Ints_add[OF Cons.prems(2) i] this]
  have a: "jsAdd (Num s) (Num (area c)) = Num (s + area c)" by simp
  from Cons.prems(3) x
  have b: "\<bar>s + area c\<bar> + sum_list (map (\<lambda>(_, c). \<bar>area c\<bar>) cd) \<le> 2 ^ 53" by simp
  from Cons.IH[OF rest Ints_add[OF Cons.prems(2) i] b] a x
  show ?case by (simp add: asDoubles_def)
qed

lemma landAreaD_exact:
  assumes names: "\<forall>p \<in> set ps. \<not> inheritedName (Name p)"
    and exact: "exactAreas ps"
  shows "landAreaD ps = Num (sum_list (map areaOr0 ps))"
proof -
  from exact have ints: "\<forall>p \<in> set ps. areaOr0 p \<in> \<int>"
    and bound: "sum_list (map (\<lambda>p. \<bar>areaOr0 p\<bar>) ps) \<le> 2 ^ 53"
    by (auto simp: exactAreas_def list_all_iff Ints_def intro: sym)
  have e: "asDoubles [] = []" by (simp add: asDoubles_def)
  from fold_areaStepD_exact[OF names, of "[]"] ints bound
  have 1: "fold areaStepD ps [] = asDoubles (fold civDataStep ps [])"
    and 2: "\<forall>(k, c) \<in> set (fold civDataStep ps []). area c \<in> \<int>"
    and 3: "sum_list (map (\<lambda>(_, c). \<bar>area c\<bar>) (fold civDataStep ps []))
              \<le> sum_list (map (\<lambda>p. \<bar>areaOr0 p\<bar>) ps)"
    by (simp_all add: e)
  from 3 bound
  have b: "\<bar>0::real\<bar> + sum_list (map (\<lambda>(_, c). \<bar>area c\<bar>) (fold civDataStep ps [])) \<le> 2 ^ 53"
    by simp
  have "landAreaD ps = Num (0 + sum_list (map (\<lambda>(_, c). area c) (fold civDataStep ps [])))"
    unfolding landAreaD_def 1 by (rule fold_jsAdd_exact[OF 2 _ b]) simp
  also have "sum_list (map (\<lambda>(_, c). area c) (fold civDataStep ps [])) = sum_list (map areaOr0 ps)"
    using fold_civDataStep[OF names, of "[]"] by simp
  finally show ?thesis by simp
qed


lemma ex_inherited_visible:
  "updateMap_visiblePolities 100 [ex_constructor, ex_gaul] = [ex_constructor, ex_gaul]"
  by (simp add: updateMap_visiblePolities_def ex_constructor_def ex_gaul_def
      isParenthetical_def startsWith_def)

lemma ex_inherited_civData:
  "fold civDataStep [ex_constructor, ex_gaul] [] = [(''Gaul'', \<lparr>area = 300, fromYear = 0\<rparr>)]"
  by (simp add: civDataStep_def ex_constructor_def ex_gaul_def areaOr0_def
      inheritedName_def objectPrototypeNames_def)

text \<open>The areas of the three regions are doubles, and their sums round as follows.\<close>

lemma ex_double_02: "toDouble (3602879701896397 / 18014398509481984) = Num (3602879701896397 / 18014398509481984)"
proof -
  have "toDouble (3602879701896397 / 18014398509481984) = Num (of_int 7205759403792794 * 2 powi (- 55))"
  proof (rule toDouble_eval[where k="(- 3)" and q="7205759403792794"])
    show "2 powi (- 3) \<le> \<bar>(3602879701896397 / 18014398509481984) :: real\<bar>" by (simp add: p_m2 p_m3 p_m55)
    show "\<bar>(3602879701896397 / 18014398509481984) :: real\<bar> < 2 powi ((- 3) + 1)" by (simp add: p_m2 p_m3 p_m55)
    show "(- 55) = max (- 1074) ((- 3) - 52 :: int)" by simp
    show "(3602879701896397 / 18014398509481984) / 2 powi (- 55) = (7205759403792794 :: real)" by (simp add: p_m2 p_m3 p_m55)
    show "roundHalfEven 7205759403792794 = 7205759403792794" by (simp add: roundHalfEven_def Let_def)
    show "\<bar>real_of_int 7205759403792794 * 2 powi (- 55)\<bar> < 2 ^ 1024" by (simp add: p_m2 p_m3 p_m55)
  qed
  then show ?thesis by (simp add: p_m2 p_m3 p_m55)
qed

lemma ex_double_01: "toDouble (3602879701896397 / 36028797018963968) = Num (3602879701896397 / 36028797018963968)"
proof -
  have "toDouble (3602879701896397 / 36028797018963968) = Num (of_int 7205759403792794 * 2 powi (- 56))"
  proof (rule toDouble_eval[where k="(- 4)" and q="7205759403792794"])
    show "2 powi (- 4) \<le> \<bar>(3602879701896397 / 36028797018963968) :: real\<bar>" by (simp add: p_m3 p_m4 p_m56)
    show "\<bar>(3602879701896397 / 36028797018963968) :: real\<bar> < 2 powi ((- 4) + 1)" by (simp add: p_m3 p_m4 p_m56)
    show "(- 56) = max (- 1074) ((- 4) - 52 :: int)" by simp
    show "(3602879701896397 / 36028797018963968) / 2 powi (- 56) = (7205759403792794 :: real)" by (simp add: p_m3 p_m4 p_m56)
    show "roundHalfEven 7205759403792794 = 7205759403792794" by (simp add: roundHalfEven_def Let_def)
    show "\<bar>real_of_int 7205759403792794 * 2 powi (- 56)\<bar> < 2 ^ 1024" by (simp add: p_m3 p_m4 p_m56)
  qed
  then show ?thesis by (simp add: p_m3 p_m4 p_m56)
qed

lemma ex_double_03: "toDouble (5404319552844595 / 18014398509481984) = Num (5404319552844595 / 18014398509481984)"
proof -
  have "toDouble (5404319552844595 / 18014398509481984) = Num (of_int 5404319552844595 * 2 powi (- 54))"
  proof (rule toDouble_eval[where k="(- 2)" and q="5404319552844595"])
    show "2 powi (- 2) \<le> \<bar>(5404319552844595 / 18014398509481984) :: real\<bar>" by (simp add: p_m1 p_m2 p_m54)
    show "\<bar>(5404319552844595 / 18014398509481984) :: real\<bar> < 2 powi ((- 2) + 1)" by (simp add: p_m1 p_m2 p_m54)
    show "(- 54) = max (- 1074) ((- 2) - 52 :: int)" by simp
    show "(5404319552844595 / 18014398509481984) / 2 powi (- 54) = (5404319552844595 :: real)" by (simp add: p_m1 p_m2 p_m54)
    show "roundHalfEven 5404319552844595 = 5404319552844595" by (simp add: roundHalfEven_def Let_def)
    show "\<bar>real_of_int 5404319552844595 * 2 powi (- 54)\<bar> < 2 ^ 1024" by (simp add: p_m1 p_m2 p_m54)
  qed
  then show ?thesis by (simp add: p_m1 p_m2 p_m54)
qed

lemma ex_sum_01_02: "toDouble (10808639105689191 / 36028797018963968) = Num (1351079888211149 / 4503599627370496)"
proof -
  have "toDouble (10808639105689191 / 36028797018963968) = Num (of_int 5404319552844596 * 2 powi (- 54))"
  proof (rule toDouble_eval[where k="(- 2)" and q="10808639105689191 / 2"])
    show "2 powi (- 2) \<le> \<bar>(10808639105689191 / 36028797018963968) :: real\<bar>" by (simp add: p_m1 p_m2 p_m54)
    show "\<bar>(10808639105689191 / 36028797018963968) :: real\<bar> < 2 powi ((- 2) + 1)" by (simp add: p_m1 p_m2 p_m54)
    show "(- 54) = max (- 1074) ((- 2) - 52 :: int)" by simp
    show "(10808639105689191 / 36028797018963968) / 2 powi (- 54) = (10808639105689191 / 2 :: real)" by (simp add: p_m1 p_m2 p_m54)
    show "roundHalfEven (10808639105689191 / 2) = 5404319552844596" by (simp add: roundHalfEven_def Let_def)
    show "\<bar>real_of_int 5404319552844596 * 2 powi (- 54)\<bar> < 2 ^ 1024" by (simp add: p_m1 p_m2 p_m54)
  qed
  then show ?thesis by (simp add: p_m1 p_m2 p_m54)
qed

lemma ex_sum_01_02_03: "toDouble (10808639105689191 / 18014398509481984) = Num (1351079888211149 / 2251799813685248)"
proof -
  have "toDouble (10808639105689191 / 18014398509481984) = Num (of_int 5404319552844596 * 2 powi (- 53))"
  proof (rule toDouble_eval[where k="(- 1)" and q="10808639105689191 / 2"])
    show "2 powi (- 1) \<le> \<bar>(10808639105689191 / 18014398509481984) :: real\<bar>" by (simp add: p_0 p_m1 p_m53)
    show "\<bar>(10808639105689191 / 18014398509481984) :: real\<bar> < 2 powi ((- 1) + 1)" by (simp add: p_0 p_m1 p_m53)
    show "(- 53) = max (- 1074) ((- 1) - 52 :: int)" by simp
    show "(10808639105689191 / 18014398509481984) / 2 powi (- 53) = (10808639105689191 / 2 :: real)" by (simp add: p_0 p_m1 p_m53)
    show "roundHalfEven (10808639105689191 / 2) = 5404319552844596" by (simp add: roundHalfEven_def Let_def)
    show "\<bar>real_of_int 5404319552844596 * 2 powi (- 53)\<bar> < 2 ^ 1024" by (simp add: p_0 p_m1 p_m53)
  qed
  then show ?thesis by (simp add: p_0 p_m1 p_m53)
qed

lemma ex_sum_03_02: "toDouble (1 / 2) = Num (1 / 2)"
proof -
  have "toDouble (1 / 2) = Num (of_int 4503599627370496 * 2 powi (- 53))"
  proof (rule toDouble_eval[where k="(- 1)" and q="4503599627370496"])
    show "2 powi (- 1) \<le> \<bar>(1 / 2) :: real\<bar>" by (simp add: p_0 p_m1 p_m53)
    show "\<bar>(1 / 2) :: real\<bar> < 2 powi ((- 1) + 1)" by (simp add: p_0 p_m1 p_m53)
    show "(- 53) = max (- 1074) ((- 1) - 52 :: int)" by simp
    show "(1 / 2) / 2 powi (- 53) = (4503599627370496 :: real)" by (simp add: p_0 p_m1 p_m53)
    show "roundHalfEven 4503599627370496 = 4503599627370496" by (simp add: roundHalfEven_def Let_def)
    show "\<bar>real_of_int 4503599627370496 * 2 powi (- 53)\<bar> < 2 ^ 1024" by (simp add: p_0 p_m1 p_m53)
  qed
  then show ?thesis by (simp add: p_0 p_m1 p_m53)
qed

lemma ex_sum_03_02_01: "toDouble (21617278211378381 / 36028797018963968) = Num (5404319552844595 / 9007199254740992)"
proof -
  have "toDouble (21617278211378381 / 36028797018963968) = Num (of_int 5404319552844595 * 2 powi (- 53))"
  proof (rule toDouble_eval[where k="(- 1)" and q="21617278211378381 / 4"])
    show "2 powi (- 1) \<le> \<bar>(21617278211378381 / 36028797018963968) :: real\<bar>" by (simp add: p_0 p_m1 p_m53)
    show "\<bar>(21617278211378381 / 36028797018963968) :: real\<bar> < 2 powi ((- 1) + 1)" by (simp add: p_0 p_m1 p_m53)
    show "(- 53) = max (- 1074) ((- 1) - 52 :: int)" by simp
    show "(21617278211378381 / 36028797018963968) / 2 powi (- 53) = (21617278211378381 / 4 :: real)" by (simp add: p_0 p_m1 p_m53)
    show "roundHalfEven (21617278211378381 / 4) = 5404319552844595" by (simp add: roundHalfEven_def Let_def)
    show "\<bar>real_of_int 5404319552844595 * 2 powi (- 53)\<bar> < 2 ^ 1024" by (simp add: p_0 p_m1 p_m53)
  qed
  then show ?thesis by (simp add: p_0 p_m1 p_m53)
qed

lemma ex_order_visible:
  "updateMap_visiblePolities 100 [ex_north, ex_centre, ex_south] = [ex_north, ex_centre, ex_south]"
  "updateMap_visiblePolities 100 [ex_south, ex_centre, ex_north] = [ex_south, ex_centre, ex_north]"
  by (simp_all add: updateMap_visiblePolities_def ex_north_def ex_centre_def ex_south_def
      isParenthetical_def startsWith_def)

lemma ex_order_forward:
  "landAreaD [ex_north, ex_centre, ex_south] = Num (1351079888211149 / 2251799813685248)"
  by (simp add: landAreaD_def areaStepD_def ex_north_def ex_centre_def ex_south_def areaOr0_def
      inheritedName_def objectPrototypeNames_def
      ex_double_01 ex_double_02 ex_double_03 ex_sum_01_02 ex_sum_01_02_03)

lemma ex_order_backward:
  "landAreaD [ex_south, ex_centre, ex_north] = Num (5404319552844595 / 9007199254740992)"
  by (simp add: landAreaD_def areaStepD_def ex_north_def ex_centre_def ex_south_def areaOr0_def
      inheritedName_def objectPrototypeNames_def
      ex_double_01 ex_double_02 ex_double_03 ex_sum_03_02 ex_sum_03_02_01)

text \<open>
  Claim C2, as first stated, at a name that objects inherit and at areas that are not
  integers. Two regions are visible in year 100, \<^verbatim>\<open>constructor\<close> of area 700 and
  \<^verbatim>\<open>Gaul\<close> of area 300, so the sum of the areas of the visible regions is 1000.
  \<^verbatim>\<open>civData['constructor']\<close> is the inherited function, which is truthy: the region
  gets no entry, and the metrics of the year hold one civilization and a land area of
  300. And three regions of areas \<^verbatim>\<open>0.1\<close>, \<^verbatim>\<open>0.2\<close> and \<^verbatim>\<open>0.3\<close> are visible in
  year 100: when the dataset lists them in this order the source computes the land area
  \<^verbatim>\<open>0.6000000000000001\<close>, and when it lists them in the opposite order
  \<^verbatim>\<open>0.6\<close>, so the land area is not determined by the set of visible regions.
\<close>

theorem landArea_differs_from_sum_of_visible_areas:
  "map Name (updateMap_visiblePolities 100 [ex_constructor, ex_gaul]) = [''constructor'', ''Gaul'']
   \<and> sum_list (map areaOr0 (updateMap_visiblePolities 100 [ex_constructor, ex_gaul])) = 1000
   \<and> map_sum id (landArea \<circ> totals)
        (calculateMetricsFast [] [] 100 (updateMap_visiblePolities 100 [ex_constructor, ex_gaul]))
       = Inr 300
   \<and> map_sum id (civilizations \<circ> totals)
        (calculateMetricsFast [] [] 100 (updateMap_visiblePolities 100 [ex_constructor, ex_gaul]))
       = Inr 1
   \<and> map_sum id (map_option (landArea \<circ> totals))
        (map_sum id (\<lambda>gd. gd 100) (updateGraph [] [] [ex_constructor, ex_gaul] 100 Map.empty))
       = Inr (Some 300)
   \<and> landAreaD (updateMap_visiblePolities 100 [ex_constructor, ex_gaul]) = Num 300
   \<and> set (updateMap_visiblePolities 100 [ex_north, ex_centre, ex_south])
       = set (updateMap_visiblePolities 100 [ex_south, ex_centre, ex_north])
   \<and> landAreaD (updateMap_visiblePolities 100 [ex_north, ex_centre, ex_south])
       = Num (1351079888211149 / 2251799813685248)
   \<and> landAreaD (updateMap_visiblePolities 100 [ex_south, ex_centre, ex_north])
       = Num (5404319552844595 / 9007199254740992)
   \<and> (1351079888211149 / 2251799813685248 :: real) \<noteq> 5404319552844595 / 9007199254740992"
proof -
  have "map Name (updateMap_visiblePolities 100 [ex_constructor, ex_gaul]) = [''constructor'', ''Gaul'']"
    unfolding ex_inherited_visible by (simp add: ex_constructor_def ex_gaul_def)
  moreover have "sum_list (map areaOr0 (updateMap_visiblePolities 100 [ex_constructor, ex_gaul])) = 1000"
    unfolding ex_inherited_visible by (simp add: ex_constructor_def ex_gaul_def areaOr0_def)
  moreover have "map_sum id (landArea \<circ> totals)
        (calculateMetricsFast [] [] 100 (updateMap_visiblePolities 100 [ex_constructor, ex_gaul]))
       = Inr 300"
    unfolding ex_inherited_visible calculateMetricsFast_def ex_inherited_civData
      getWorldStatsForYear_empty
    by (simp add: Let_def)
  moreover have "map_sum id (civilizations \<circ> totals)
        (calculateMetricsFast [] [] 100 (updateMap_visiblePolities 100 [ex_constructor, ex_gaul]))
       = Inr 1"
    unfolding ex_inherited_visible calculateMetricsFast_def ex_inherited_civData
      getWorldStatsForYear_empty
    by (simp add: Let_def)
  moreover have "map_sum id (map_option (landArea \<circ> totals))
        (map_sum id (\<lambda>gd. gd 100) (updateGraph [] [] [ex_constructor, ex_gaul] 100 Map.empty))
       = Inr (Some 300)"
    unfolding updateGraph_def ex_inherited_visible calculateMetricsFast_def ex_inherited_civData
      getWorldStatsForYear_empty
    by (simp add: Let_def)
  moreover have "landAreaD (updateMap_visiblePolities 100 [ex_constructor, ex_gaul]) = Num 300"
  proof -
    have "toDouble 300 = Num 300"
      using toDouble_safe_integer[of 300] by simp
    then show ?thesis
      unfolding ex_inherited_visible
      by (simp add: landAreaD_def areaStepD_def ex_constructor_def ex_gaul_def areaOr0_def
          inheritedName_def objectPrototypeNames_def)
  qed
  moreover have "set (updateMap_visiblePolities 100 [ex_north, ex_centre, ex_south])
       = set (updateMap_visiblePolities 100 [ex_south, ex_centre, ex_north])"
    unfolding ex_order_visible by auto
  moreover have "landAreaD (updateMap_visiblePolities 100 [ex_north, ex_centre, ex_south])
       = Num (1351079888211149 / 2251799813685248)"
    unfolding ex_order_visible by (rule ex_order_forward)
  moreover have "landAreaD (updateMap_visiblePolities 100 [ex_south, ex_centre, ex_north])
       = Num (5404319552844595 / 9007199254740992)"
    unfolding ex_order_visible by (rule ex_order_backward)
  moreover have "(1351079888211149 / 2251799813685248 :: real)
                   \<noteq> 5404319552844595 / 9007199254740992"
    by simp
  ultimately show ?thesis by (intro conjI)
qed

text \<open>
  Claim C2, amended. Take any year, and let the visible regions of the year be the ones
  that \<^verbatim>\<open>updateMap\<close> shows: the fragments of the dataset whose validity interval
  contains the year and whose name is not a parenthesised wrapper. Suppose that none of
  them bears a name inherited from \<^verbatim>\<open>Object.prototype\<close>, and that their areas are
  integers whose absolute values add up to at most \<open>2\<^sup>5\<^sup>3\<close>. Then
  \<^verbatim>\<open>updateGraph\<close> returns (every city of \<^verbatim>\<open>state.allCities\<close> has its
  \<^verbatim>\<open>populations\<close>, as \<^verbatim>\<open>loadAllData\<close> ensures) and stores under the year the
  metrics whose \<^verbatim>\<open>totals.landArea\<close> is the sum of \<^verbatim>\<open>Area || 0\<close> over the visible
  regions, each fragment counted once, and whose \<^verbatim>\<open>totals.civilizations\<close> is the
  number of distinct names among them; the other years of \<^verbatim>\<open>state.graphData\<close> are
  left as they were. The land area that the source computes in double precision is that
  same sum: under the condition on the areas no addition is rounded. With a single
  visible region of area 2000000 this gives one civilization and a land area of 2000000.
\<close>

theorem updateGraph_landArea_is_sum_of_visible_areas:
  assumes cities: "\<forall>c \<in> set allCities. populations c \<noteq> None"
    and names: "\<forall>p \<in> set (updateMap_visiblePolities yr allPolities). \<not> inheritedName (Name p)"
    and exact: "exactAreas (updateMap_visiblePolities yr allPolities)"
  shows "set (updateMap_visiblePolities yr allPolities)
           = {f \<in> set allPolities. \<not> isParenthetical (Name f) \<and> FromYear f \<le> yr \<and> yr \<le> ToYear f}
       \<and> (\<exists>gd m. updateGraph worldStats allCities allPolities yr graphData = Inr gd
             \<and> gd = graphData(yr \<mapsto> m)
             \<and> landArea (totals m)
                 = sum_list (map areaOr0 (updateMap_visiblePolities yr allPolities))
             \<and> civilizations (totals m)
                 = card (Name ` set (updateMap_visiblePolities yr allPolities)))
       \<and> landAreaD (updateMap_visiblePolities yr allPolities)
           = Num (sum_list (map areaOr0 (updateMap_visiblePolities yr allPolities)))"
proof -
  from calculateMetricsFast_landArea[OF cities names, of worldStats yr]
  obtain m where m: "calculateMetricsFast worldStats allCities yr
                        (updateMap_visiblePolities yr allPolities) = Inr m"
    and a: "landArea (totals m) = sum_list (map areaOr0 (updateMap_visiblePolities yr allPolities))"
    and c: "civilizations (totals m) = card (Name ` set (updateMap_visiblePolities yr allPolities))"
    by blast
  have "updateGraph worldStats allCities allPolities yr graphData = Inr (graphData(yr \<mapsto> m))"
    using m by (simp add: updateGraph_def)
  with a c have "\<exists>gd m. updateGraph worldStats allCities allPolities yr graphData = Inr gd
             \<and> gd = graphData(yr \<mapsto> m)
             \<and> landArea (totals m)
                 = sum_list (map areaOr0 (updateMap_visiblePolities yr allPolities))
             \<and> civilizations (totals m)
                 = card (Name ` set (updateMap_visiblePolities yr allPolities))"
    by blast
  with updateMap_visiblePolities_set[of yr allPolities] landAreaD_exact[OF names exact]
  show ?thesis by (intro conjI)
qed

lemma ex_world_visible:
  "updateMap_visiblePolities 100 ex_world = [ex_world ! 0, ex_world ! 1, ex_world ! 2]"
  by (simp add: updateMap_visiblePolities_def ex_world_def isParenthetical_def
      startsWith_def endsWith_def)

lemma ex_scenarioA_visible:
  "updateMap_visiblePolities (- 200) [ex_scenarioA] = [ex_scenarioA]"
  by (simp add: updateMap_visiblePolities_def ex_scenarioA_def isParenthetical_def startsWith_def)

theorem updateGraph_landArea_is_sum_of_visible_areas_witness:
  "list_all (\<lambda>c. populations c \<noteq> None) [ex_metropolis, ex_town]
   \<and> map Name (updateMap_visiblePolities 100 ex_world) = [''Rome'', ''Rome'', ''Parthia'']
   \<and> list_all (\<lambda>p. \<not> inheritedName (Name p)) (updateMap_visiblePolities 100 ex_world)
   \<and> exactAreas (updateMap_visiblePolities 100 ex_world)
   \<and> (\<exists>gd m. updateGraph [] [ex_metropolis, ex_town] ex_world 100 Map.empty = Inr gd
          \<and> gd = [100 \<mapsto> m]
          \<and> landArea (totals m) = 8100000 \<and> civilizations (totals m) = 2)
   \<and> landAreaD (updateMap_visiblePolities 100 ex_world) = Num 8100000
   \<and> exactAreas (updateMap_visiblePolities (- 200) [ex_scenarioA])
   \<and> (\<exists>gd m. updateGraph [] [] [ex_scenarioA] (- 200) Map.empty = Inr gd
          \<and> gd = [- 200 \<mapsto> m]
          \<and> landArea (totals m) = 2000000 \<and> civilizations (totals m) = 1)
   \<and> landAreaD (updateMap_visiblePolities (- 200) [ex_scenarioA]) = Num 2000000"
proof -
  have c: "\<forall>c \<in> set [ex_metropolis, ex_town]. populations c \<noteq> None"
    by (simp add: ex_metropolis_def ex_town_def)
  have n: "\<forall>p \<in> set (updateMap_visiblePolities 100 ex_world). \<not> inheritedName (Name p)"
    unfolding ex_world_visible
    by (simp add: ex_world_def inheritedName_def objectPrototypeNames_def)
  have e: "exactAreas (updateMap_visiblePolities 100 ex_world)"
    unfolding ex_world_visible by (simp add: ex_world_def exactAreas_def areaOr0_def)
  have v: "map Name (updateMap_visiblePolities 100 ex_world) = [''Rome'', ''Rome'', ''Parthia'']"
    unfolding ex_world_visible by (simp add: ex_world_def)
  have s: "sum_list (map areaOr0 (updateMap_visiblePolities 100 ex_world)) = 8100000"
    unfolding ex_world_visible by (simp add: ex_world_def areaOr0_def)
  have k: "card (Name ` set (updateMap_visiblePolities 100 ex_world)) = 2"
    unfolding ex_world_visible by (simp add: ex_world_def)
  have c': "\<forall>c \<in> set ([] :: city list). populations c \<noteq> None" by simp
  have n': "\<forall>p \<in> set (updateMap_visiblePolities (- 200) [ex_scenarioA]). \<not> inheritedName (Name p)"
    unfolding ex_scenarioA_visible
    by (simp add: ex_scenarioA_def inheritedName_def objectPrototypeNames_def)
  have e': "exactAreas (updateMap_visiblePolities (- 200) [ex_scenarioA])"
    unfolding ex_scenarioA_visible by (simp add: ex_scenarioA_def exactAreas_def areaOr0_def)
  have s': "sum_list (map areaOr0 (updateMap_visiblePolities (- 200) [ex_scenarioA])) = 2000000"
    unfolding ex_scenarioA_visible by (simp add: ex_scenarioA_def areaOr0_def)
  have k': "card (Name ` set (updateMap_visiblePolities (- 200) [ex_scenarioA])) = 1"
    unfolding ex_scenarioA_visible by simp
  note t = updateGraph_landArea_is_sum_of_visible_areas[OF c n e, of "[]" Map.empty]
  note t' = updateGraph_landArea_is_sum_of_visible_areas[OF c' n' e', of "[]" Map.empty]
  have 1: "\<exists>gd m. updateGraph [] [ex_metropolis, ex_town] ex_world 100 Map.empty = Inr gd
          \<and> gd = [100 \<mapsto> m]
          \<and> landArea (totals m) = 8100000 \<and> civilizations (totals m) = 2"
    using t[THEN conjunct2, THEN conjunct1] unfolding s k .
  have 2: "landAreaD (updateMap_visiblePolities 100 ex_world) = Num 8100000"
    using t[THEN conjunct2, THEN conjunct2] unfolding s .
  have 3: "\<exists>gd m. updateGraph [] [] [ex_scenarioA] (- 200) Map.empty = Inr gd
          \<and> gd = [- 200 \<mapsto> m]
          \<and> landArea (totals m) = 2000000 \<and> civilizations (totals m) = 1"
    using t'[THEN conjunct2, THEN conjunct1] unfolding s' k' .
  have 4: "landAreaD (updateMap_visiblePolities (- 200) [ex_scenarioA]) = Num 2000000"
    using t'[THEN conjunct2, THEN conjunct2] unfolding s' .
  have l1: "list_all (\<lambda>c. populations c \<noteq> None) [ex_metropolis, ex_town]"
    by (simp add: ex_metropolis_def ex_town_def)
  have l2: "list_all (\<lambda>p. \<not> inheritedName (Name p)) (updateMap_visiblePolities 100 ex_world)"
    using n by (simp add: list_all_iff)
  from l1 v l2 e 1 2 e' 3 4 show ?thesis by (intro conjI)
qed

subsection \<open>The two visible sets on the example dataset\<close>

lemma ex_updateMap_visible:
  "updateMap_visiblePolities 100 ex_dataset = [hd ex_dataset]"
  by (simp add: updateMap_visiblePolities_def ex_dataset_def isParenthetical_def
      startsWith_def endsWith_def)

lemma ex_preload_visible:
  "preloadGraphData_visiblePolities 100 ex_dataset = [hd ex_dataset, last ex_dataset]"
  by (simp add: preloadGraphData_visiblePolities_def ex_dataset_def)

lemma ex_civData_updateMap:
  "fold civDataStep [hd ex_dataset] []
     = [(''Rome'', \<lparr>area = 5000000, fromYear = - 27\<rparr>)]"
  by (simp add: ex_dataset_def civDataStep_def areaOr0_def inheritedName_def
      objectPrototypeNames_def)

lemma ex_civData_preload:
  "fold civDataStep [hd ex_dataset, last ex_dataset] []
     = [(''Rome'', \<lparr>area = 5000000, fromYear = - 27\<rparr>),
        (''(Rome)'', \<lparr>area = 5000000, fromYear = - 753\<rparr>)]"
  by (simp add: ex_dataset_def civDataStep_def areaOr0_def inheritedName_def
      objectPrototypeNames_def)

lemma ex_founding_year: "polityFoundingYears ex_dataset ''Rome'' = Some (- 509)"
  by (simp add: ex_dataset_def polityFoundingYears_def foundingStep_def isParenthetical_def
      startsWith_def endsWith_def inheritedName_def objectPrototypeNames_def)

lemma step50: "y \<le> z \<Longrightarrow> (z - y) mod 50 = 0 \<Longrightarrow> z \<noteq> y \<Longrightarrow> y + 50 \<le> (z::int)"
proof -
  assume a: "y \<le> z" "(z - y) mod 50 = 0" "z \<noteq> y"
  then have "50 dvd (z - y)" by (simp add: dvd_eq_mod_eq_0)
  moreover from a have "0 < z - y" by simp
  ultimately have "50 \<le> z - y" by (rule zdvd_imp_le)
  then show ?thesis by simp
qed

lemma yearsFrom_set:
  "set (yearsFrom y) = {z. y \<le> z \<and> z \<le> 2024 \<and> (z - y) mod 50 = 0}"
proof (induction y rule: yearsFrom.induct)
  case (1 y)
  show ?case
  proof (cases "y \<le> 2024")
    case True
    have "set (yearsFrom y) = insert y (set (yearsFrom (y + 50)))"
      using True by (subst yearsFrom.simps) simp
    also have "\<dots> = insert y {z. y + 50 \<le> z \<and> z \<le> 2024 \<and> (z - (y + 50)) mod 50 = 0}"
      using 1[OF True] by simp
    also have "\<dots> = {z. y \<le> z \<and> z \<le> 2024 \<and> (z - y) mod 50 = 0}"
    proof (rule set_eqI)
      fix z
      have m: "(z - (y + 50)) mod 50 = (z - y) mod 50"
        using minus_mod_self2[of "z - y" 50] by (simp add: algebra_simps)
      show "z \<in> insert y {z. y + 50 \<le> z \<and> z \<le> 2024 \<and> (z - (y + 50)) mod 50 = 0}
            \<longleftrightarrow> z \<in> {z. y \<le> z \<and> z \<le> 2024 \<and> (z - y) mod 50 = 0}"
        using True step50[of y z] by (auto simp: m)
    qed
    finally show ?thesis .
  next
    case False
    have "yearsFrom y = []" using False by (subst yearsFrom.simps) simp
    with False show ?thesis by auto
  qed
qed

text \<open>
  Claim C1, evaluated. The dataset holds two fragments of Rome, from 509 BCE and from
  27 BCE, so the cached founding year of Rome is -509 and the claimed average age at
  year 100 is 609. \<^verbatim>\<open>calculateMetricsFast\<close> takes the minimum \<^verbatim>\<open>FromYear\<close> over
  the fragments it is given, the visible ones, and returns 127.
\<close>

theorem avgAge_counts_from_visible_fragment:
  "map Name (updateMap_visiblePolities 100 ex_dataset) = [''Rome'']
   \<and> polityFoundingYears ex_dataset ''Rome'' = Some (- 509)
   \<and> map_sum id (\<lambda>m. avgAge (totals m))
         (calculateMetricsFast [] [] 100 (updateMap_visiblePolities 100 ex_dataset)) = Inr 127"
proof -
  have "map Name (updateMap_visiblePolities 100 ex_dataset) = [''Rome'']"
    by (simp add: ex_updateMap_visible) (simp add: ex_dataset_def)
  moreover have "map_sum id (\<lambda>m. avgAge (totals m))
         (calculateMetricsFast [] [] 100 (updateMap_visiblePolities 100 ex_dataset)) = Inr 127"
    unfolding ex_updateMap_visible calculateMetricsFast_def ex_civData_updateMap
      getWorldStatsForYear_empty
    by (simp add: Let_def)
  ultimately show ?thesis using ex_founding_year by simp
qed

lemma calculateMetricsFast_returns:
  assumes "\<forall>c \<in> set allCities. populations c \<noteq> None"
  shows "\<exists>m. calculateMetricsFast worldStats allCities yr visiblePolities = Inr m"
proof -
  from cityTotals_ok[of allCities yr "(0, 0)"] assms
  obtain n u where "cityTotals yr allCities (0, 0) = Inr (n, u)" by fastforce
  then show ?thesis by (simp add: calculateMetricsFast_def Let_def)
qed

text \<open>When every city has its \<^verbatim>\<open>populations\<close>, the precompute pass returns; under
  each of its years it has stored the metrics of the year over the polities of its own
  filter, and it has left the other years as they were.\<close>

lemma processYears_stores:
  assumes "\<forall>c \<in> set allCities. populations c \<noteq> None"
  shows "\<exists>gd. processYears worldStats allCities allPolities yrs graphData = Inr gd
           \<and> (\<forall>y. y \<in> set yrs \<longrightarrow>
                  Inr (gd y) = map_sum id Some (calculateMetricsFast worldStats allCities y
                                       (preloadGraphData_visiblePolities y allPolities)))
           \<and> (\<forall>y. y \<notin> set yrs \<longrightarrow> gd y = graphData y)"
proof (induction yrs arbitrary: graphData)
  case Nil then show ?case by simp
next
  case (Cons yr yrs)
  from calculateMetricsFast_returns[OF assms]
  obtain m where m: "calculateMetricsFast worldStats allCities yr
                       (preloadGraphData_visiblePolities yr allPolities) = Inr m" by blast
  from Cons.IH[of "graphData(yr \<mapsto> m)"]
  obtain gd where gd: "processYears worldStats allCities allPolities yrs (graphData(yr \<mapsto> m)) = Inr gd"
    and st: "\<And>y. y \<in> set yrs \<Longrightarrow>
                  Inr (gd y) = map_sum id Some (calculateMetricsFast worldStats allCities y
                                       (preloadGraphData_visiblePolities y allPolities))"
    and other: "\<And>y. y \<notin> set yrs \<Longrightarrow> gd y = (graphData(yr \<mapsto> m)) y"
    by blast
  have "processYears worldStats allCities allPolities (yr # yrs) graphData = Inr gd"
    using m gd by simp
  moreover have "\<And>y. y \<in> set (yr # yrs) \<Longrightarrow>
                  Inr (gd y) = map_sum id Some (calculateMetricsFast worldStats allCities y
                                       (preloadGraphData_visiblePolities y allPolities))"
  proof -
    fix y assume y: "y \<in> set (yr # yrs)"
    show "Inr (gd y) = map_sum id Some (calculateMetricsFast worldStats allCities y
                                       (preloadGraphData_visiblePolities y allPolities))"
    proof (cases "y \<in> set yrs")
      case True then show ?thesis by (rule st)
    next
      case False
      with y have "y = yr" by simp
      with other[OF False] m show ?thesis by simp
    qed
  qed
  moreover have "\<And>y. y \<notin> set (yr # yrs) \<Longrightarrow> gd y = graphData y"
    using other by auto
  ultimately show ?case by blast
qed

lemma ex_metrics_preload:
  "\<exists>m. calculateMetricsFast [] [] 100 (preloadGraphData_visiblePolities 100 ex_dataset) = Inr m
        \<and> landArea (totals m) = 10000000 \<and> map fst (civs m) = [''Rome'', ''(Rome)'']"
  unfolding ex_preload_visible calculateMetricsFast_def ex_civData_preload
      getWorldStatsForYear_empty
  by (simp add: Let_def)

lemma ex_preload_100:
  "\<exists>gd. preloadGraphData [] [] ex_dataset Map.empty = Inr gd
        \<and> map_option (\<lambda>m. landArea (totals m)) (gd 100) = Some 10000000
        \<and> map_option (\<lambda>m. map fst (civs m)) (gd 100) = Some [''Rome'', ''(Rome)'']"
proof -
  have c: "\<forall>c \<in> set ([] :: city list). populations c \<noteq> None" by simp
  from processYears_stores[OF c, of "[]" ex_dataset preloadYears Map.empty]
  obtain gd where a: "processYears [] [] ex_dataset preloadYears Map.empty = Inr gd
           \<and> (\<forall>y. y \<in> set preloadYears \<longrightarrow>
                  Inr (gd y) = map_sum id Some (calculateMetricsFast [] [] y
                                       (preloadGraphData_visiblePolities y ex_dataset)))
           \<and> (\<forall>y. y \<notin> set preloadYears \<longrightarrow> gd y = Map.empty y)" ..
  have gd: "preloadGraphData [] [] ex_dataset Map.empty = Inr gd"
    unfolding preloadGraphData_def by (rule conjunct1[OF a])
  have y: "100 \<in> set preloadYears" by (simp add: preloadYears_def yearsFrom_set)
  from a have all: "\<forall>y. y \<in> set preloadYears \<longrightarrow>
                  Inr (gd y) = map_sum id Some (calculateMetricsFast [] [] y
                                       (preloadGraphData_visiblePolities y ex_dataset))"
    by (rule conjunct1[OF conjunct2])
  have st: "Inr (gd 100) = map_sum id Some (calculateMetricsFast [] [] 100
                                       (preloadGraphData_visiblePolities 100 ex_dataset))"
    by (rule all[rule_format, OF y])
  from ex_metrics_preload obtain m where
    mm: "calculateMetricsFast [] [] 100 (preloadGraphData_visiblePolities 100 ex_dataset) = Inr m
         \<and> landArea (totals m) = 10000000 \<and> map fst (civs m) = [''Rome'', ''(Rome)'']" ..
  note m = conjunct1[OF mm] conjunct1[OF conjunct2[OF mm]] conjunct2[OF conjunct2[OF mm]]
  from st m(1) have g100: "gd 100 = Some m" by simp
  show ?thesis
  proof (intro exI conjI)
    show "preloadGraphData [] [] ex_dataset Map.empty = Inr gd" by (rule gd)
    show "map_option (\<lambda>m. landArea (totals m)) (gd 100) = Some 10000000"
      by (simp add: g100 m(2))
    show "map_option (\<lambda>m. map fst (civs m)) (gd 100) = Some [''Rome'', ''(Rome)'']"
      by (simp add: g100 m(3))
  qed
qed

text \<open>
  Claim C3, evaluated. Year 100 is a year of the precompute pass. Its filter keeps the
  parenthesised wrapper \<open>(Rome)\<close>, which the filter of \<^verbatim>\<open>updateMap\<close> drops; the pass
  stores the wrapper as a civilization of the year, and the land area it stores is twice
  the one \<^verbatim>\<open>updateMap\<close> computes.
\<close>

theorem preload_visible_set_keeps_wrappers:
  "100 \<in> set preloadYears
   \<and> (\<exists>gd. preloadGraphData [] [] ex_dataset Map.empty = Inr gd
          \<and> map_option (\<lambda>m. landArea (totals m)) (gd 100) = Some 10000000
          \<and> map_option (\<lambda>m. map fst (civs m)) (gd 100) = Some [''Rome'', ''(Rome)''])
   \<and> map Name (preloadGraphData_visiblePolities 100 ex_dataset) = [''Rome'', ''(Rome)'']
   \<and> isParenthetical ''(Rome)''
   \<and> map Name (updateMap_visiblePolities 100 ex_dataset) = [''Rome'']
   \<and> map_sum id (\<lambda>m. landArea (totals m))
         (calculateMetricsFast [] [] 100 (preloadGraphData_visiblePolities 100 ex_dataset))
       = Inr 10000000
   \<and> map_sum id (\<lambda>m. landArea (totals m))
         (calculateMetricsFast [] [] 100 (updateMap_visiblePolities 100 ex_dataset))
       = Inr 5000000"
proof -
  have "100 \<in> set preloadYears" by (simp add: preloadYears_def yearsFrom_set)
  moreover have "map Name (preloadGraphData_visiblePolities 100 ex_dataset) = [''Rome'', ''(Rome)'']"
    by (simp add: ex_preload_visible) (simp add: ex_dataset_def)
  moreover have "isParenthetical ''(Rome)''"
    by (simp add: isParenthetical_def startsWith_def endsWith_def)
  moreover have "map Name (updateMap_visiblePolities 100 ex_dataset) = [''Rome'']"
    by (simp add: ex_updateMap_visible) (simp add: ex_dataset_def)
  moreover have "map_sum id (\<lambda>m. landArea (totals m))
         (calculateMetricsFast [] [] 100 (preloadGraphData_visiblePolities 100 ex_dataset))
       = Inr 10000000"
    unfolding ex_preload_visible calculateMetricsFast_def ex_civData_preload
      getWorldStatsForYear_empty
    by (simp add: Let_def)
  moreover have "map_sum id (\<lambda>m. landArea (totals m))
         (calculateMetricsFast [] [] 100 (updateMap_visiblePolities 100 ex_dataset))
       = Inr 5000000"
    unfolding ex_updateMap_visible calculateMetricsFast_def ex_civData_updateMap
      getWorldStatsForYear_empty
    by (simp add: Let_def)
  ultimately show ?thesis using ex_preload_100 by simp
qed

subsection \<open>Temporal attribute resolver\<close>

lemma scanStep_pair:
  "scanStep yr y (p, f)
     = (if y < yr then Some y else p, if yr < y \<and> f = None then Some y else f)"
  by (simp add: scanStep_def)

lemma scan_past:
  "fst (fold (scanStep yr) ys (p, f))
     = (case filter (\<lambda>y. y < yr) ys of [] \<Rightarrow> p | z # zs \<Rightarrow> Some (last (z # zs)))"
proof (induction ys arbitrary: p f)
  case Nil then show ?case by simp
next
  case (Cons y ys)
  have "fst (fold (scanStep yr) (y # ys) (p, f))
        = fst (fold (scanStep yr) ys
                 (if y < yr then Some y else p, if yr < y \<and> f = None then Some y else f))"
    by (simp only: fold_simps scanStep_pair)
  also have "\<dots> = (case filter (\<lambda>y. y < yr) ys of
                       [] \<Rightarrow> (if y < yr then Some y else p)
                     | z # zs \<Rightarrow> Some (last (z # zs)))"
    by (rule Cons.IH)
  also have "\<dots> = (case filter (\<lambda>y. y < yr) (y # ys) of
                       [] \<Rightarrow> p | z # zs \<Rightarrow> Some (last (z # zs)))"
    by (cases "filter (\<lambda>y. y < yr) ys") simp_all
  finally show ?case .
qed

lemma scan_future:
  "snd (fold (scanStep yr) ys (p, f))
     = (case f of Some x \<Rightarrow> Some x
        | None \<Rightarrow> (case filter (\<lambda>y. yr < y) ys of [] \<Rightarrow> None | z # zs \<Rightarrow> Some z))"
proof (induction ys arbitrary: p f)
  case Nil then show ?case by (simp split: option.splits)
next
  case (Cons y ys)
  have "snd (fold (scanStep yr) (y # ys) (p, f))
        = snd (fold (scanStep yr) ys
                 (if y < yr then Some y else p, if yr < y \<and> f = None then Some y else f))"
    by (simp only: fold_simps scanStep_pair)
  also have "\<dots> = (case (if yr < y \<and> f = None then Some y else f) of Some x \<Rightarrow> Some x
        | None \<Rightarrow> (case filter (\<lambda>y. yr < y) ys of [] \<Rightarrow> None | z # zs \<Rightarrow> Some z))"
    by (rule Cons.IH)
  also have "\<dots> = (case f of Some x \<Rightarrow> Some x
        | None \<Rightarrow> (case filter (\<lambda>y. yr < y) (y # ys) of [] \<Rightarrow> None | z # zs \<Rightarrow> Some z))"
    by (cases f) simp_all
  finally show ?case .
qed

lemma scan_keys:
  assumes "fold (scanStep yr) (sort (map fst pops)) (None, None) = (p, f)"
  shows "(\<forall>y. p = Some y \<longrightarrow> map_of pops y \<noteq> None) \<and> (\<forall>y. f = Some y \<longrightarrow> map_of pops y \<noteq> None)"
proof -
  let ?ys = "sort (map fst pops)"
  have s: "set ?ys = fst ` set pops" by simp
  have "\<And>y. p = Some y \<Longrightarrow> y \<in> set ?ys"
  proof -
    fix y assume "p = Some y"
    with assms scan_past[of yr ?ys None None]
    have "(case filter (\<lambda>y. y < yr) ?ys of [] \<Rightarrow> None | z # zs \<Rightarrow> Some (last (z # zs))) = Some y"
      by (simp del: sort_key_simps)
    then obtain z zs where e: "filter (\<lambda>y. y < yr) ?ys = z # zs" "last (z # zs) = y"
      by (auto split: list.splits)
    have "last (z # zs) \<in> set (z # zs)" by (rule last_in_set) simp
    with e have "y \<in> set (filter (\<lambda>y. y < yr) ?ys)" by simp
    then show "y \<in> set ?ys" by simp
  qed
  moreover have "\<And>y. f = Some y \<Longrightarrow> y \<in> set ?ys"
  proof -
    fix y assume "f = Some y"
    with assms scan_future[of yr ?ys None None]
    have "(case filter (\<lambda>y. yr < y) ?ys of [] \<Rightarrow> None | z # zs \<Rightarrow> Some z) = Some y"
      by simp
    then obtain zs where e: "filter (\<lambda>y. yr < y) ?ys = y # zs"
      by (auto split: list.splits)
    have "y \<in> set (filter (\<lambda>y. yr < y) ?ys)" unfolding e by simp
    then show "y \<in> set ?ys" by simp
  qed
  ultimately show ?thesis unfolding s by (auto simp: map_of_eq_None_iff)
qed

lemma sorted_le_last:
  "sorted xs \<Longrightarrow> x \<in> set xs \<Longrightarrow> x \<le> last (xs :: int list)"
proof (induction xs)
  case Nil then show ?case by simp
next
  case (Cons a xs)
  show ?case
  proof (cases "xs = []")
    case True with Cons.prems show ?thesis by simp
  next
    case False
    then have "last xs \<in> set xs" by (rule last_in_set)
    with Cons False show ?thesis by auto
  qed
qed

lemma nearest_past_found:
  assumes key: "past \<in> fst ` set pops" and lt: "past < yr"
    and nearest: "\<forall>k \<in> fst ` set pops. k < yr \<longrightarrow> k \<le> past"
  shows "fst (fold (scanStep yr) (sort (map fst pops)) (None, None)) = Some past"
proof -
  let ?ys = "sort (map fst pops)"
  let ?zs = "filter (\<lambda>y. y < yr) ?ys"
  have mem: "past \<in> set ?zs" using key lt by simp
  then have ne: "?zs \<noteq> []" by (metis empty_iff list.set(1))
  have srt: "sorted ?zs" by (simp add: sorted_wrt_filter)
  have "past \<le> last ?zs" using sorted_le_last[OF srt mem] .
  moreover have "last ?zs \<in> set ?zs" using ne by (rule last_in_set)
  then have "last ?zs \<le> past" using nearest by auto
  ultimately have l: "last ?zs = past" by simp
  from ne obtain z zs' where e: "?zs = z # zs'" by (cases ?zs) auto
  have "fst (fold (scanStep yr) ?ys (None, None))
        = (case ?zs of [] \<Rightarrow> None | z # zs \<Rightarrow> Some (last (z # zs)))"
    by (rule scan_past)
  also have "\<dots> = Some (last ?zs)" unfolding e by (simp only: list.case)
  finally show ?thesis using l by (simp only:)
qed

text \<open>
  Claim C4. Let the series have no sample at the query year, let the query year be at or
  after \<^verbatim>\<open>minYear\<close>, and let \<open>past\<close> be the nearest attested year strictly before
  the query year, at a gap of at most 500 years. Then \<^verbatim>\<open>getPopulationForYear\<close> returns
  the value recorded at \<open>past\<close> unchanged, with \<open>past\<close> as its year, the gap as its
  \<^verbatim>\<open>gap\<close>, and the status \<^verbatim>\<open>interpolated\<close> for a gap of at most 50,
  \<^verbatim>\<open>estimated\<close> for a gap of at most 200 and \<^verbatim>\<open>projected\<close> otherwise.
\<close>

theorem past_value_within_500_years:
  assumes pops: "populations c = Some pops"
    and noexact: "map_of pops yr = None"
    and minY: "minYear c \<le> yr"
    and attested: "map_of pops past = Some v"
    and lt: "past < yr"
    and nearest: "\<forall>k \<in> fst ` set pops. k < yr \<longrightarrow> k \<le> past"
    and within: "yr - past \<le> 500"
  shows "getPopulationForYear c yr =
           Inr (Some \<lparr>pop = v, popYear = past,
                     status = (if yr - past \<le> 50 then Interpolated
                               else if yr - past \<le> 200 then Estimated else Projected),
                     gap = Some (yr - past)\<rparr>)"
proof -
  from attested have key: "past \<in> fst ` set pops"
    by (metis map_of_eq_None_iff option.distinct(1))
  obtain f where sc: "fold (scanStep yr) (sort (map fst pops)) (None, None) = (Some past, f)"
    using nearest_past_found[OF key lt nearest]
    by (cases "fold (scanStep yr) (sort (map fst pops)) (None, None)") auto
  show ?thesis
    using pops noexact minY attested within
    by (simp add: getPopulationForYear_def Let_def sc)
qed

theorem past_value_within_500_years_witness:
  "getPopulationForYear ex_city 50 =
           Inr (Some \<lparr>pop = 5000, popYear = - 100, status = Estimated, gap = Some 150\<rparr>)"
proof -
  have 1: "populations ex_city = Some [(- 100, 5000), (200, 20000)]" by (simp add: ex_city_def)
  have 2: "map_of [(- 100, 5000), (200, 20000)] (50::int) = (None :: int option)" by simp
  have 3: "minYear ex_city \<le> 50" by (simp add: ex_city_def)
  have 4: "map_of [(- 100, 5000), (200, 20000)] (- 100 :: int) = Some (5000::int)" by simp
  have 5: "(- 100 :: int) < 50" by simp
  have 6: "\<forall>k \<in> fst ` set [(- 100, 5000), (200, 20000::int)]. k < 50 \<longrightarrow> k \<le> (- 100 :: int)" by simp
  have 7: "50 - (- 100 :: int) \<le> 500" by simp
  from past_value_within_500_years[OF 1 2 3 4 5 6 7] show ?thesis by simp
qed

text \<open>
  Claim C5. For a city that has a population series, a query year strictly before the
  city's \<^verbatim>\<open>minYear\<close>, its first attested year, returns \<^verbatim>\<open>null\<close>: no exception and
  no other value.
\<close>

theorem null_before_minYear:
  assumes "populations c = Some pops" and "yr < minYear c"
  shows "getPopulationForYear c yr = Inr None"
  using assms by (simp add: getPopulationForYear_def Let_def)

theorem null_before_minYear_witness:
  "getPopulationForYear ex_city (- 150) = Inr None"
proof -
  have 1: "populations ex_city = Some [(- 100, 5000), (200, 20000)]" by (simp add: ex_city_def)
  have 2: "- 150 < minYear ex_city" by (simp add: ex_city_def)
  from null_before_minYear[OF 1 2] show ?thesis .
qed

subsection \<open>Ray casting above and below the bounding box\<close>







subsection \<open>The bounding box covers every vertex\<close>





















subsection \<open>The triangle in double precision\<close>

text \<open>The coordinates of the examples are doubles, and the operations of the test on the
  second and the third edge of the triangle round as follows.\<close>

lemma ex_double_c39: "toDouble (8782019273372467 / 2251799813685248) = Num (8782019273372467 / 2251799813685248)"
proof -
  have "toDouble (8782019273372467 / 2251799813685248) = Num (of_int 8782019273372467 * 2 powi (- 51))"
  proof (rule toDouble_eval[where k="1" and q="8782019273372467"])
    show "2 powi 1 \<le> \<bar>(8782019273372467 / 2251799813685248) :: real\<bar>" by (simp add: p_1 p_2 p_m51)
    show "\<bar>(8782019273372467 / 2251799813685248) :: real\<bar> < 2 powi (1 + 1)" by (simp add: p_1 p_2 p_m51)
    show "(- 51) = max (- 1074) (1 - 52 :: int)" by simp
    show "(8782019273372467 / 2251799813685248) / 2 powi (- 51) = (8782019273372467 :: real)" by (simp add: p_1 p_2 p_m51)
    show "roundHalfEven 8782019273372467 = 8782019273372467" by (simp add: roundHalfEven_def Let_def)
    show "\<bar>real_of_int 8782019273372467 * 2 powi (- 51)\<bar> < 2 ^ 1024" by (simp add: p_1 p_2 p_m51)
  qed
  then show ?thesis by (simp add: p_1 p_2 p_m51)
qed

lemma ex_double_c36: "toDouble (8106479329266893 / 2251799813685248) = Num (8106479329266893 / 2251799813685248)"
proof -
  have "toDouble (8106479329266893 / 2251799813685248) = Num (of_int 8106479329266893 * 2 powi (- 51))"
  proof (rule toDouble_eval[where k="1" and q="8106479329266893"])
    show "2 powi 1 \<le> \<bar>(8106479329266893 / 2251799813685248) :: real\<bar>" by (simp add: p_1 p_2 p_m51)
    show "\<bar>(8106479329266893 / 2251799813685248) :: real\<bar> < 2 powi (1 + 1)" by (simp add: p_1 p_2 p_m51)
    show "(- 51) = max (- 1074) (1 - 52 :: int)" by simp
    show "(8106479329266893 / 2251799813685248) / 2 powi (- 51) = (8106479329266893 :: real)" by (simp add: p_1 p_2 p_m51)
    show "roundHalfEven 8106479329266893 = 8106479329266893" by (simp add: roundHalfEven_def Let_def)
    show "\<bar>real_of_int 8106479329266893 * 2 powi (- 51)\<bar> < 2 ^ 1024" by (simp add: p_1 p_2 p_m51)
  qed
  then show ?thesis by (simp add: p_1 p_2 p_m51)
qed

lemma ex_double_c08: "toDouble (3602879701896397 / 4503599627370496) = Num (3602879701896397 / 4503599627370496)"
proof -
  have "toDouble (3602879701896397 / 4503599627370496) = Num (of_int 7205759403792794 * 2 powi (- 53))"
  proof (rule toDouble_eval[where k="(- 1)" and q="7205759403792794"])
    show "2 powi (- 1) \<le> \<bar>(3602879701896397 / 4503599627370496) :: real\<bar>" by (simp add: p_0 p_m1 p_m53)
    show "\<bar>(3602879701896397 / 4503599627370496) :: real\<bar> < 2 powi ((- 1) + 1)" by (simp add: p_0 p_m1 p_m53)
    show "(- 53) = max (- 1074) ((- 1) - 52 :: int)" by simp
    show "(3602879701896397 / 4503599627370496) / 2 powi (- 53) = (7205759403792794 :: real)" by (simp add: p_0 p_m1 p_m53)
    show "roundHalfEven 7205759403792794 = 7205759403792794" by (simp add: roundHalfEven_def Let_def)
    show "\<bar>real_of_int 7205759403792794 * 2 powi (- 53)\<bar> < 2 ^ 1024" by (simp add: p_0 p_m1 p_m53)
  qed
  then show ?thesis by (simp add: p_0 p_m1 p_m53)
qed

lemma ex_double_c13: "toDouble (5854679515581645 / 4503599627370496) = Num (5854679515581645 / 4503599627370496)"
proof -
  have "toDouble (5854679515581645 / 4503599627370496) = Num (of_int 5854679515581645 * 2 powi (- 52))"
  proof (rule toDouble_eval[where k="0" and q="5854679515581645"])
    show "2 powi 0 \<le> \<bar>(5854679515581645 / 4503599627370496) :: real\<bar>" by (simp add: p_0 p_1 p_m52)
    show "\<bar>(5854679515581645 / 4503599627370496) :: real\<bar> < 2 powi (0 + 1)" by (simp add: p_0 p_1 p_m52)
    show "(- 52) = max (- 1074) (0 - 52 :: int)" by simp
    show "(5854679515581645 / 4503599627370496) / 2 powi (- 52) = (5854679515581645 :: real)" by (simp add: p_0 p_1 p_m52)
    show "roundHalfEven 5854679515581645 = 5854679515581645" by (simp add: roundHalfEven_def Let_def)
    show "\<bar>real_of_int 5854679515581645 * 2 powi (- 52)\<bar> < 2 ^ 1024" by (simp add: p_0 p_1 p_m52)
  qed
  then show ?thesis by (simp add: p_0 p_1 p_m52)
qed

lemma ex_double_cx: "toDouble (7205759403792793 / 36028797018963968) = Num (7205759403792793 / 36028797018963968)"
proof -
  have "toDouble (7205759403792793 / 36028797018963968) = Num (of_int 7205759403792793 * 2 powi (- 55))"
  proof (rule toDouble_eval[where k="(- 3)" and q="7205759403792793"])
    show "2 powi (- 3) \<le> \<bar>(7205759403792793 / 36028797018963968) :: real\<bar>" by (simp add: p_m2 p_m3 p_m55)
    show "\<bar>(7205759403792793 / 36028797018963968) :: real\<bar> < 2 powi ((- 3) + 1)" by (simp add: p_m2 p_m3 p_m55)
    show "(- 55) = max (- 1074) ((- 3) - 52 :: int)" by simp
    show "(7205759403792793 / 36028797018963968) / 2 powi (- 55) = (7205759403792793 :: real)" by (simp add: p_m2 p_m3 p_m55)
    show "roundHalfEven 7205759403792793 = 7205759403792793" by (simp add: roundHalfEven_def Let_def)
    show "\<bar>real_of_int 7205759403792793 * 2 powi (- 55)\<bar> < 2 ^ 1024" by (simp add: p_m2 p_m3 p_m55)
  qed
  then show ?thesis by (simp add: p_m2 p_m3 p_m55)
qed

















text \<open>In exact arithmetic both edges at the western vertex are counted, and the point is
  outside.\<close>

lemma ex_triangle_exact:
  "\<not> pointInPolygon (ex_left_of_triangle, 1 / 2) ex_triangle"
  by (simp add: pointInPolygon_def ex_triangle_def ex_apex_def ex_west_def ex_mid_def
      edgeCrossed_def ex_left_of_triangle_def)







subsection \<open>Malformed geometry\<close>

lemma emptyOuterRing_iff: "emptyOuterRing rings \<longleftrightarrow> (\<exists>rs. rings = [] # rs)"
  by (cases rings) (auto simp: emptyOuterRing_def)

lemma distanceToPolygonEdge_empty: "distanceToPolygonEdge pt [] = None"
  by (simp add: distanceToPolygonEdge_def)

lemma pointInPolygon_empty: "pointInPolygon pt [] = False"
  by (simp add: pointInPolygon_def)

lemma multiContains_empty_parts:
  "list_all emptyOuterRing polys \<Longrightarrow> multiContains pt polys = Inr False"
  by (induction polys) (auto simp: emptyOuterRing_iff outerRing_def pointInPolygon_empty)

lemma multiDistance_empty_parts:
  "list_all emptyOuterRing polys \<Longrightarrow> multiDistance pt polys None = Inr None"
  by (induction polys)
     (auto simp: emptyOuterRing_iff outerRing_def distanceToPolygonEdge_empty minDistance_def)

lemma largestPart_empty_parts:
  "list_all emptyOuterRing polys \<Longrightarrow> largestPart polys (0, None) = Inr (0, None)"
  by (induction polys) (auto simp: emptyOuterRing_iff outerRing_def polygonArea_def)

text \<open>
  Claim C9 as stated fails: a \<^verbatim>\<open>null\<close> or \<^verbatim>\<open>undefined\<close> geometry makes
  \<^verbatim>\<open>pointInGeometry\<close> and \<^verbatim>\<open>getCentroid\<close> throw, since both read
  \<^verbatim>\<open>geometry.type\<close> first, and a polygon with no ring makes \<^verbatim>\<open>pointInGeometry\<close>
  throw.
\<close>

theorem null_geometry_throws:
  "pointInGeometry 1 2 None 0 = Inl TypeError
   \<and> getCentroid None = Inl TypeError
   \<and> pointInGeometry 1 2 (Some (Polygon [])) 0 = Inl TypeError"
  by (simp add: pointInGeometry_def getCentroid_def outerRing_def)

text \<open>
  Claim C9, amended. For a geometry object of an unknown type, a polygon whose outer ring
  is empty and a multipolygon whose parts all have an empty outer ring,
  \<^verbatim>\<open>pointInGeometry\<close> returns \<^verbatim>\<open>false\<close> at every tolerance and \<^verbatim>\<open>getCentroid\<close>
  returns \<^verbatim>\<open>null\<close>; neither throws. \<^verbatim>\<open>getCentroid\<close> returns \<^verbatim>\<open>null\<close> for a
  polygon with no ring as well.
\<close>

theorem empty_or_unknown_geometry_no_throw:
  assumes "emptyOrUnknown g"
  shows "pointInGeometry lon lat (Some g) tolerance = Inr False
       \<and> getCentroid (Some g) = Inr None
       \<and> getCentroid (Some (Polygon [])) = Inr None"
proof -
  have c: "getCentroid (Some (Polygon [])) = Inr None" by (simp add: getCentroid_def)
  have "pointInGeometry lon lat (Some g) tolerance = Inr False
       \<and> getCentroid (Some g) = Inr None"
  proof (cases g)
  case (Polygon rings)
  with assms obtain rs where "rings = [] # rs"
    by (auto simp: emptyOrUnknown_def emptyOuterRing_iff)
  with Polygon show ?thesis
    by (simp add: pointInGeometry_def getCentroid_def outerRing_def pointInPolygon_empty
        distanceToGeometryEdge_def distanceToPolygonEdge_empty)
next
  case (MultiPolygon polys)
  with assms have e: "list_all emptyOuterRing polys" by (simp add: emptyOrUnknown_def)
  show ?thesis
    using MultiPolygon multiContains_empty_parts[OF e] multiDistance_empty_parts[OF e]
      largestPart_empty_parts[OF e]
    by (simp add: pointInGeometry_def getCentroid_def distanceToGeometryEdge_def)
next
  case (OtherGeometry t)
  then show ?thesis
    by (simp add: pointInGeometry_def getCentroid_def distanceToGeometryEdge_def)
qed
  with c show ?thesis by simp
qed

theorem empty_or_unknown_geometry_no_throw_witness:
  "emptyOrUnknown (OtherGeometry ''Point'')
   \<and> pointInGeometry 1 2 (Some (OtherGeometry ''Point'')) 0 = Inr False
   \<and> getCentroid (Some (OtherGeometry ''Point'')) = Inr None
   \<and> emptyOrUnknown (MultiPolygon [[[]]])
   \<and> pointInGeometry 1 2 (Some (MultiPolygon [[[]]])) (15 / 100) = Inr False
   \<and> getCentroid (Some (MultiPolygon [[[]]])) = Inr None"
proof -
  have 1: "emptyOrUnknown (OtherGeometry ''Point'')" by (simp add: emptyOrUnknown_def)
  have 2: "emptyOrUnknown (MultiPolygon [[[]]])"
    by (simp add: emptyOrUnknown_def emptyOuterRing_def)
  from empty_or_unknown_geometry_no_throw[OF 1, of 1 2 0]
    empty_or_unknown_geometry_no_throw[OF 2, of 1 2 "15 / 100"] 1 2
  show ?thesis by simp
qed

subsection \<open>Location history\<close>

lemma collectHistory_filter:
  assumes "\<And>f. f \<in> set ps \<Longrightarrow> \<not> startsWith (Name f) CHR ''(''
             \<Longrightarrow> pointInGeometry lon lat (geometry f) 0 \<noteq> Inl TypeError"
  shows "collectHistory lon lat ps seen history
           = collectHistory lon lat (filter (inHistory lon lat) ps) seen history"
  using assms
proof (induction ps arbitrary: seen history)
  case Nil then show ?case by simp
next
  case (Cons f ps)
  have IH: "\<And>seen history. collectHistory lon lat ps seen history
           = collectHistory lon lat (filter (inHistory lon lat) ps) seen history"
    by (rule Cons.IH) (use Cons.prems in auto)
  show ?case
  proof (cases "startsWith (Name f) CHR ''(''")
    case True
    then have "\<not> inHistory lon lat f" by (simp add: inHistory_def)
    with True show ?thesis by (simp add: IH)
  next
    case False
    with Cons.prems[of f] have "pointInGeometry lon lat (geometry f) 0 \<noteq> Inl TypeError" by simp
    then obtain b where b: "pointInGeometry lon lat (geometry f) 0 = Inr b"
      by (cases "pointInGeometry lon lat (geometry f) 0") (auto intro: js_error.exhaust)
    show ?thesis
    proof (cases b)
      case True
      with b False have h: "inHistory lon lat f" by (simp add: inHistory_def)
      show ?thesis using h b True False by (simp add: IH Let_def)
    next
      case False': False
      with b have h: "\<not> inHistory lon lat f" by (simp add: inHistory_def)
      show ?thesis using h b False' False by (simp add: IH)
    qed
  qed
qed

lemma mergeStep_first: "mergeStep e [] = [e]"
  by (simp add: mergeStep_def)

lemma mergeStep_second:
  "mergeStep e [l] =
     (if hName l = hName e \<and> hFromYear e \<le> hToYear l + 5
      then [l\<lparr>hToYear := max (hToYear l) (hToYear e)\<rparr>] else [l, e])"
  by (simp add: mergeStep_def)

lemma mergeStep_snoc:
  "mergeStep e (ms @ [l]) =
     (if hName l = hName e \<and> hFromYear e \<le> hToYear l + 5
      then ms @ [l\<lparr>hToYear := max (hToYear l) (hToYear e)\<rparr>] else ms @ [l, e])"
  by (simp add: mergeStep_def)

lemma mergeStep_not_Nil: "mergeStep e ms \<noteq> []"
  by (cases ms rule: rev_cases) (simp_all add: mergeStep_first mergeStep_snoc)

lemma fold_mergeStep_not_Nil: "ms \<noteq> [] \<Longrightarrow> fold mergeStep es ms \<noteq> []"
  by (induction es arbitrary: ms) (simp_all add: mergeStep_not_Nil)

lemma mergeStep_prefix:
  "ms \<noteq> [] \<Longrightarrow> mergeStep e (pre @ ms) = pre @ mergeStep e ms"
proof (cases ms rule: rev_cases)
  case Nil then show "ms \<noteq> [] \<Longrightarrow> ?thesis" by simp
next
  case (snoc ms' l)
  have "mergeStep e ((pre @ ms') @ [l]) = pre @ mergeStep e (ms' @ [l])"
    by (simp only: mergeStep_snoc) simp
  then show ?thesis using snoc by simp
qed

lemma fold_mergeStep_prefix:
  "ms \<noteq> [] \<Longrightarrow> fold mergeStep es (pre @ ms) = pre @ fold mergeStep es ms"
proof (induction es arbitrary: ms)
  case Nil then show ?case by simp
next
  case (Cons e es)
  from Cons.IH[OF mergeStep_not_Nil, of e ms] Cons.prems
  show ?case by (simp add: mergeStep_prefix)
qed

lemma mergeStep_adjacent:
  assumes "hName a = hName b" and "hFromYear b \<le> hToYear a + 5"
  shows "mergeStep b (mergeStep a ms)
           = mergeStep (a\<lparr>hToYear := max (hToYear a) (hToYear b)\<rparr>) ms"
proof (cases ms rule: rev_cases)
  case Nil
  with assms show ?thesis by (simp add: mergeStep_first mergeStep_second)
next
  case (snoc ms' l)
  let ?a' = "a\<lparr>hToYear := max (hToYear a) (hToYear b)\<rparr>"
  show ?thesis
  proof (cases "hName l = hName a \<and> hFromYear a \<le> hToYear l + 5")
    case True
    then have 1: "mergeStep a (ms' @ [l]) = ms' @ [l\<lparr>hToYear := max (hToYear l) (hToYear a)\<rparr>]"
      by (simp add: mergeStep_snoc)
    from True assms
    have 2: "mergeStep b (ms' @ [l\<lparr>hToYear := max (hToYear l) (hToYear a)\<rparr>])
               = ms' @ [l\<lparr>hToYear := max (max (hToYear l) (hToYear a)) (hToYear b)\<rparr>]"
      by (simp add: mergeStep_snoc)
    from True have 3: "mergeStep ?a' (ms' @ [l])
               = ms' @ [l\<lparr>hToYear := max (hToYear l) (max (hToYear a) (hToYear b))\<rparr>]"
      by (simp add: mergeStep_snoc)
    show ?thesis unfolding snoc 1 2 3 by (simp add: max.assoc)
  next
    case False
    then have 1: "mergeStep a (ms' @ [l]) = (ms' @ [l]) @ [a]"
      by (auto simp: mergeStep_snoc)
    from assms have 2: "mergeStep b ((ms' @ [l]) @ [a]) = (ms' @ [l]) @ [?a']"
      by (simp only: mergeStep_snoc) simp
    from False have 3: "mergeStep ?a' (ms' @ [l]) = (ms' @ [l]) @ [?a']"
      by (auto simp: mergeStep_snoc)
    show ?thesis unfolding snoc 1 2 3 by (rule refl)
  qed
qed

lemma merged_toYear_attained:
  "m \<in> set (fold mergeStep es []) \<Longrightarrow> \<exists>x \<in> set es. hName x = hName m \<and> hToYear x = hToYear m"
proof (induction es arbitrary: m rule: rev_induct)
  case Nil then show ?case by simp
next
  case (snoc e es)
  let ?M = "fold mergeStep es []"
  from snoc.prems have mem: "m \<in> set (mergeStep e ?M)" by simp
  show ?case
  proof (cases ?M rule: rev_cases)
    case Nil
    with mem have "m = e" by (simp add: mergeStep_first)
    then show ?thesis by simp
  next
    case (snoc ms l)
    note M = snoc
    have l: "l \<in> set ?M" using M by simp
    show ?thesis
    proof (cases "hName l = hName e \<and> hFromYear e \<le> hToYear l + 5")
      case True
      with mem M have "m \<in> set ms \<or> m = l\<lparr>hToYear := max (hToYear l) (hToYear e)\<rparr>"
        by (auto simp: mergeStep_snoc)
      then show ?thesis
      proof
        assume "m \<in> set ms"
        then have "m \<in> set ?M" using M by simp
        from snoc.IH[OF this] show ?thesis by auto
      next
        assume m: "m = l\<lparr>hToYear := max (hToYear l) (hToYear e)\<rparr>"
        show ?thesis
        proof (cases "hToYear l \<le> hToYear e")
          case True
          with m \<open>hName l = hName e \<and> hFromYear e \<le> hToYear l + 5\<close>
          have "hName e = hName m \<and> hToYear e = hToYear m" by (simp add: max_def)
          then show ?thesis by auto
        next
          case False
          with m have "hName l = hName m \<and> hToYear l = hToYear m" by (simp add: max_def)
          moreover from snoc.IH[OF l] obtain x where "x \<in> set es" "hName x = hName l" "hToYear x = hToYear l"
            by auto
          ultimately show ?thesis by auto
        qed
      qed
    next
      case False
      with mem M have "m \<in> set ?M \<or> m = e" by (auto simp: mergeStep_snoc)
      then show ?thesis using snoc.IH[of m] by auto
    qed
  qed
qed

lemma last_mergeStep:
  assumes "\<forall>x \<in> set xs. hName x = hName a \<longrightarrow> hToYear x \<le> hToYear a"
  shows "hName (last (mergeStep a (fold mergeStep xs []))) = hName a
       \<and> hToYear (last (mergeStep a (fold mergeStep xs []))) = hToYear a"
proof (cases "fold mergeStep xs []" rule: rev_cases)
  case Nil then show ?thesis by (simp add: mergeStep_first)
next
  case (snoc ms l)
  show ?thesis
  proof (cases "hName l = hName a \<and> hFromYear a \<le> hToYear l + 5")
    case True
    have "l \<in> set (fold mergeStep xs [])" using snoc by simp
    from merged_toYear_attained[OF this] obtain x where
      "x \<in> set xs" "hName x = hName l" "hToYear x = hToYear l" by auto
    with assms True have "hToYear l \<le> hToYear a" by auto
    with True snoc show ?thesis by (simp add: mergeStep_snoc max_def)
  next
    case False
    with snoc show ?thesis by (auto simp: mergeStep_snoc)
  qed
qed

lemma hd_mergeStep:
  "ms \<noteq> [] \<Longrightarrow> hName (hd (mergeStep e ms)) = hName (hd ms)
     \<and> hFromYear (hd (mergeStep e ms)) = hFromYear (hd ms)"
proof (cases ms rule: rev_cases)
  case Nil then show "ms \<noteq> [] \<Longrightarrow> ?thesis" by simp
next
  case (snoc ms' l)
  show ?thesis unfolding snoc mergeStep_snoc by (cases ms') auto
qed

lemma hd_fold_mergeStep:
  "ms \<noteq> [] \<Longrightarrow> hName (hd (fold mergeStep es ms)) = hName (hd ms)
     \<and> hFromYear (hd (fold mergeStep es ms)) = hFromYear (hd ms)"
proof (induction es arbitrary: ms)
  case Nil then show ?case by simp
next
  case (Cons e es)
  from Cons.IH[OF mergeStep_not_Nil, of e ms] hd_mergeStep[OF Cons.prems, of e]
  show ?case by simp
qed

lemma merged_fromYear_attained:
  "m \<in> set (fold mergeStep es []) \<Longrightarrow> \<exists>x \<in> set es. hFromYear x = hFromYear m"
proof (induction es arbitrary: m rule: rev_induct)
  case Nil then show ?case by simp
next
  case (snoc e es)
  let ?M = "fold mergeStep es []"
  from snoc.prems have mem: "m \<in> set (mergeStep e ?M)" by simp
  show ?case
  proof (cases ?M rule: rev_cases)
    case Nil
    with mem have "m = e" by (simp add: mergeStep_first)
    then show ?thesis by simp
  next
    case (snoc ms l)
    note M = snoc
    have l: "l \<in> set ?M" using M by simp
    from mem M have "m \<in> set ?M \<or> m = e \<or> m = l\<lparr>hToYear := max (hToYear l) (hToYear e)\<rparr>"
      by (auto simp: mergeStep_snoc split: if_splits)
    then show ?thesis
    proof (elim disjE)
      assume "m \<in> set ?M"
      from snoc.IH[OF this] show ?thesis by auto
    next
      assume "m = e" then show ?thesis by simp
    next
      assume "m = l\<lparr>hToYear := max (hToYear l) (hToYear e)\<rparr>"
      then have "hFromYear m = hFromYear l" by simp
      with snoc.IH[OF l] show ?thesis by auto
    qed
  qed
qed

lemma fold_mergeStep_keeps_last:
  "\<exists>m \<in> set (fold mergeStep ys (ms @ [c])).
      hName m = hName c \<and> hFromYear m = hFromYear c \<and> hToYear c \<le> hToYear m"
proof (induction ys arbitrary: ms c)
  case Nil then show ?case by simp
next
  case (Cons y ys)
  show ?case
  proof (cases "hName c = hName y \<and> hFromYear y \<le> hToYear c + 5")
    case True
    let ?c' = "c\<lparr>hToYear := max (hToYear c) (hToYear y)\<rparr>"
    from True have "mergeStep y (ms @ [c]) = ms @ [?c']" by (simp add: mergeStep_snoc)
    with Cons.IH[of ms ?c'] show ?thesis by auto
  next
    case False
    then have "mergeStep y (ms @ [c]) = (ms @ [c]) @ [y]" by (auto simp: mergeStep_snoc)
    moreover have "fold mergeStep ys ((ms @ [c]) @ [y]) = (ms @ [c]) @ fold mergeStep ys [y]"
      by (rule fold_mergeStep_prefix) simp
    ultimately have "fold mergeStep (y # ys) (ms @ [c]) = (ms @ [c]) @ fold mergeStep ys [y]"
      by (simp only: fold_Cons comp_apply)
    then show ?thesis by auto
  qed
qed

lemma merged_interval_covers:
  assumes same: "hName a = hName b"
    and sorted: "\<forall>x \<in> set xs. hFromYear x \<le> hFromYear a"
  shows "\<exists>m \<in> set (fold mergeStep (xs @ a\<lparr>hToYear := max (hToYear a) (hToYear b)\<rparr> # ys) []).
           hName m = hName a \<and> hFromYear m \<le> hFromYear a
           \<and> max (hToYear a) (hToYear b) \<le> hToYear m"
proof -
  let ?a' = "a\<lparr>hToYear := max (hToYear a) (hToYear b)\<rparr>"
  let ?M = "fold mergeStep xs []"
  have "\<exists>ms c. mergeStep ?a' ?M = ms @ [c] \<and> hName c = hName a
          \<and> hFromYear c \<le> hFromYear a \<and> max (hToYear a) (hToYear b) \<le> hToYear c"
  proof (cases ?M rule: rev_cases)
    case Nil
    then have "mergeStep ?a' ?M = [] @ [?a']" by (simp add: mergeStep_first)
    then show ?thesis by (intro exI[of _ "[]"] exI[of _ ?a']) simp
  next
    case (snoc ms l)
    show ?thesis
    proof (cases "hName l = hName ?a' \<and> hFromYear ?a' \<le> hToYear l + 5")
      case True
      let ?c = "l\<lparr>hToYear := max (hToYear l) (hToYear ?a')\<rparr>"
      have "l \<in> set ?M" using snoc by simp
      from merged_fromYear_attained[OF this] sorted have "hFromYear l \<le> hFromYear a" by auto
      moreover from True snoc have "mergeStep ?a' ?M = ms @ [?c]" by (simp add: mergeStep_snoc)
      ultimately show ?thesis using True
        by (intro exI[of _ ms] exI[of _ ?c]) simp
    next
      case False
      with snoc have "mergeStep ?a' ?M = (ms @ [l]) @ [?a']" by (auto simp: mergeStep_snoc)
      then show ?thesis by (intro exI[of _ "ms @ [l]"] exI[of _ ?a']) simp
    qed
  qed
  then obtain ms c where mc: "mergeStep ?a' ?M = ms @ [c]" and c: "hName c = hName a"
    "hFromYear c \<le> hFromYear a" "max (hToYear a) (hToYear b) \<le> hToYear c" by blast
  have "fold mergeStep (xs @ ?a' # ys) [] = fold mergeStep ys (ms @ [c])"
    using mc by simp
  with fold_mergeStep_keeps_last[of ys ms c] c show ?thesis
    by (metis order_trans)
qed

lemma collectHistory_sorted:
  assumes "collectHistory lon lat ps seen hist = Inr H"
    and "sorted (map FromYear ps)" and "sorted (map hFromYear hist)"
    and "\<forall>h \<in> set hist. \<forall>p \<in> set ps. hFromYear h \<le> FromYear p"
  shows "sorted (map hFromYear H)"
  using assms
proof (induction ps arbitrary: seen hist)
  case Nil then show ?case by simp
next
  case (Cons p ps)
  have tail: "sorted (map FromYear ps)" using Cons.prems(2) by simp
  have bound: "\<forall>h \<in> set hist. \<forall>q \<in> set ps. hFromYear h \<le> FromYear q"
    using Cons.prems(4) by simp
  have skip: "collectHistory lon lat ps seen hist = Inr H \<Longrightarrow> ?case"
    by (rule Cons.IH[OF _ tail Cons.prems(3) bound])
  have add: "collectHistory lon lat ps ((Name p, FromYear p, ToYear p) # seen)
               (hist @ [entryOf p]) = Inr H \<Longrightarrow> ?case"
  proof -
    assume c: "collectHistory lon lat ps ((Name p, FromYear p, ToYear p) # seen)
               (hist @ [entryOf p]) = Inr H"
    have s: "sorted (map hFromYear (hist @ [entryOf p]))"
      using Cons.prems(3,4) by (auto simp: sorted_append entryOf_def)
    have b: "\<forall>h \<in> set (hist @ [entryOf p]). \<forall>q \<in> set ps. hFromYear h \<le> FromYear q"
      using bound Cons.prems(2) by (auto simp: entryOf_def)
    show ?case by (rule Cons.IH[OF c tail s b])
  qed
  from Cons.prems(1) skip add show ?case
    by (auto simp: Let_def split: if_splits sum.splits bool.splits)
qed

lemma ex_square_contains: "pointInGeometry 5 5 (Some ex_square) 0 = Inr True"
  by (simp add: ex_square_def pointInGeometry_def outerRing_def pointInPolygon_def
      edgeCrossed_def)

lemma ex_elsewhere_misses: "pointInGeometry 5 5 (geometry ex_elsewhere) 0 = Inr False"
  by (simp add: ex_elsewhere_def pointInGeometry_def outerRing_def pointInPolygon_def
      edgeCrossed_def)

lemma ex_inHistory:
  "inHistory 5 5 ex_kingdom_early" "inHistory 5 5 ex_kingdom_late"
  "inHistory 5 5 ex_kingdom_restored"
  "\<not> inHistory 5 5 ex_wrapper" "\<not> inHistory 5 5 ex_elsewhere"
  by (simp_all add: inHistory_def ex_elsewhere_misses)
     (simp_all add: ex_kingdom_early_def ex_kingdom_late_def ex_kingdom_restored_def
        ex_wrapper_def ex_elsewhere_def ex_square_contains startsWith_def)

lemma ex_history_sorted:
  "sort_key FromYear [ex_kingdom_late, ex_wrapper, ex_republic, ex_kingdom_early,
                      ex_elsewhere, ex_tribe, ex_kingdom_early]
     = [ex_tribe, ex_wrapper, ex_kingdom_early, ex_kingdom_early, ex_elsewhere,
        ex_kingdom_late, ex_republic]"
  "sort_key FromYear [ex_republic, ex_kingdom_restored, ex_tribe, ex_kingdom_early]
     = [ex_tribe, ex_kingdom_early, ex_kingdom_restored, ex_republic]"
  "sort_key FromYear [ex_dynasty_after, ex_dynasty_inner, ex_dynasty_long]
     = [ex_dynasty_long, ex_dynasty_inner, ex_dynasty_after]"
  by (simp_all add: ex_kingdom_early_def ex_kingdom_late_def ex_kingdom_restored_def
        ex_wrapper_def ex_elsewhere_def ex_tribe_def ex_republic_def
        ex_dynasty_long_def ex_dynasty_inner_def ex_dynasty_after_def)

lemma ex_collect_merging:
  "collectHistory 5 5
     (sort_key FromYear [ex_kingdom_late, ex_wrapper, ex_republic, ex_kingdom_early,
                         ex_elsewhere, ex_tribe, ex_kingdom_early]) [] []
     = Inr ([entryOf ex_tribe] @ entryOf ex_kingdom_early # entryOf ex_kingdom_late
              # [entryOf ex_republic])"
proof -
  have e: "Name ex_elsewhere = ''Elsewhere''" by (simp add: ex_elsewhere_def)
  show ?thesis
    unfolding ex_history_sorted
    by (simp add: ex_kingdom_early_def ex_kingdom_late_def ex_wrapper_def ex_tribe_def
          ex_republic_def startsWith_def ex_square_contains ex_elsewhere_misses e Let_def)
qed

lemma ex_collect_apart:
  "collectHistory 5 5
     (sort_key FromYear [ex_republic, ex_kingdom_restored, ex_tribe, ex_kingdom_early]) [] []
     = Inr ([entryOf ex_tribe] @ entryOf ex_kingdom_early # entryOf ex_kingdom_restored
              # [entryOf ex_republic])"
  unfolding ex_history_sorted
  by (simp add: ex_kingdom_early_def ex_kingdom_restored_def ex_tribe_def
        ex_republic_def startsWith_def ex_square_contains Let_def)

lemma ex_collect_overlap:
  "collectHistory 5 5
     (sort_key FromYear [ex_dynasty_after, ex_dynasty_inner, ex_dynasty_long]) [] []
     = Inr [entryOf ex_dynasty_long, entryOf ex_dynasty_inner, entryOf ex_dynasty_after]"
  unfolding ex_history_sorted
  by (simp add: ex_dynasty_long_def ex_dynasty_inner_def ex_dynasty_after_def
        startsWith_def ex_square_contains Let_def)

text \<open>
  Claim C6, as first stated, at three fragments of one name. The point lies in a fragment
  valid from 100 to 200, in a second one valid from 120 to 150 and in a third one valid
  from 203 to 250. The third follows the second in the history and the gap between them
  is 53 years, so the claim gives two distinct entries; the loop compares the third
  fragment with the interval merged so far, which ends in 200, and returns the single
  entry from 100 to 250.
\<close>

theorem overlapping_fragment_bridges_gap:
  "collectHistory 5 5
     (sort_key FromYear [ex_dynasty_after, ex_dynasty_inner, ex_dynasty_long]) [] []
     = Inr [entryOf ex_dynasty_long, entryOf ex_dynasty_inner, entryOf ex_dynasty_after]
   \<and> Name ex_dynasty_inner = Name ex_dynasty_after
   \<and> FromYear ex_dynasty_after - ToYear ex_dynasty_inner = 53
   \<and> getLocationHistory 5 5 [ex_dynasty_after, ex_dynasty_inner, ex_dynasty_long]
     = Inr [\<lparr>hName = ''Dynasty K'', hFromYear = 100, hToYear = 250, hArea = Some 900,
              hPolity = ex_dynasty_long\<rparr>]"
proof -
  have "sort_key hFromYear [entryOf ex_dynasty_long, entryOf ex_dynasty_inner,
                            entryOf ex_dynasty_after]
        = [entryOf ex_dynasty_long, entryOf ex_dynasty_inner, entryOf ex_dynasty_after]"
    by (simp add: entryOf_def ex_dynasty_long_def ex_dynasty_inner_def ex_dynasty_after_def)
  then have "getLocationHistory 5 5 [ex_dynasty_after, ex_dynasty_inner, ex_dynasty_long]
     = Inr (fold mergeStep [entryOf ex_dynasty_long, entryOf ex_dynasty_inner,
                            entryOf ex_dynasty_after] [])"
    unfolding getLocationHistory_def Let_def ex_collect_overlap by simp
  also have "fold mergeStep [entryOf ex_dynasty_long, entryOf ex_dynasty_inner,
                            entryOf ex_dynasty_after] []
      = [\<lparr>hName = ''Dynasty K'', hFromYear = 100, hToYear = 250, hArea = Some 900,
              hPolity = ex_dynasty_long\<rparr>]"
    by (simp add: mergeStep_first mergeStep_second entryOf_def)
       (simp add: ex_dynasty_long_def ex_dynasty_inner_def ex_dynasty_after_def)
  finally show ?thesis
    using ex_collect_overlap
    by (simp add: ex_dynasty_inner_def ex_dynasty_after_def)
qed

text \<open>
  Claim C6, amended. Let the history of the point, as the collecting loop builds it (the
  fragments that contain the point, names starting with a parenthesis left out, the first
  of each name and interval, in the order of \<^verbatim>\<open>FromYear\<close>), hold the entry \<open>a\<close>
  directly followed by the entry \<open>b\<close> of the same name, after any entries \<open>xs\<close> and
  before any entries \<open>ys\<close>.

  \<^item> If the gap \<open>hFromYear b - hToYear a\<close> is at most 5, the two are merged:
    \<^verbatim>\<open>getLocationHistory\<close> returns what it returns for the history in which the two
    are the single entry \<open>a\<close> with \<^verbatim>\<open>toYear\<close> the maximum of the two, and one
    interval of the result bears the name, starts no later than \<open>a\<close> and ends no
    earlier than \<open>a\<close> and \<open>b\<close>.

  \<^item> If the gap is greater than 5 and no entry of that name before \<open>a\<close> ends after
    \<open>a\<close>, the two are distinct: the result is the merged history up to \<open>a\<close>, whose
    last interval bears the name and ends with \<open>a\<close>, followed by the merged history
    from \<open>b\<close>, whose first interval bears the name and starts with \<open>b\<close>.

  The loop compares each entry with the interval merged so far, so an earlier entry of
  the name that ends after \<open>a\<close> can bridge a gap greater than 5.
\<close>

theorem adjacent_same_name_fragments_merge:
  assumes collected: "collectHistory lon lat (sort_key FromYear allPolities) [] []
                        = Inr (xs @ a # b # ys)"
    and same: "hName a = hName b"
  shows "(hFromYear b - hToYear a \<le> 5 \<longrightarrow>
            (\<exists>out. getLocationHistory lon lat allPolities = Inr out
               \<and> out = fold mergeStep (xs @ a\<lparr>hToYear := max (hToYear a) (hToYear b)\<rparr> # ys) []
               \<and> (\<exists>m \<in> set out. hName m = hName a \<and> hFromYear m \<le> hFromYear a
                      \<and> hToYear a \<le> hToYear m \<and> hToYear b \<le> hToYear m)))
       \<and> (5 < hFromYear b - hToYear a
            \<and> (\<forall>x \<in> set xs. hName x = hName a \<longrightarrow> hToYear x \<le> hToYear a) \<longrightarrow>
            getLocationHistory lon lat allPolities
              = Inr (fold mergeStep (xs @ [a]) [] @ fold mergeStep (b # ys) [])
            \<and> hName (last (fold mergeStep (xs @ [a]) [])) = hName a
            \<and> hToYear (last (fold mergeStep (xs @ [a]) [])) = hToYear a
            \<and> hName (hd (fold mergeStep (b # ys) [])) = hName b
            \<and> hFromYear (hd (fold mergeStep (b # ys) [])) = hFromYear b)"
proof -
  let ?H = "xs @ a # b # ys"
  let ?M = "fold mergeStep xs []"
  have srt: "sorted (map hFromYear ?H)"
    by (rule collectHistory_sorted[OF collected]) simp_all
  then have s: "sort_key hFromYear ?H = ?H" by (rule sort_key_id_if_sorted)
  from srt have before: "\<forall>x \<in> set xs. hFromYear x \<le> hFromYear a"
    by (simp add: sorted_append)
  have g: "getLocationHistory lon lat allPolities = Inr (fold mergeStep ?H [])"
    unfolding getLocationHistory_def Let_def collected sum.case s by (rule refl)
  have f: "fold mergeStep ?H [] = fold mergeStep ys (mergeStep b (mergeStep a ?M))" by simp
  have A: "hFromYear b - hToYear a \<le> 5 \<Longrightarrow>
            (\<exists>out. getLocationHistory lon lat allPolities = Inr out
               \<and> out = fold mergeStep (xs @ a\<lparr>hToYear := max (hToYear a) (hToYear b)\<rparr> # ys) []
               \<and> (\<exists>m \<in> set out. hName m = hName a \<and> hFromYear m \<le> hFromYear a
                      \<and> hToYear a \<le> hToYear m \<and> hToYear b \<le> hToYear m))"
  proof -
    assume "hFromYear b - hToYear a \<le> 5"
    then have "hFromYear b \<le> hToYear a + 5" by simp
    from mergeStep_adjacent[OF same this, of ?M]
    have "getLocationHistory lon lat allPolities
              = Inr (fold mergeStep (xs @ a\<lparr>hToYear := max (hToYear a) (hToYear b)\<rparr> # ys) [])"
      unfolding g f by simp
    moreover from merged_interval_covers[OF same before, of ys]
    have "\<exists>m \<in> set (fold mergeStep (xs @ a\<lparr>hToYear := max (hToYear a) (hToYear b)\<rparr> # ys) []).
            hName m = hName a \<and> hFromYear m \<le> hFromYear a
            \<and> hToYear a \<le> hToYear m \<and> hToYear b \<le> hToYear m"
      by auto
    ultimately show ?thesis by blast
  qed
  have B: "5 < hFromYear b - hToYear a
            \<Longrightarrow> (\<forall>x \<in> set xs. hName x = hName a \<longrightarrow> hToYear x \<le> hToYear a) \<Longrightarrow>
            getLocationHistory lon lat allPolities
              = Inr (fold mergeStep (xs @ [a]) [] @ fold mergeStep (b # ys) [])
            \<and> hName (last (fold mergeStep (xs @ [a]) [])) = hName a
            \<and> hToYear (last (fold mergeStep (xs @ [a]) [])) = hToYear a
            \<and> hName (hd (fold mergeStep (b # ys) [])) = hName b
            \<and> hFromYear (hd (fold mergeStep (b # ys) [])) = hFromYear b"
  proof -
    assume gap: "5 < hFromYear b - hToYear a"
      and top: "\<forall>x \<in> set xs. hName x = hName a \<longrightarrow> hToYear x \<le> hToYear a"
    let ?Ma = "mergeStep a ?M"
    have Ma: "fold mergeStep (xs @ [a]) [] = ?Ma" by simp
    note l = last_mergeStep[OF top]
    have ne: "?Ma \<noteq> []" by (rule mergeStep_not_Nil)
    then obtain ms c where mc: "?Ma = ms @ [c]" by (cases ?Ma rule: rev_cases) auto
    with l have c: "hName c = hName a" "hToYear c = hToYear a" by simp_all
    have "mergeStep b ?Ma = ?Ma @ [b]"
      unfolding mc using c gap by (simp add: mergeStep_snoc)
    then have "fold mergeStep ?H [] = fold mergeStep ys (?Ma @ [b])" unfolding f by simp
    also have "\<dots> = ?Ma @ fold mergeStep ys [b]"
      by (rule fold_mergeStep_prefix) simp
    also have "fold mergeStep ys [b] = fold mergeStep (b # ys) []" by (simp add: mergeStep_first)
    finally have e: "fold mergeStep ?H [] = ?Ma @ fold mergeStep (b # ys) []" .
    have h: "hName (hd (fold mergeStep (b # ys) [])) = hName b
            \<and> hFromYear (hd (fold mergeStep (b # ys) [])) = hFromYear b"
      using hd_fold_mergeStep[of "[b]" ys] by (simp add: mergeStep_first)
    from g e l h show ?thesis unfolding Ma by simp
  qed
  from A B show ?thesis by blast
qed


theorem adjacent_same_name_fragments_merge_witness:
  "collectHistory 5 5
     (sort_key FromYear [ex_kingdom_late, ex_wrapper, ex_republic, ex_kingdom_early,
                         ex_elsewhere, ex_tribe, ex_kingdom_early]) [] []
     = Inr ([entryOf ex_tribe] @ entryOf ex_kingdom_early # entryOf ex_kingdom_late
              # [entryOf ex_republic])
   \<and> hFromYear (entryOf ex_kingdom_late) - hToYear (entryOf ex_kingdom_early) = 3
   \<and> getLocationHistory 5 5 [ex_kingdom_late, ex_wrapper, ex_republic, ex_kingdom_early,
                              ex_elsewhere, ex_tribe, ex_kingdom_early]
     = Inr [entryOf ex_tribe,
            \<lparr>hName = ''Kingdom X'', hFromYear = 100, hToYear = 200, hArea = Some 1000,
              hPolity = ex_kingdom_early\<rparr>,
            entryOf ex_republic]
   \<and> collectHistory 5 5
     (sort_key FromYear [ex_republic, ex_kingdom_restored, ex_tribe, ex_kingdom_early]) [] []
     = Inr ([entryOf ex_tribe] @ entryOf ex_kingdom_early # entryOf ex_kingdom_restored
              # [entryOf ex_republic])
   \<and> hFromYear (entryOf ex_kingdom_restored) - hToYear (entryOf ex_kingdom_early) = 6
   \<and> getLocationHistory 5 5 [ex_republic, ex_kingdom_restored, ex_tribe, ex_kingdom_early]
     = Inr [entryOf ex_tribe, entryOf ex_kingdom_early, entryOf ex_kingdom_restored,
            entryOf ex_republic]"
proof -
  have n1: "hName (entryOf ex_kingdom_early) = hName (entryOf ex_kingdom_late)"
    by (simp add: entryOf_def ex_kingdom_early_def ex_kingdom_late_def)
  have n2: "hName (entryOf ex_kingdom_early) = hName (entryOf ex_kingdom_restored)"
    by (simp add: entryOf_def ex_kingdom_early_def ex_kingdom_restored_def)
  have g1: "hFromYear (entryOf ex_kingdom_late) - hToYear (entryOf ex_kingdom_early) = 3"
    by (simp add: entryOf_def ex_kingdom_early_def ex_kingdom_late_def)
  have g2: "hFromYear (entryOf ex_kingdom_restored) - hToYear (entryOf ex_kingdom_early) = 6"
    by (simp add: entryOf_def ex_kingdom_early_def ex_kingdom_restored_def)
  have t2: "\<forall>x \<in> set [entryOf ex_tribe]. hName x = hName (entryOf ex_kingdom_early)
              \<longrightarrow> hToYear x \<le> hToYear (entryOf ex_kingdom_early)"
    by (simp add: entryOf_def ex_tribe_def ex_kingdom_early_def)
  have m1: "fold mergeStep ([entryOf ex_tribe]
              @ (entryOf ex_kingdom_early)\<lparr>hToYear := max (hToYear (entryOf ex_kingdom_early))
                                                       (hToYear (entryOf ex_kingdom_late))\<rparr>
              # [entryOf ex_republic]) []
            = [entryOf ex_tribe,
               \<lparr>hName = ''Kingdom X'', hFromYear = 100, hToYear = 200, hArea = Some 1000,
                 hPolity = ex_kingdom_early\<rparr>,
               entryOf ex_republic]"
    by (simp add: mergeStep_def entryOf_def)
       (simp add: ex_tribe_def ex_kingdom_early_def ex_kingdom_late_def ex_republic_def)
  have m2: "fold mergeStep ([entryOf ex_tribe] @ [entryOf ex_kingdom_early]) []
              @ fold mergeStep (entryOf ex_kingdom_restored # [entryOf ex_republic]) []
            = [entryOf ex_tribe, entryOf ex_kingdom_early, entryOf ex_kingdom_restored,
               entryOf ex_republic]"
    by (simp add: mergeStep_def entryOf_def)
       (simp add: ex_tribe_def ex_kingdom_early_def ex_kingdom_restored_def ex_republic_def)
  from adjacent_same_name_fragments_merge[OF ex_collect_merging n1, THEN conjunct1] g1
  have "\<exists>out. getLocationHistory 5 5 [ex_kingdom_late, ex_wrapper, ex_republic, ex_kingdom_early,
                              ex_elsewhere, ex_tribe, ex_kingdom_early] = Inr out
          \<and> out = fold mergeStep ([entryOf ex_tribe]
              @ (entryOf ex_kingdom_early)\<lparr>hToYear := max (hToYear (entryOf ex_kingdom_early))
                                                       (hToYear (entryOf ex_kingdom_late))\<rparr>
              # [entryOf ex_republic]) []"
    by auto
  then have a: "getLocationHistory 5 5 [ex_kingdom_late, ex_wrapper, ex_republic, ex_kingdom_early,
                              ex_elsewhere, ex_tribe, ex_kingdom_early]
     = Inr [entryOf ex_tribe,
            \<lparr>hName = ''Kingdom X'', hFromYear = 100, hToYear = 200, hArea = Some 1000,
              hPolity = ex_kingdom_early\<rparr>,
            entryOf ex_republic]"
    unfolding m1 by simp
  from adjacent_same_name_fragments_merge[OF ex_collect_apart n2, THEN conjunct2] g2 t2
  have b: "getLocationHistory 5 5 [ex_republic, ex_kingdom_restored, ex_tribe, ex_kingdom_early]
     = Inr [entryOf ex_tribe, entryOf ex_kingdom_early, entryOf ex_kingdom_restored,
            entryOf ex_republic]"
    unfolding m2 by simp
  from ex_collect_merging g1 a ex_collect_apart g2 b show ?thesis by (intro conjI)
qed

subsection \<open>The city collection\<close>

lemma reaches100k_iff:
  "reaches100k c \<longleftrightarrow>
     (\<exists>pops. populations c = Some pops \<and> pops \<noteq> [] \<and> 100000 \<le> Max (snd ` set pops))"
proof (cases "populations c")
  case None then show ?thesis by (simp add: reaches100k_def)
next
  case (Some pops)
  show ?thesis
  proof (cases pops)
    case Nil with Some show ?thesis by (simp add: reaches100k_def)
  next
    case (Cons kv rest)
    have "fold max (map snd rest) (snd kv) = Max (set (snd kv # map snd rest))"
      by (rule Max.set_eq_fold[symmetric])
    with Some Cons show ?thesis by (simp add: reaches100k_def)
  qed
qed

lemma reaches100k_populations: "reaches100k c \<Longrightarrow> populations c \<noteq> None"
  by (auto simp: reaches100k_iff)

lemma cityTotals_eq:
  assumes "\<And>c. c \<in> set cs \<Longrightarrow> populations c \<noteq> None"
  shows "cityTotals yr cs (n, u)
     = Inr (n + length (filter (\<lambda>c. resolvedPop c yr \<noteq> None) cs),
            u + sum_list (map (\<lambda>c. case resolvedPop c yr of None \<Rightarrow> 0 | Some v \<Rightarrow> v) cs))"
  using assms
proof (induction cs arbitrary: n u)
  case Nil then show ?case by simp
next
  case (Cons c cs)
  from Cons.prems[of c] obtain pops where "populations c = Some pops" by auto
  from getPopulationForYear_returns[OF this]
  obtain r where r: "getPopulationForYear c yr = Inr r" by blast
  have IH: "\<And>n u. cityTotals yr cs (n, u)
     = Inr (n + length (filter (\<lambda>c. resolvedPop c yr \<noteq> None) cs),
            u + sum_list (map (\<lambda>c. case resolvedPop c yr of None \<Rightarrow> 0 | Some v \<Rightarrow> v) cs))"
    by (rule Cons.IH) (use Cons.prems in auto)
  show ?case
  proof (cases r)
    case None
    with r show ?thesis by (simp add: IH resolvedPop_def)
  next
    case (Some d)
    with r show ?thesis by (simp add: IH resolvedPop_def)
  qed
qed

lemma countCitiesInPolity_eq:
  assumes "\<And>c. c \<in> set cs \<Longrightarrow> populations c \<noteq> None"
    and "\<And>c. c \<in> set cs \<Longrightarrow>
           pointInGeometry (fst (coordinates c)) (snd (coordinates c)) (geometry p)
             CITY_TERRITORY_TOLERANCE \<noteq> Inl TypeError"
  shows "countCitiesInPolity p cs yr n
     = Inr (n + length (filter (\<lambda>c. resolvedPop c yr \<noteq> None \<and> withinTolerance p c) cs))"
  using assms
proof (induction cs arbitrary: n)
  case Nil then show ?case by simp
next
  case (Cons c cs)
  from Cons.prems(1)[of c] obtain pops where "populations c = Some pops" by auto
  from getPopulationForYear_returns[OF this]
  obtain r where r: "getPopulationForYear c yr = Inr r" by blast
  from Cons.prems(2)[of c] obtain b where
    b: "pointInGeometry (fst (coordinates c)) (snd (coordinates c)) (geometry p)
             CITY_TERRITORY_TOLERANCE = Inr b"
    by (cases "pointInGeometry (fst (coordinates c)) (snd (coordinates c)) (geometry p)
             CITY_TERRITORY_TOLERANCE") (auto intro: js_error.exhaust)
  have IH: "\<And>n. countCitiesInPolity p cs yr n
     = Inr (n + length (filter (\<lambda>c. resolvedPop c yr \<noteq> None \<and> withinTolerance p c) cs))"
    by (rule Cons.IH) (use Cons.prems in auto)
  show ?case
  proof (cases r)
    case None
    with r show ?thesis by (simp add: IH resolvedPop_def)
  next
    case (Some d)
    with r b show ?thesis by (cases b) (simp_all add: IH resolvedPop_def withinTolerance_def)
  qed
qed

text \<open>
  Claim C10. \<^verbatim>\<open>loadAllData\<close> keeps in \<^verbatim>\<open>state.allCities\<close> exactly the city features
  that have a \<^verbatim>\<open>populations\<close> object whose greatest value is at least 100000, in
  their order. So \<^verbatim>\<open>totals.cities\<close> and \<^verbatim>\<open>totals.urbanPop\<close> of
  \<^verbatim>\<open>calculateMetricsFast\<close> count and sum the cities of that subset that resolve at the
  year, the call returns, and \<^verbatim>\<open>countCitiesInPolity\<close> on \<^verbatim>\<open>state.allCities\<close> counts
  the cities of the subset that resolve and lie within the tolerance of the polity (when
  \<^verbatim>\<open>pointInGeometry\<close> throws on no city for that polity).
\<close>

theorem city_aggregates_range_over_100k_cities:
  assumes "\<forall>c \<in> set features.
             pointInGeometry (fst (coordinates c)) (snd (coordinates c)) (geometry p)
               CITY_TERRITORY_TOLERANCE \<noteq> Inl TypeError"
  shows "loadCities features
           = filter (\<lambda>c. \<exists>pops. populations c = Some pops \<and> pops \<noteq> []
                            \<and> 100000 \<le> Max (snd ` set pops)) features
       \<and> (\<exists>m. calculateMetricsFast worldStats (loadCities features) yr visiblePolities = Inr m
            \<and> cities (totals m)
                = length (filter (\<lambda>c. reaches100k c \<and> resolvedPop c yr \<noteq> None) features)
            \<and> urbanPop (totals m)
                = sum_list (map (\<lambda>c. case resolvedPop c yr of None \<Rightarrow> 0 | Some v \<Rightarrow> v)
                             (filter reaches100k features)))
       \<and> countCitiesInPolity p (loadCities features) yr 0
           = Inr (length (filter (\<lambda>c. reaches100k c \<and> resolvedPop c yr \<noteq> None
                                      \<and> withinTolerance p c) features))"
proof -
  have pops: "\<And>c. c \<in> set (loadCities features) \<Longrightarrow> populations c \<noteq> None"
    by (auto simp: loadCities_def reaches100k_populations)
  have 1: "loadCities features
           = filter (\<lambda>c. \<exists>pops. populations c = Some pops \<and> pops \<noteq> []
                            \<and> 100000 \<le> Max (snd ` set pops)) features"
    unfolding loadCities_def by (rule filter_cong) (simp_all add: reaches100k_iff)
  have ct: "cityTotals yr (loadCities features) (0, 0)
     = Inr (length (filter (\<lambda>c. reaches100k c \<and> resolvedPop c yr \<noteq> None) features),
            sum_list (map (\<lambda>c. case resolvedPop c yr of None \<Rightarrow> 0 | Some v \<Rightarrow> v)
                             (filter reaches100k features)))"
    using cityTotals_eq[OF pops, of "loadCities features" yr 0 0]
    by (simp add: loadCities_def conj_commute)
  have 2: "\<exists>m. calculateMetricsFast worldStats (loadCities features) yr visiblePolities = Inr m
            \<and> cities (totals m)
                = length (filter (\<lambda>c. reaches100k c \<and> resolvedPop c yr \<noteq> None) features)
            \<and> urbanPop (totals m)
                = sum_list (map (\<lambda>c. case resolvedPop c yr of None \<Rightarrow> 0 | Some v \<Rightarrow> v)
                             (filter reaches100k features))"
    by (simp add: calculateMetricsFast_def Let_def ct)
  have 3: "countCitiesInPolity p (loadCities features) yr 0
           = Inr (length (filter (\<lambda>c. reaches100k c \<and> resolvedPop c yr \<noteq> None
                                      \<and> withinTolerance p c) features))"
    using countCitiesInPolity_eq[of "loadCities features" p yr 0] pops assms
    by (simp add: loadCities_def conj_commute conj_left_commute)
  from 1 2 3 show ?thesis by blast
qed

lemma ex_reaches:
  "reaches100k ex_metropolis" "\<not> reaches100k ex_town" "\<not> reaches100k ex_unrecorded"
  by (simp_all add: reaches100k_def ex_metropolis_def ex_town_def ex_unrecorded_def)

lemma ex_resolved: "resolvedPop ex_metropolis 2000 = Some 150000"
  by (simp add: resolvedPop_def getPopulationForYear_def ex_metropolis_def)

lemma ex_within:
  "pointInGeometry 5 5 (Some ex_square) CITY_TERRITORY_TOLERANCE = Inr True"
  "pointInGeometry 2 3 (Some ex_square) CITY_TERRITORY_TOLERANCE = Inr True"
  "pointInGeometry 7 7 (Some ex_square) CITY_TERRITORY_TOLERANCE = Inr True"
  by (simp_all add: ex_square_def pointInGeometry_def outerRing_def pointInPolygon_def
      edgeCrossed_def)

theorem city_aggregates_range_over_100k_cities_witness:
  "loadCities [ex_town, ex_metropolis, ex_unrecorded] = [ex_metropolis]
   \<and> (\<exists>m. calculateMetricsFast [] (loadCities [ex_town, ex_metropolis, ex_unrecorded]) 2000 []
             = Inr m
        \<and> cities (totals m) = 1 \<and> urbanPop (totals m) = 150000)
   \<and> countCitiesInPolity ex_kingdom_early (loadCities [ex_town, ex_metropolis, ex_unrecorded])
        2000 0 = Inr 1"
proof -
  have g: "geometry ex_kingdom_early = Some ex_square" by (simp add: ex_kingdom_early_def)
  have c: "coordinates ex_town = (2, 3)" "coordinates ex_metropolis = (5, 5)"
    "coordinates ex_unrecorded = (7, 7)"
    by (simp_all add: ex_town_def ex_metropolis_def ex_unrecorded_def)
  have h: "\<forall>c \<in> set [ex_town, ex_metropolis, ex_unrecorded].
             pointInGeometry (fst (coordinates c)) (snd (coordinates c))
               (geometry ex_kingdom_early) CITY_TERRITORY_TOLERANCE \<noteq> Inl TypeError"
    by (simp add: g c ex_within)
  have w: "withinTolerance ex_kingdom_early ex_metropolis"
    by (simp add: withinTolerance_def g c ex_within)
  let ?F = "[ex_town, ex_metropolis, ex_unrecorded]"
  have l: "loadCities ?F = [ex_metropolis]"
    by (simp add: loadCities_def ex_reaches)
  have f1: "filter (\<lambda>c. reaches100k c \<and> resolvedPop c 2000 \<noteq> None) ?F = [ex_metropolis]"
    by (simp add: ex_reaches ex_resolved)
  have f2: "filter reaches100k ?F = [ex_metropolis]"
    by (simp add: ex_reaches)
  have f3: "filter (\<lambda>c. reaches100k c \<and> resolvedPop c 2000 \<noteq> None
                       \<and> withinTolerance ex_kingdom_early c) ?F = [ex_metropolis]"
    by (simp add: ex_reaches ex_resolved w)
  note t = city_aggregates_range_over_100k_cities[OF h, of "[]" 2000 "[]", unfolded f1 f2 f3]
  from t[THEN conjunct2, THEN conjunct1]
  have a: "\<exists>m. calculateMetricsFast [] (loadCities ?F) 2000 [] = Inr m
        \<and> cities (totals m) = 1 \<and> urbanPop (totals m) = 150000"
    by (simp add: ex_resolved)
  from t[THEN conjunct2, THEN conjunct2]
  have b: "countCitiesInPolity ex_kingdom_early (loadCities ?F) 2000 0 = Inr 1"
    by simp
  from l a b show ?thesis by blast
qed

subsection \<open>Further properties\<close>

text \<open>
  The filter of \<^verbatim>\<open>updateMap\<close> is the visibility filter of the specification: it keeps
  the polities whose interval holds the year and whose name is not a parenthesised
  wrapper, and nothing else.
\<close>

theorem updateMap_visible_exact:
  "set (updateMap_visiblePolities yr allPolities)
     = {f \<in> set allPolities. FromYear f \<le> yr \<and> yr \<le> ToYear f \<and> \<not> isParenthetical (Name f)}
   \<and> (\<forall>f \<in> set (updateMap_visiblePolities yr allPolities). \<not> isParenthetical (Name f))"
  by (auto simp: updateMap_visiblePolities_def)

theorem updateMap_visible_exact_witness:
  "map FromYear (updateMap_visiblePolities 100 ex_dataset) = [- 27]"
proof -
  have "map FromYear (updateMap_visiblePolities 100 ex_dataset) = [- 27]"
    by (simp add: ex_updateMap_visible) (simp add: ex_dataset_def)
  with updateMap_visible_exact[of 100 ex_dataset] show ?thesis by simp
qed

text \<open>
  A year that is a key of the series, at or after \<^verbatim>\<open>minYear\<close>, returns its own value
  with the status \<^verbatim>\<open>recorded\<close>.
\<close>

theorem exact_key_is_recorded:
  assumes "populations c = Some pops" and "minYear c \<le> yr" and "map_of pops yr = Some v"
  shows "getPopulationForYear c yr
           = Inr (Some \<lparr>pop = v, popYear = yr, status = Recorded, gap = None\<rparr>)"
  using assms by (simp add: getPopulationForYear_def Let_def)

theorem exact_key_is_recorded_witness:
  "getPopulationForYear ex_city 200
     = Inr (Some \<lparr>pop = 20000, popYear = 200, status = Recorded, gap = None\<rparr>)"
proof -
  have 1: "populations ex_city = Some [(- 100, 5000), (200, 20000)]" by (simp add: ex_city_def)
  have 2: "minYear ex_city \<le> 200" by (simp add: ex_city_def)
  have 3: "map_of [(- 100, 5000), (200, 20000)] (200::int) = Some (20000::int)" by simp
  from exact_key_is_recorded[OF 1 2 3] show ?thesis .
qed

lemma scan_none_before:
  assumes "\<forall>k \<in> fst ` set pops. yr < k"
  shows "fst (fold (scanStep yr) (sort (map fst pops)) (None, None)) = None"
proof -
  have "filter (\<lambda>y. y < yr) (sort (map fst pops)) = []"
    using assms by (auto simp: filter_empty_conv)
  then show ?thesis by (simp only: scan_past list.case)
qed

lemma sorted_hd_least:
  "sorted xs \<Longrightarrow> x \<in> set xs \<Longrightarrow> hd xs \<le> (x :: int)"
  by (cases xs) auto

lemma scan_first_future:
  assumes key: "future \<in> fst ` set pops" and all: "\<forall>k \<in> fst ` set pops. yr < k"
    and least: "\<forall>k \<in> fst ` set pops. future \<le> k"
  shows "snd (fold (scanStep yr) (sort (map fst pops)) (None, None)) = Some future"
proof -
  let ?ys = "sort (map fst pops)"
  have f: "filter (\<lambda>y. yr < y) ?ys = ?ys"
    using all by (auto simp: filter_id_conv)
  have mem: "future \<in> set ?ys" using key by simp
  then obtain z zs where e: "?ys = z # zs" by (cases ?ys) auto
  have "hd ?ys \<le> future" by (rule sorted_hd_least) (use mem in simp_all)
  moreover have "hd ?ys \<in> set ?ys" unfolding e by simp
  then have "hd ?ys \<in> fst ` set pops" by simp
  with least have "future \<le> hd ?ys" by blast
  ultimately have h: "z = future" using e by simp
  have "snd (fold (scanStep yr) ?ys (None, None))
        = (case filter (\<lambda>y. yr < y) ?ys of [] \<Rightarrow> None | z # zs \<Rightarrow> Some z)"
    by (simp only: scan_future option.case)
  also have "\<dots> = Some future"
  proof -
    have "filter (\<lambda>y. yr < y) ?ys = future # zs" using f e h by simp
    then show ?thesis by (simp only: list.case)
  qed
  finally show ?thesis .
qed

text \<open>
  A year at or after \<^verbatim>\<open>minYear\<close> and before every sample returns half of the first
  sample, rounded down and at least 500, with the status \<^verbatim>\<open>prehistoric\<close>.
\<close>

theorem before_first_sample_is_prehistoric:
  assumes pops: "populations c = Some pops"
    and minY: "minYear c \<le> yr"
    and attested: "map_of pops future = Some v"
    and all: "\<forall>k \<in> fst ` set pops. yr < k"
    and least: "\<forall>k \<in> fst ` set pops. future \<le> k"
  shows "getPopulationForYear c yr
           = Inr (Some \<lparr>pop = max 500 (v div 2), popYear = future, status = Prehistoric,
                         gap = Some (future - yr)\<rparr>)"
proof -
  from attested have key: "future \<in> fst ` set pops"
    by (metis map_of_eq_None_iff option.distinct(1))
  from all have noexact: "map_of pops yr = None"
    by (auto simp: map_of_eq_None_iff)
  have sc: "fold (scanStep yr) (sort (map fst pops)) (None, None) = (None, Some future)"
    using scan_none_before[OF all] scan_first_future[OF key all least]
    by (cases "fold (scanStep yr) (sort (map fst pops)) (None, None)") simp
  have "\<lfloor>real_of_int v / real_of_int 2\<rfloor> = v div 2"
    by (rule floor_divide_of_int_eq)
  then have half: "\<lfloor>real_of_int v / 2\<rfloor> = v div 2" by simp
  show ?thesis
    using pops noexact minY attested
    by (simp add: getPopulationForYear_def Let_def sc half)
qed

theorem before_first_sample_is_prehistoric_witness:
  "getPopulationForYear ex_outpost 400
     = Inr (Some \<lparr>pop = 1500, popYear = 500, status = Prehistoric, gap = Some 100\<rparr>)"
proof -
  have 1: "populations ex_outpost = Some [(800, 900), (500, 3000)]" by (simp add: ex_outpost_def)
  have 2: "minYear ex_outpost \<le> 400" by (simp add: ex_outpost_def)
  have 3: "map_of [(800, 900), (500, 3000)] (500::int) = Some (3000::int)" by simp
  have 4: "\<forall>k \<in> fst ` set [(800, 900), (500, 3000::int)]. (400::int) < k" by simp
  have 5: "\<forall>k \<in> fst ` set [(800, 900), (500, 3000::int)]. (500::int) \<le> k" by simp
  from before_first_sample_is_prehistoric[OF 1 2 3 4 5] show ?thesis by simp
qed

lemma fold_age_sum:
  "fold (\<lambda>(_, c) s. s + (yr - fromYear c)) cd a
     = a + sum_list (map (\<lambda>(_, c). yr - fromYear c) cd)"
  by (induction cd arbitrary: a) (auto split: prod.splits)

lemma civDataStep_entries:
  assumes own: "\<not> inheritedName (Name p)"
    and d: "distinct (map fst cd)" and mem: "(k, c) \<in> set (civDataStep p cd)"
  shows "if k = Name p
         then (case map_of cd k of
                 None \<Rightarrow> fromYear c = FromYear p
               | Some c0 \<Rightarrow> fromYear c = min (fromYear c0) (FromYear p))
         else (k, c) \<in> set cd"
proof -
  define F :: "string \<times> civ \<Rightarrow> string \<times> civ" where "F = (\<lambda>(k', c'). if k' = Name p
                     then (k', c'\<lparr>area := area c' + areaOr0 p,
                                  fromYear := min (fromYear c') (FromYear p)\<rparr>)
                     else (k', c'))"
  define cd1 where "cd1 = (if map_of cd (Name p) = None
                      then cd @ [(Name p, \<lparr>area = 0, fromYear = FromYear p\<rparr>)]
                      else cd)"
  have "civDataStep p cd = map F cd1"
    by (simp add: civDataStep_own[OF own] F_def cd1_def)
  with mem have "(k, c) \<in> F ` set cd1" by simp
  then obtain x where x: "x \<in> set cd1" and e: "(k, c) = F x" by blast
  obtain k' c' where kc: "x = (k', c')" by (cases x)
  from e kc have k: "k = k'" by (simp add: F_def split: if_splits)
  show ?thesis
  proof (cases "k = Name p")
    case False
    with e kc k have "(k, c) = (k', c')" by (simp add: F_def)
    moreover from x kc False k have "(k', c') \<in> set cd" by (auto simp: cd1_def split: if_splits)
    ultimately show ?thesis using False by simp
  next
    case True
    with e kc k have c: "fromYear c = min (fromYear c') (FromYear p)" by (simp add: F_def)
    show ?thesis
    proof (cases "map_of cd (Name p)")
      case None
      then have "Name p \<notin> fst ` set cd" by (simp add: map_of_eq_None_iff)
      with x kc k True None have "c' = \<lparr>area = 0, fromYear = FromYear p\<rparr>"
        by (force simp: cd1_def)
      with c True None show ?thesis by simp
    next
      case (Some c0)
      with x kc have "(k', c') \<in> set cd" by (simp add: cd1_def)
      with d k True have "map_of cd (Name p) = Some c'" by simp
      with Some have "c' = c0" by simp
      with c True Some show ?thesis by simp
    qed
  qed
qed

lemma fold_civDataStep_fromYear:
  "\<forall>p \<in> set ps. \<not> inheritedName (Name p) \<Longrightarrow> (k, c) \<in> set (fold civDataStep ps [])
     \<Longrightarrow> fromYear c = Min (FromYear ` {p \<in> set ps. Name p = k})"
proof (induction ps arbitrary: k c rule: rev_induct)
  case Nil then show ?case by simp
next
  case (snoc p ps)
  let ?cd = "fold civDataStep ps []"
  from snoc.prems(1) have own: "\<not> inheritedName (Name p)"
    and rest: "\<forall>p \<in> set ps. \<not> inheritedName (Name p)" by simp_all
  have d: "distinct (map fst ?cd)" using fold_civDataStep[OF rest, of "[]"] by simp
  have keys: "set (map fst ?cd) = Name ` set ps" using fold_civDataStep_keys[OF rest, of "[]"] by simp
  from snoc.prems(2) have mem: "(k, c) \<in> set (civDataStep p ?cd)" by simp
  note ent = civDataStep_entries[OF own d mem]
  show ?case
  proof (cases "k = Name p")
    case False
    with ent have "(k, c) \<in> set ?cd" by simp
    from snoc.IH[OF rest this] have "fromYear c = Min (FromYear ` {q \<in> set ps. Name q = k})" .
    moreover from False have "{q \<in> set (ps @ [p]). Name q = k} = {q \<in> set ps. Name q = k}"
      by auto
    ultimately show ?thesis by simp
  next
    case True
    have S: "FromYear ` {q \<in> set (ps @ [p]). Name q = k}
             = insert (FromYear p) (FromYear ` {q \<in> set ps. Name q = k})"
      using True by auto
    show ?thesis
    proof (cases "map_of ?cd k")
      case None
      then have "k \<notin> set (map fst ?cd)" by (simp add: map_of_eq_None_iff)
      with keys have "{q \<in> set ps. Name q = k} = {}" by auto
      with S have "FromYear ` {q \<in> set (ps @ [p]). Name q = k} = {FromYear p}" by simp
      moreover from ent True None have "fromYear c = FromYear p" by simp
      ultimately show ?thesis by simp
    next
      case (Some c0)
      then have m0: "(k, c0) \<in> set ?cd" by (rule map_of_SomeD)
      from snoc.IH[OF rest m0] have f0: "fromYear c0 = Min (FromYear ` {q \<in> set ps. Name q = k})" .
      from m0 keys have "k \<in> Name ` set ps" by force
      then have ne: "FromYear ` {q \<in> set ps. Name q = k} \<noteq> {}" by auto
      have fin: "finite (FromYear ` {q \<in> set ps. Name q = k})" by simp
      from ent True Some have "fromYear c = min (fromYear c0) (FromYear p)" by simp
      also have "\<dots> = Min (insert (FromYear p) (FromYear ` {q \<in> set ps. Name q = k}))"
        using Min_insert[OF fin ne, of "FromYear p"] f0 by (simp add: min.commute)
      finally show ?thesis by (simp only: S)
    qed
  qed
qed

text \<open>
  What \<^verbatim>\<open>totals.avgAge\<close> is: the mean, over the distinct names of the polities that
  \<^verbatim>\<open>calculateMetricsFast\<close> is given, of the year minus the least \<^verbatim>\<open>FromYear\<close>
  among the given fragments of the name. \<^verbatim>\<open>state.polityFoundingYears\<close> is not read.
  (Stated for names that are not inherited from \<^verbatim>\<open>Object.prototype\<close>; the mean is
  the exact quotient, which the source rounds to a double.)
\<close>

theorem avgAge_is_mean_over_visible_fragments:
  assumes "\<forall>c \<in> set allCities. populations c \<noteq> None" and "visiblePolities \<noteq> []"
    and names: "\<forall>p \<in> set visiblePolities. \<not> inheritedName (Name p)"
  shows "\<exists>m. calculateMetricsFast worldStats allCities yr visiblePolities = Inr m
           \<and> avgAge (totals m)
               = real_of_int (\<Sum>n \<in> Name ` set visiblePolities.
                    yr - Min (FromYear ` {p \<in> set visiblePolities. Name p = n}))
                 / real (card (Name ` set visiblePolities))"
proof -
  let ?cd = "fold civDataStep visiblePolities []"
  let ?g = "\<lambda>n. yr - Min (FromYear ` {p \<in> set visiblePolities. Name p = n})"
  from cityTotals_ok[of allCities yr "(0, 0)"] assms(1)
  obtain n u where r: "cityTotals yr allCities (0, 0) = Inr (n, u)" by fastforce
  have d: "distinct (map fst ?cd)" using fold_civDataStep[OF names, of "[]"] by simp
  have keys: "set (map fst ?cd) = Name ` set visiblePolities"
    using fold_civDataStep_keys[OF names, of "[]"] by simp
  have l: "length ?cd = card (Name ` set visiblePolities)"
    using distinct_card[OF d] keys by simp
  from assms(2) have "Name ` set visiblePolities \<noteq> {}" by simp
  then have pos: "0 < length ?cd" using l by (simp add: card_gt_0_iff)
  have "map (\<lambda>(_, c). yr - fromYear c) ?cd = map (\<lambda>kc. ?g (fst kc)) ?cd"
  proof (rule map_cong[OF refl])
    fix x assume x: "x \<in> set ?cd"
    obtain k c where kc: "x = (k, c)" by (cases x)
    from fold_civDataStep_fromYear[OF names, of k c] x kc
    show "(case x of (_, c) \<Rightarrow> yr - fromYear c) = ?g (fst x)" by simp
  qed
  then have "sum_list (map (\<lambda>(_, c). yr - fromYear c) ?cd) = sum_list (map ?g (map fst ?cd))"
    by (simp only: map_map comp_def)
  also have "\<dots> = sum ?g (set (map fst ?cd))"
    by (rule sum_list_distinct_conv_sum_set[OF d])
  finally have s: "sum_list (map (\<lambda>(_, c). yr - fromYear c) ?cd)
                   = sum ?g (Name ` set visiblePolities)"
    by (simp only: keys)
  show ?thesis
    unfolding l[symmetric] using r pos
    by (simp add: calculateMetricsFast_def Let_def fold_age_sum s)
qed

theorem avgAge_is_mean_over_visible_fragments_witness:
  "\<exists>m. calculateMetricsFast [] [] 100 (updateMap_visiblePolities 100 ex_dataset) = Inr m
        \<and> avgAge (totals m) = 127"
proof -
  have 1: "\<forall>c \<in> set ([] :: city list). populations c \<noteq> None" by simp
  have 2: "[hd ex_dataset] \<noteq> []" by simp
  have 3: "\<forall>p \<in> set [hd ex_dataset]. \<not> inheritedName (Name p)"
    by (simp add: ex_dataset_def inheritedName_def objectPrototypeNames_def)
  have n: "Name ` set [hd ex_dataset] = {''Rome''}" by (simp add: ex_dataset_def)
  have f: "{p. p = hd ex_dataset \<and> Name p = ''Rome''} = {hd ex_dataset}"
    "FromYear (hd ex_dataset) = - 27"
    by (auto simp: ex_dataset_def)
  note t = avgAge_is_mean_over_visible_fragments[OF 1 2 3, of "[]" 100, unfolded n]
  from t show ?thesis unfolding ex_updateMap_visible by (simp add: f)
qed

end
